(* ===== verification/Prelude.thy ===== *)
theory Prelude
  imports "HOL-Library.State_Monad"
begin

text \<open>
  Shared vocabulary of the development.

  A Go function of the repository that mutates its object and calls the outside world is an
  action of the state monad over \<open>('o, 'c) st\<close>: \<open>obj\<close> is the object the function mutates
  through its pointer (a SveltosCluster, a SveltosLicense), \<open>calls\<close> is the sequence of
  calls made so far to code outside the repository. The answer of such a call is a function
  of the calls made before it (\<open>external\<close>), so that an environment can answer the same
  question differently at different moments, and the theorems can speak about which calls
  happen and in which order.

  Go errors are values (\<open>goerr\<close>), a function that returns \<open>(T, error)\<close> yields
  \<open>goerr + 'a\<close>, a function that may panic yields an \<open>outcome\<close>.

  The predicates \<open>keeps\<close> (a view of the state is left unchanged) and \<open>only_calls\<close> (every
  call made satisfies a predicate) come with rules for the monad's operations, collected in
  \<open>keeps_rules\<close> and \<open>calls_rules\<close>; \<open>go_defs\<close> collects the definitions of operations.
\<close>

named_theorems go_defs \<open>definitions of the modelled operations\<close>
named_theorems keeps_rules \<open>frame rules: a view of the state is unchanged\<close>
named_theorems calls_rules \<open>rules bounding the calls an action makes\<close>

section \<open>Errors, panics, slices\<close>

record goerr =
  Error :: string
  IsNotFound :: bool
  IsNoMatch :: bool

definition errorf :: "string \<Rightarrow> goerr" where
  "errorf m = \<lparr>Error = m, IsNotFound = False, IsNoMatch = False\<rparr>"

lemma Error_errorf [simp]: "Error (errorf m) = m"
  by (simp add: errorf_def)

datatype 'a outcome = Ret 'a | Fail goerr | Panic string

text \<open>A Go slice is nil or holds elements; ranging over a nil slice does nothing.\<close>

type_synonym 'a slice = "'a list option"

definition elems :: "'a slice \<Rightarrow> 'a list" where
  "elems s = (case s of None \<Rightarrow> [] | Some xs \<Rightarrow> xs)"

lemma elems_simps [simp]: "elems None = []" "elems (Some xs) = xs"
  by (simp_all add: elems_def)

text \<open>A Go map is nil or holds entries; reading a nil map finds nothing.\<close>

type_synonym ('k, 'v) gomap = "('k \<rightharpoonup> 'v) option"

definition lookup :: "('k, 'v) gomap \<Rightarrow> 'k \<Rightarrow> 'v option" where
  "lookup m k = (case m of None \<Rightarrow> None | Some f \<Rightarrow> f k)"

lemma lookup_simps [simp]: "lookup None k = None" "lookup (Some f) k = f k"
  by (simp_all add: lookup_def)

text \<open>Reading a missing key of a map of strings gives the empty string.\<close>

definition lookup_str :: "('k, string) gomap \<Rightarrow> 'k \<Rightarrow> string" where
  "lookup_str m k = (case lookup m k of None \<Rightarrow> [] | Some v \<Rightarrow> v)"

section \<open>Actions\<close>

record ('o, 'c) st =
  obj :: 'o
  calls :: "'c list"

type_synonym ('o, 'c, 'a) action = "(('o, 'c) st, 'a) state"

definition external :: "('c list \<Rightarrow> 'a) \<Rightarrow> 'c \<Rightarrow> ('o, 'c, 'a) action" where
  "external answer c = State (\<lambda>s. (answer (calls s), s\<lparr>calls := calls s @ [c]\<rparr>))"

definition modify :: "('o \<Rightarrow> 'o) \<Rightarrow> ('o, 'c, unit) action" where
  "modify f = State (\<lambda>s. ((), s\<lparr>obj := f (obj s)\<rparr>))"

definition gets :: "('o \<Rightarrow> 'a) \<Rightarrow> ('o, 'c, 'a) action" where
  "gets f = State (\<lambda>s. (f (obj s), s))"

abbreviation "ret \<equiv> State_Monad.return"
abbreviation "skip \<equiv> State_Monad.return ()"

abbreviation result :: "('s, 'a) state \<Rightarrow> 's \<Rightarrow> 'a" where
  "result m s \<equiv> fst (run_state m s)"

abbreviation final :: "('s, 'a) state \<Rightarrow> 's \<Rightarrow> 's" where
  "final m s \<equiv> snd (run_state m s)"

lemma run_external [simp]:
  "run_state (external answer c) s = (answer (calls s), s\<lparr>calls := calls s @ [c]\<rparr>)"
  by (simp add: external_def)

lemma run_modify [simp]: "run_state (modify f) s = ((), s\<lparr>obj := f (obj s)\<rparr>)"
  by (simp add: modify_def)

lemma run_gets [simp]: "run_state (gets f) s = (f (obj s), s)"
  by (simp add: gets_def)

lemma run_bind_pair:
  "run_state (State_Monad.bind m f) s = run_state (f (result m s)) (final m s)"
  by (simp add: case_prod_beta)

section \<open>Frame rules\<close>

definition keeps :: "(('o, 'c) st \<Rightarrow> 'x) \<Rightarrow> ('o, 'c, 'a) action \<Rightarrow> bool" where
  "keeps view m \<longleftrightarrow> (\<forall>s. view (final m s) = view s)"

lemma keepsD: "keeps view m \<Longrightarrow> view (final m s) = view s"
  by (simp add: keeps_def)

lemma keepsI: "(\<And>s. view (final m s) = view s) \<Longrightarrow> keeps view m"
  by (simp add: keeps_def)

lemma keeps_return [keeps_rules]: "keeps view (State_Monad.return a)"
  by (simp add: keeps_def)

lemma keeps_gets [keeps_rules]: "keeps view (gets f)"
  by (simp add: keeps_def)

lemma keeps_external [keeps_rules]: "keeps (\<lambda>s. view (obj s)) (external answer c)"
  by (simp add: keeps_def)

lemma keeps_modify [keeps_rules]:
  "(\<And>x. view (f x) = view x) \<Longrightarrow> keeps (\<lambda>s. view (obj s)) (modify f)"
  by (simp add: keeps_def)

lemma keeps_bind [keeps_rules]:
  "keeps view m \<Longrightarrow> (\<And>a. keeps view (f a)) \<Longrightarrow> keeps view (State_Monad.bind m f)"
  by (simp add: keeps_def case_prod_beta)

lemma keeps_if [keeps_rules]:
  "(b \<Longrightarrow> keeps view m) \<Longrightarrow> (\<not> b \<Longrightarrow> keeps view n) \<Longrightarrow> keeps view (if b then m else n)"
  by simp

lemma keeps_option [keeps_rules]:
  "(x = None \<Longrightarrow> keeps view m) \<Longrightarrow> (\<And>a. x = Some a \<Longrightarrow> keeps view (f a)) \<Longrightarrow>
   keeps view (case x of None \<Rightarrow> m | Some a \<Rightarrow> f a)"
  by (cases x) simp_all

lemma keeps_sum [keeps_rules]:
  "(\<And>a. x = Inl a \<Longrightarrow> keeps view (g a)) \<Longrightarrow> (\<And>a. x = Inr a \<Longrightarrow> keeps view (f a)) \<Longrightarrow>
   keeps view (case x of Inl a \<Rightarrow> g a | Inr a \<Rightarrow> f a)"
  by (cases x) simp_all

lemma keeps_prod [keeps_rules]:
  "(\<And>a b. x = (a, b) \<Longrightarrow> keeps view (f a b)) \<Longrightarrow> keeps view (case x of (a, b) \<Rightarrow> f a b)"
  by (cases x) simp_all

lemma keeps_outcome [keeps_rules]:
  "(\<And>a. x = Ret a \<Longrightarrow> keeps view (f a)) \<Longrightarrow> (\<And>a. x = Fail a \<Longrightarrow> keeps view (g a)) \<Longrightarrow>
   (\<And>a. x = Panic a \<Longrightarrow> keeps view (h a)) \<Longrightarrow>
   keeps view (case x of Ret a \<Rightarrow> f a | Fail a \<Rightarrow> g a | Panic a \<Rightarrow> h a)"
  by (cases x) simp_all

lemma keeps_Let [keeps_rules]:
  "keeps view (f x) \<Longrightarrow> keeps view (let a = x in f a)"
  by (simp add: Let_def)

section \<open>Which calls an action makes\<close>

definition only_calls :: "('c \<Rightarrow> bool) \<Rightarrow> ('o, 'c, 'a) action \<Rightarrow> bool" where
  "only_calls P m \<longleftrightarrow>
     (\<forall>s. \<exists>cs. calls (final m s) = calls s @ cs \<and> list_all P cs)"

lemma only_callsD:
  "only_calls P m \<Longrightarrow> \<exists>cs. calls (final m s) = calls s @ cs \<and> list_all P cs"
  by (simp add: only_calls_def)

lemma only_calls_return [calls_rules]: "only_calls P (State_Monad.return a)"
  by (simp add: only_calls_def)

lemma only_calls_gets [calls_rules]: "only_calls P (gets f)"
  by (simp add: only_calls_def)

lemma only_calls_modify [calls_rules]: "only_calls P (modify f)"
  by (simp add: only_calls_def)

lemma only_calls_external [calls_rules]: "P c \<Longrightarrow> only_calls P (external answer c)"
  by (simp add: only_calls_def)

lemma only_calls_bind [calls_rules]:
  assumes "only_calls P m" and "\<And>a. only_calls P (f a)"
  shows "only_calls P (State_Monad.bind m f)"
  unfolding only_calls_def
proof
  fix s
  obtain cs where cs: "calls (final m s) = calls s @ cs" "list_all P cs"
    using only_callsD [OF assms(1)] by blast
  obtain ds where ds: "calls (final (f (result m s)) (final m s)) = calls (final m s) @ ds"
      "list_all P ds"
    using only_callsD [OF assms(2)] by blast
  show "\<exists>cs. calls (final (State_Monad.bind m f) s) = calls s @ cs \<and> list_all P cs"
    using cs ds by (intro exI [of _ "cs @ ds"]) (simp add: run_bind_pair del: run_state_bind)
qed

lemma only_calls_if [calls_rules]:
  "(b \<Longrightarrow> only_calls P m) \<Longrightarrow> (\<not> b \<Longrightarrow> only_calls P n) \<Longrightarrow> only_calls P (if b then m else n)"
  by simp

lemma only_calls_option [calls_rules]:
  "(x = None \<Longrightarrow> only_calls P m) \<Longrightarrow> (\<And>a. x = Some a \<Longrightarrow> only_calls P (f a)) \<Longrightarrow>
   only_calls P (case x of None \<Rightarrow> m | Some a \<Rightarrow> f a)"
  by (cases x) simp_all

lemma only_calls_sum [calls_rules]:
  "(\<And>a. x = Inl a \<Longrightarrow> only_calls P (g a)) \<Longrightarrow> (\<And>a. x = Inr a \<Longrightarrow> only_calls P (f a)) \<Longrightarrow>
   only_calls P (case x of Inl a \<Rightarrow> g a | Inr a \<Rightarrow> f a)"
  by (cases x) simp_all

lemma only_calls_prod [calls_rules]:
  "(\<And>a b. x = (a, b) \<Longrightarrow> only_calls P (f a b)) \<Longrightarrow>
   only_calls P (case x of (a, b) \<Rightarrow> f a b)"
  by (cases x) simp_all

lemma only_calls_outcome [calls_rules]:
  "(\<And>a. x = Ret a \<Longrightarrow> only_calls P (f a)) \<Longrightarrow> (\<And>a. x = Fail a \<Longrightarrow> only_calls P (g a)) \<Longrightarrow>
   (\<And>a. x = Panic a \<Longrightarrow> only_calls P (h a)) \<Longrightarrow>
   only_calls P (case x of Ret a \<Rightarrow> f a | Fail a \<Rightarrow> g a | Panic a \<Rightarrow> h a)"
  by (cases x) simp_all

lemma only_calls_Let [calls_rules]:
  "only_calls P (f x) \<Longrightarrow> only_calls P (let a = x in f a)"
  by (simp add: Let_def)

lemma only_calls_mono:
  "only_calls P m \<Longrightarrow> (\<And>c. P c \<Longrightarrow> Q c) \<Longrightarrow> only_calls Q m"
  unfolding only_calls_def by (metis list.pred_mono_strong)

lemma only_calls_filter:
  assumes "only_calls P m" and "\<And>c. P c \<Longrightarrow> \<not> Q c"
  shows "filter Q (calls (final m s)) = filter Q (calls s)"
proof -
  obtain cs where cs: "calls (final m s) = calls s @ cs" "list_all P cs"
    using only_callsD [OF assms(1)] by blast
  then have "filter Q cs = []"
    using assms(2) by (auto simp: list_all_iff filter_empty_conv)
  then show ?thesis using cs(1) by simp
qed

end
