(* ===== verification/Go_Numeric.thy ===== *)
theory Go_Numeric
  imports Prelude Complex_Main "HOL-Library.Log_Nat"
begin

text \<open>
  Go's numbers as the program uses them. An \<open>int64\<close> (and a \<open>time.Duration\<close>) is an integer
  with the wrap-around of its 64 bits written out (\<open>wrap64\<close>); integer division truncates
  (\<open>go_div\<close>, \<open>go_mod\<close>). A \<open>float64\<close> is the rational it denotes: \<open>fl64\<close> rounds a
  rational to the nearest binary64 value, ties to even, with the format's 53-bit significand
  and its least exponent. NaN and infinities do not arise in the modelled computations.

  The locale \<open>rounding\<close> is what the rest of the development uses of \<open>float64\<close>
  arithmetic: rounding is monotone and exact on integers up to \<open>2 ^ 53\<close>. It is
  interpreted on \<open>fl64\<close>.
\<close>

section \<open>64-bit integers\<close>

definition wrap64 :: "int \<Rightarrow> int" where
  "wrap64 n = (n + 2 ^ 63) mod 2 ^ 64 - 2 ^ 63"

definition is_int64 :: "int \<Rightarrow> bool" where
  "is_int64 n \<longleftrightarrow> - (2 ^ 63) \<le> n \<and> n < 2 ^ 63"

lemma wrap64_id [simp]: "is_int64 n \<Longrightarrow> wrap64 n = n"
  by (simp add: wrap64_def is_int64_def)

lemma is_int64_wrap64 [simp]: "is_int64 (wrap64 n)"
proof -
  have "(n + 2 ^ 63) mod 2 ^ 64 < (2 ^ 64 :: int)" "0 \<le> (n + 2 ^ 63) mod (2 ^ 64 :: int)"
    by (rule pos_mod_bound, simp) (rule pos_mod_sign, simp)
  then show ?thesis by (simp add: wrap64_def is_int64_def)
qed

definition go_div :: "int \<Rightarrow> int \<Rightarrow> int" where
  "go_div a b = (if a < 0 then - ((- a) div b) else a div b)"

definition go_mod :: "int \<Rightarrow> int \<Rightarrow> int" where
  "go_mod a b = (if a < 0 then - ((- a) mod b) else a mod b)"

lemma go_div_mod: "go_div a b * b + go_mod a b = a"
proof (cases "a < 0")
  case True
  have "b * ((- a) div b) + (- a) mod b = - a" by (rule mult_div_mod_eq)
  then have "- (b * ((- a) div b)) - (- a) mod b = a" by linarith
  with True show ?thesis by (simp add: go_div_def go_mod_def mult.commute)
qed (simp add: go_div_def go_mod_def)

text \<open>Conversion of a float to an integer truncates towards zero.\<close>

definition trunc :: "rat \<Rightarrow> int" where
  "trunc x = (if x < 0 then - \<lfloor>- x\<rfloor> else \<lfloor>x\<rfloor>)"

lemma trunc_of_int [simp]: "trunc (of_int n) = n"
proof (cases "n < 0")
  case True
  have "\<lfloor>- (of_int n :: rat)\<rfloor> = - n" by (metis floor_of_int of_int_minus)
  with True show ?thesis by (simp add: trunc_def)
qed (simp add: trunc_def)

lemma trunc_mono: "x \<le> y \<Longrightarrow> trunc x \<le> trunc y"
proof -
  assume le: "x \<le> y"
  consider "x < 0" "y < 0" | "x < 0" "0 \<le> y" | "0 \<le> x" "0 \<le> y"
    using le by linarith
  then show ?thesis
  proof cases
    case 1
    with le show ?thesis by (simp add: trunc_def floor_mono)
  next
    case 2
    then have "0 \<le> \<lfloor>- x\<rfloor>" "0 \<le> \<lfloor>y\<rfloor>" by simp_all
    with 2 show ?thesis by (simp add: trunc_def del: zero_le_floor)
  next
    case 3
    with le show ?thesis by (simp add: trunc_def floor_mono)
  qed
qed

section \<open>Binary64\<close>

text \<open>Rounding to the nearest integer, ties to even.\<close>

definition round_even :: "rat \<Rightarrow> int" where
  "round_even y =
     (let f = \<lfloor>y\<rfloor>; d = y - of_int f
      in if d < 1 / 2 then f else if d > 1 / 2 then f + 1
      else if even f then f else f + 1)"

lemma round_even_of_int [simp]: "round_even (of_int n) = n"
  by (simp add: round_even_def)

lemma round_even_bounds: "\<lfloor>y\<rfloor> \<le> round_even y" "round_even y \<le> \<lfloor>y\<rfloor> + 1"
  by (simp_all add: round_even_def Let_def)

lemma round_even_mono: "x \<le> y \<Longrightarrow> round_even x \<le> round_even y"
proof -
  assume le: "x \<le> y"
  then have "\<lfloor>x\<rfloor> \<le> \<lfloor>y\<rfloor>" by (rule floor_mono)
  then consider "\<lfloor>x\<rfloor> = \<lfloor>y\<rfloor>" | "\<lfloor>x\<rfloor> + 1 \<le> \<lfloor>y\<rfloor>" by linarith
  then show ?thesis
  proof cases
    case 1
    with le show ?thesis by (auto simp: round_even_def Let_def)
  next
    case 2
    then show ?thesis using round_even_bounds(2) [of x] round_even_bounds(1) [of y] by linarith
  qed
qed

text \<open>The exponent of a positive rational: \<open>2 ^ expo x \<le> x < 2 ^ (expo x + 1)\<close>.\<close>

definition expo :: "rat \<Rightarrow> int" where
  "expo x =
     (case quotient_of x of (p, q) \<Rightarrow>
        let k = bitlen p - bitlen q in if 2 powi k \<le> x then k else k - 1)"

definition ulp :: "rat \<Rightarrow> rat" where
  "ulp x = 2 powi (max (expo x - 52) (- 1074))"

definition fl_pos :: "rat \<Rightarrow> rat" where
  "fl_pos x = (if x = 0 then 0 else of_int (round_even (x / ulp x)) * ulp x)"

definition fl64 :: "rat \<Rightarrow> rat" where
  "fl64 x = (if x < 0 then - fl_pos (- x) else fl_pos x)"

lemma ulp_pos [simp]: "0 < ulp x"
  by (simp add: ulp_def)

lemma bitlen_powi:
  "0 < n \<Longrightarrow> (2 :: rat) powi (bitlen n - 1) \<le> of_int n \<and> of_int n < (2 :: rat) powi bitlen n"
proof -
  assume n: "0 < n"
  then have b: "1 \<le> bitlen n" using bitlen_eq_zero_iff [of n] bitlen_nonneg [of n] by linarith
  have "2 ^ nat (bitlen n - 1) \<le> n \<and> n < 2 ^ nat (bitlen n)" by (rule bitlen_bounds [OF n])
  then have "(of_int (2 ^ nat (bitlen n - 1)) :: rat) \<le> of_int n \<and>
      (of_int n :: rat) < of_int (2 ^ nat (bitlen n))"
    by (simp only: of_int_le_iff of_int_less_iff)
  with b show ?thesis by (simp add: power_int_def)
qed

lemma expo_bounds:
  assumes "0 < x"
  shows "2 powi expo x \<le> x \<and> x < 2 powi (expo x + 1)"
proof -
  obtain p q where pq: "quotient_of x = (p, q)" by fastforce
  have q: "0 < q" using quotient_of_denom_pos [OF pq] .
  have x: "x = of_int p / of_int q" using quotient_of_div [OF pq] .
  have p: "0 < p" using assms x q by (simp add: zero_less_divide_iff)
  let ?k = "bitlen p - bitlen q"
  have "x < 2 powi bitlen p / of_int q"
    using bitlen_powi [OF p] q x by (simp add: divide_strict_right_mono)
  also have "\<dots> \<le> 2 powi bitlen p / 2 powi (bitlen q - 1)"
    using bitlen_powi [OF q] q by (intro divide_left_mono) simp_all
  also have "\<dots> = 2 powi (?k + 1)"
    by (simp add: power_int_diff [symmetric] algebra_simps)
  finally have up: "x < 2 powi (?k + 1)" .
  have "2 powi (?k - 1) = 2 powi (bitlen p - 1) / (2 :: rat) powi bitlen q"
    by (simp add: power_int_diff [symmetric] algebra_simps)
  also have "\<dots> \<le> 2 powi (bitlen p - 1) / of_int q"
    using bitlen_powi [OF q] q by (intro divide_left_mono) simp_all
  also have "\<dots> \<le> x"
    using bitlen_powi [OF p] q x by (simp add: divide_right_mono)
  finally have lo: "2 powi (?k - 1) \<le> x" .
  from up lo pq show ?thesis by (auto simp: expo_def Let_def)
qed

lemma expo_unique:
  assumes "(2 :: rat) powi k \<le> x" "x < 2 powi (k + 1)"
  shows "expo x = k"
proof -
  have x: "0 < x" using assms(1) by (meson less_le_trans zero_less_numeral zero_less_power_int)
  have b: "2 powi expo x \<le> x" "x < 2 powi (expo x + 1)" using expo_bounds [OF x] by blast+
  have "\<not> expo x + 1 \<le> k"
    using b(2) assms(1) power_int_increasing [of "expo x + 1" k "2 :: rat"] by fastforce
  moreover have "\<not> k + 1 \<le> expo x"
    using b(1) assms(2) power_int_increasing [of "k + 1" "expo x" "2 :: rat"] by fastforce
  ultimately show ?thesis by linarith
qed

lemma expo_mono: "0 < x \<Longrightarrow> x \<le> y \<Longrightarrow> expo x \<le> expo y"
proof (rule ccontr)
  assume a: "0 < x" "x \<le> y" "\<not> expo x \<le> expo y"
  then have "2 powi (expo y + 1) \<le> (2 :: rat) powi expo x"
    by (intro power_int_increasing) simp_all
  with a expo_bounds [of x] expo_bounds [of y] show False by linarith
qed

lemma powi_ratio: "e \<le> k \<Longrightarrow> (2 :: rat) powi k / 2 powi e = of_int (2 ^ nat (k - e))"
proof -
  assume "e \<le> k"
  then have "(2 :: rat) powi (k - e) = 2 ^ nat (k - e)" by (simp add: power_int_def)
  then show ?thesis by (simp add: power_int_diff)
qed

lemma fl_pos_le_powi:
  assumes "0 < x" "x \<le> 2 powi k" "max (expo x - 52) (- 1074) \<le> k"
  shows "fl_pos x \<le> 2 powi k"
proof -
  have "x / ulp x \<le> 2 powi k / ulp x" using assms by (intro divide_right_mono) (simp_all add: less_imp_le)
  also have "\<dots> = of_int (2 ^ nat (k - max (expo x - 52) (- 1074)))"
    unfolding ulp_def by (rule powi_ratio [OF assms(3)])
  finally have "round_even (x / ulp x) \<le> 2 ^ nat (k - max (expo x - 52) (- 1074))"
    using round_even_mono round_even_of_int by metis
  then have "of_int (round_even (x / ulp x)) * ulp x
      \<le> of_int (2 ^ nat (k - max (expo x - 52) (- 1074))) * ulp x"
    by (intro mult_right_mono) (simp_all only: of_int_le_iff, simp_all add: less_imp_le)
  also have "\<dots> = 2 powi k"
    using powi_ratio [OF assms(3)] by (simp add: ulp_def field_simps)
  finally show ?thesis using assms(1) by (simp add: fl_pos_def)
qed

lemma fl_pos_ge_powi:
  assumes "0 < x" "2 powi k \<le> x" "max (expo x - 52) (- 1074) \<le> k"
  shows "2 powi k \<le> fl_pos x"
proof -
  have "2 powi k = of_int (2 ^ nat (k - max (expo x - 52) (- 1074))) * ulp x"
    using powi_ratio [OF assms(3)] by (simp add: ulp_def field_simps)
  also have "of_int (2 ^ nat (k - max (expo x - 52) (- 1074))) = 2 powi k / ulp x"
    unfolding ulp_def by (rule powi_ratio [OF assms(3), symmetric])
  finally have k: "2 powi k = (2 powi k / ulp x) * ulp x" .
  have "2 powi k / ulp x \<le> x / ulp x" using assms by (intro divide_right_mono) (simp_all add: less_imp_le)
  then have "of_int (2 ^ nat (k - max (expo x - 52) (- 1074))) \<le> x / ulp x"
    using powi_ratio [OF assms(3)] by (simp add: ulp_def)
  then have "2 ^ nat (k - max (expo x - 52) (- 1074)) \<le> round_even (x / ulp x)"
    using round_even_mono round_even_of_int by metis
  then have "of_int (2 ^ nat (k - max (expo x - 52) (- 1074))) * ulp x
      \<le> of_int (round_even (x / ulp x)) * ulp x"
    by (intro mult_right_mono) (simp_all only: of_int_le_iff, simp_all add: less_imp_le)
  then show ?thesis
    using assms(1) powi_ratio [OF assms(3)] by (simp add: fl_pos_def ulp_def field_simps)
qed

lemma fl_pos_nonneg: "0 \<le> x \<Longrightarrow> 0 \<le> fl_pos x"
proof -
  assume "0 \<le> x"
  then have "round_even (of_int 0) \<le> round_even (x / ulp x)"
    by (intro round_even_mono) (simp add: less_imp_le)
  then have "0 \<le> round_even (x / ulp x)" by (simp only: round_even_of_int)
  then show ?thesis by (simp add: fl_pos_def less_imp_le)
qed

lemma fl_pos_mono_pos:
  assumes "0 < x" "x \<le> y"
  shows "fl_pos x \<le> fl_pos y"
proof (cases "ulp x = ulp y")
  case True
  have "x / ulp x \<le> y / ulp x" using assms by (intro divide_right_mono) (simp_all add: less_imp_le)
  then have "of_int (round_even (x / ulp x)) \<le> (of_int (round_even (y / ulp x)) :: rat)"
    using round_even_mono by simp
  with True assms show ?thesis by (simp add: fl_pos_def mult_right_mono less_imp_le)
next
  case False
  have y: "0 < y" using assms by linarith
  have "expo x \<le> expo y" using assms by (rule expo_mono)
  moreover from False have "max (expo x - 52) (- 1074) \<noteq> max (expo y - 52) (- 1074)"
    by (auto simp: ulp_def)
  ultimately have lt: "expo x < expo y" "- 1074 \<le> expo y - 52" by linarith+
  have "x \<le> 2 powi (expo x + 1)" using expo_bounds [OF assms(1)] by simp
  also have "\<dots> \<le> 2 powi expo y" using lt(1) by (intro power_int_increasing) simp_all
  finally have "fl_pos x \<le> 2 powi expo y"
    using lt by (intro fl_pos_le_powi [OF assms(1)]) simp_all
  also have "\<dots> \<le> fl_pos y"
    using expo_bounds [OF y] lt(2) by (intro fl_pos_ge_powi [OF y]) simp_all
  finally show ?thesis .
qed

lemma fl_pos_mono: "0 \<le> x \<Longrightarrow> x \<le> y \<Longrightarrow> fl_pos x \<le> fl_pos y"
  using fl_pos_mono_pos fl_pos_nonneg [of y] by (cases "x = 0") (auto simp: fl_pos_def)

lemma fl64_mono: "x \<le> y \<Longrightarrow> fl64 x \<le> fl64 y"
  using fl_pos_mono [of "- y" "- x"] fl_pos_mono [of x y]
    fl_pos_nonneg [of "- x"] fl_pos_nonneg [of y]
  by (auto simp: fl64_def)

lemma fl_pos_int:
  assumes "0 \<le> n" "n \<le> 2 ^ 53"
  shows "fl_pos (of_int n) = of_int n"
proof (cases "n = 0")
  case False
  with assms have n: "0 < n" by simp
  let ?x = "of_int n :: rat"
  have x: "0 < ?x" using n by simp
  have "1 \<le> ?x" using n by simp
  then have lo: "- 1 < expo ?x"
    using expo_bounds [OF x] power_int_increasing [of "expo ?x + 1" 0 "2 :: rat"]
    by (cases "expo ?x + 1 \<le> 0") auto
  have le: "?x \<le> 2 powi 53" using assms(2) by (simp add: power_int_def)
  have hi: "expo ?x \<le> 53"
  proof (rule ccontr)
    assume "\<not> expo ?x \<le> 53"
    then have "2 powi 53 < (2 :: rat) powi expo ?x" by (intro power_int_strict_increasing) simp_all
    with le expo_bounds [OF x] show False by linarith
  qed
  show ?thesis
  proof (cases "expo ?x = 53")
    case True
    then have "?x = 2 powi 53" using expo_bounds [OF x] le by simp
    then have n: "n = 2 ^ 53" by (simp add: power_int_def)
    have "?x / ulp ?x = of_int (2 ^ 52)" using True n by (simp add: ulp_def power_int_def)
    then have "round_even (?x / ulp ?x) = 2 ^ 52" by (simp only: round_even_of_int)
    moreover have "ulp ?x = 2" using True by (simp add: ulp_def)
    ultimately show ?thesis using n by (simp add: fl_pos_def)
  next
    case False
    with hi lo have e: "- 1074 \<le> expo ?x - 52" "expo ?x \<le> 52" by linarith+
    then have "?x / ulp ?x = of_int (n * 2 ^ nat (52 - expo ?x))"
      by (simp add: ulp_def power_int_def field_simps)
    then have "round_even (?x / ulp ?x) = n * 2 ^ nat (52 - expo ?x)"
      by (simp only: round_even_of_int)
    moreover have "?x / ulp ?x * ulp ?x = ?x" by (simp add: less_imp_neq [OF ulp_pos, symmetric])
    ultimately show ?thesis
      using \<open>?x / ulp ?x = _\<close> x by (simp add: fl_pos_def)
  qed
qed (simp add: fl_pos_def)

lemma fl64_int: "\<bar>n\<bar> \<le> 2 ^ 53 \<Longrightarrow> fl64 (of_int n) = of_int n"
  using fl_pos_int [of n] fl_pos_int [of "- n"] by (auto simp: fl64_def)

section \<open>What the program uses of float64\<close>

locale rounding =
  fixes fl :: "rat \<Rightarrow> rat"
  assumes fl_mono: "x \<le> y \<Longrightarrow> fl x \<le> fl y"
    and fl_int: "\<bar>n\<bar> \<le> 2 ^ 53 \<Longrightarrow> fl (of_int n) = of_int n"
begin

lemma fl_ge_int: "\<bar>n\<bar> \<le> 2 ^ 53 \<Longrightarrow> of_int n \<le> x \<Longrightarrow> of_int n \<le> fl x"
  using fl_mono [of "of_int n" x] by (simp add: fl_int)

lemma fl_le_int: "\<bar>n\<bar> \<le> 2 ^ 53 \<Longrightarrow> x \<le> of_int n \<Longrightarrow> fl x \<le> of_int n"
  using fl_mono [of x "of_int n"] by (simp add: fl_int)

text \<open>A rounded value stays between the integers around the exact one.\<close>

lemma fl_between:
  "\<bar>n\<bar> \<le> 2 ^ 53 \<Longrightarrow> \<bar>m\<bar> \<le> 2 ^ 53 \<Longrightarrow> of_int n \<le> x \<Longrightarrow> x \<le> of_int m \<Longrightarrow>
   of_int n \<le> fl x \<and> fl x \<le> of_int m"
  by (simp add: fl_ge_int fl_le_int)

text \<open>
  The value \<open>sec + nsec / 10 ^ 9\<close> computed as Go's \<open>Duration.Seconds\<close> does, one
  rounding per operation, grows with the duration it stands for.
\<close>

lemma fl_frac_bounds:
  "0 \<le> r \<Longrightarrow> r < 10 ^ 9 \<Longrightarrow> 0 \<le> fl (of_int r / 10 ^ 9) \<and> fl (of_int r / 10 ^ 9) \<le> 1"
  using fl_between [of 0 1 "of_int r / 10 ^ 9"] by (simp add: divide_le_eq)

lemma fl_frac_neg_bounds:
  "- (10 ^ 9) < r \<Longrightarrow> r \<le> 0 \<Longrightarrow> - 1 \<le> fl (of_int r / 10 ^ 9) \<and> fl (of_int r / 10 ^ 9) \<le> 0"
  using fl_between [of "- 1" 0 "of_int r / 10 ^ 9"] by (simp add: le_divide_eq divide_le_eq)

end

interpretation f64: rounding fl64
  by unfold_locales (simp_all add: fl64_mono fl64_int)

end
