(* ===== verification/Go_Time.thy ===== *)
theory Go_Time
  imports Go_Numeric
begin

text \<open>
  The part of Go's \<open>time\<close> package the program uses. A \<open>time.Time\<close> is the instant it denotes,
  in nanoseconds since the Unix epoch (the location a \<open>Time\<close> carries matters for formatting
  only, so \<open>UTC()\<close> is the identity here); instants are unbounded integers, since the
  dates an API object can hold (years 0 to 9999) are far from the limits of Go's
  representation. A \<open>time.Duration\<close> is an \<open>int64\<close> count of nanoseconds.

  \<open>formatRFC3339\<close> and \<open>parseRFC3339\<close> are \<open>Time.Format\<close> and \<open>time.Parse\<close> at the layout
  \<open>time.RFC3339\<close>, over the proleptic Gregorian calendar. The round trip
  \<open>parse_formatRFC3339\<close> is what token renewal relies on when it stores the renewal time in
  the status as a string and reads it back at a later reconciliation.
\<close>

type_synonym gotime = int
type_synonym duration = int

abbreviation (input) Second :: duration where "Second \<equiv> 1000000000"
abbreviation (input) Minute :: duration where "Minute \<equiv> 60000000000"

section \<open>Instants and durations\<close>

definition zeroTime :: gotime where
  "zeroTime = - 62135596800 * Second"

text \<open>\<open>metav1.Time.IsZero\<close>: a nil pointer is zero.\<close>

definition IsZero :: "gotime option \<Rightarrow> bool" where
  "IsZero t = (case t of None \<Rightarrow> True | Some x \<Rightarrow> x = zeroTime)"

text \<open>\<open>Time.Sub\<close> saturates at the limits of a duration.\<close>

definition time_Sub :: "gotime \<Rightarrow> gotime \<Rightarrow> duration" where
  "time_Sub t u =
     (let d = t - u in if 2 ^ 63 \<le> d then 2 ^ 63 - 1 else if d < - (2 ^ 63) then - (2 ^ 63) else d)"

lemma is_int64_time_Sub [simp]: "is_int64 (time_Sub t u)"
  by (simp add: time_Sub_def is_int64_def Let_def)

lemma time_Sub_id [simp]: "is_int64 (t - u) \<Longrightarrow> time_Sub t u = t - u"
  by (simp add: time_Sub_def is_int64_def Let_def)

lemma time_Sub_mono: "t \<le> t' \<Longrightarrow> time_Sub t u \<le> time_Sub t' u"
  by (simp add: time_Sub_def Let_def)

lemma time_Sub_le_iff: "is_int64 d \<Longrightarrow> d < 2 ^ 63 - 1 \<Longrightarrow> time_Sub t u \<le> d \<longleftrightarrow> t - u \<le> d"
  by (auto simp: time_Sub_def is_int64_def Let_def)

lemma time_Sub_ge_iff: "- (2 ^ 63) < d \<Longrightarrow> d < 2 ^ 63 \<Longrightarrow> d \<le> time_Sub t u \<longleftrightarrow> d \<le> t - u"
  by (auto simp: time_Sub_def is_int64_def Let_def)

definition Seconds :: "duration \<Rightarrow> rat" where
  "Seconds d =
     fl64 (of_int (go_div d Second) + fl64 (of_int (go_mod d Second) / 10 ^ 9))"

lemma go_mod_second_bounds: "- Second < go_mod d Second \<and> go_mod d Second < Second"
proof -
  have b: "0 \<le> x mod Second \<and> x mod Second < Second" for x :: int by simp
  have "go_mod d Second = d mod Second \<or> go_mod d Second = - ((- d) mod Second)"
    by (simp add: go_mod_def)
  then show ?thesis using b [of d] b [of "- d"] by (elim disjE) linarith+
qed

lemma go_mod_second_sign: "0 \<le> d \<Longrightarrow> 0 \<le> go_mod d Second" "d \<le> 0 \<Longrightarrow> go_mod d Second \<le> 0"
  by (cases "d = 0"; simp add: go_mod_def)+

lemma go_div_int64: "is_int64 d \<Longrightarrow> \<bar>go_div d Second\<bar> \<le> 2 ^ 34"
  by (auto simp: go_div_def is_int64_def)

text \<open>A whole number of seconds converts exactly.\<close>

lemma Seconds_whole: "is_int64 (n * Second) \<Longrightarrow> Seconds (n * Second) = of_int n"
proof -
  assume d: "is_int64 (n * Second)"
  have "go_div (n * Second) Second = n" "go_mod (n * Second) Second = 0"
    by (simp_all add: go_div_def go_mod_def flip: mult_minus_left)
  moreover from d have "\<bar>n\<bar> \<le> 2 ^ 53" by (simp add: is_int64_def) linarith
  ultimately show ?thesis
    using f64.fl_int [of 0] f64.fl_int [of n] by (simp add: Seconds_def)
qed

lemma Seconds_mono_same_sign:
  assumes "0 \<le> a \<or> b \<le> 0" "a \<le> b"
  shows "Seconds a \<le> Seconds b"
proof -
  let ?q = "\<lambda>d. go_div d Second" and ?r = "\<lambda>d. go_mod d Second"
  have split: "?q d * Second + ?r d = d" for d by (rule go_div_mod)
  have rb: "- Second < ?r d" "?r d < Second" for d using go_mod_second_bounds by auto
  have "of_int (?q a) + fl64 (of_int (?r a) / 10 ^ 9)
      \<le> of_int (?q b) + fl64 (of_int (?r b) / 10 ^ 9)"
  proof (cases "?q a = ?q b")
    case True
    with split [of a] split [of b] assms(2) have "?r a \<le> ?r b" by linarith
    then have "fl64 (of_int (?r a) / 10 ^ 9) \<le> fl64 (of_int (?r b) / 10 ^ 9)"
      by (intro f64.fl_mono divide_right_mono) simp_all
    with True show ?thesis by simp
  next
    case False
    have sgn: "(0 \<le> ?r a \<and> 0 \<le> ?r b) \<or> (?r a \<le> 0 \<and> ?r b \<le> 0)"
      using assms go_mod_second_sign [of a] go_mod_second_sign [of b] by fastforce
    have "\<not> ?q b + 1 \<le> ?q a"
    proof
      assume "?q b + 1 \<le> ?q a"
      then have "?q b * Second + Second \<le> ?q a * Second" by linarith
      with sgn split [of a] split [of b] assms(2) rb [of a] rb [of b] show False by linarith
    qed
    with False have "?q a + 1 \<le> ?q b" by linarith
    then have "(of_int (?q a) :: rat) + 1 \<le> of_int (?q b)"
      by (metis of_int_1 of_int_add of_int_le_iff)
    moreover from sgn have "fl64 (of_int (?r a) / 10 ^ 9) \<le> 1 + fl64 (of_int (?r b) / 10 ^ 9)"
    proof
      assume "0 \<le> ?r a \<and> 0 \<le> ?r b"
      then show ?thesis
        using f64.fl_frac_bounds [of "?r a"] f64.fl_frac_bounds [of "?r b"] rb by simp
    next
      assume "?r a \<le> 0 \<and> ?r b \<le> 0"
      then show ?thesis
        using f64.fl_frac_neg_bounds [of "?r a"] f64.fl_frac_neg_bounds [of "?r b"] rb by simp
    qed
    ultimately show ?thesis by linarith
  qed
  then show ?thesis unfolding Seconds_def by (rule f64.fl_mono)
qed

lemma Seconds_mono: "a \<le> b \<Longrightarrow> Seconds a \<le> Seconds b"
proof (cases "0 \<le> a \<or> b \<le> 0")
  case False
  assume "a \<le> b"
  with False have "Seconds a \<le> Seconds 0" "Seconds 0 \<le> Seconds b"
    by (auto intro: Seconds_mono_same_sign)
  then show ?thesis by linarith
qed (rule Seconds_mono_same_sign)

section \<open>The calendar\<close>

definition isLeap :: "int \<Rightarrow> bool" where
  "isLeap y \<longleftrightarrow> y mod 4 = 0 \<and> (y mod 100 \<noteq> 0 \<or> y mod 400 = 0)"

definition month_lens :: "bool \<Rightarrow> int list" where
  "month_lens leap = [31, if leap then 29 else 28, 31, 30, 31, 30, 31, 31, 30, 31, 30, 31]"

definition daysIn :: "int \<Rightarrow> int \<Rightarrow> int" where
  "daysIn m y = month_lens (isLeap y) ! nat (m - 1)"

text \<open>Days from 1 January of year 1 to 1 January of year \<open>y\<close>.\<close>

definition days_before_year :: "int \<Rightarrow> int" where
  "days_before_year y = 365 * (y - 1) + (y - 1) div 4 - (y - 1) div 100 + (y - 1) div 400"

text \<open>Days from the Unix epoch; 719162 days lie between 1 January 1 and 1 January 1970.\<close>

definition unix_day :: "int \<Rightarrow> int \<Rightarrow> int \<Rightarrow> int" where
  "unix_day y m d =
     days_before_year y + sum_list (take (nat (m - 1)) (month_lens (isLeap y))) + (d - 1) - 719162"

definition year_yday :: "int \<Rightarrow> int \<times> int" where
  "year_yday n =
     (let a = n div 146097; r = n mod 146097;
          b = min 3 (r div 36524); r' = r - b * 36524;
          c = r' div 1461; r'' = r' mod 1461;
          d = min 3 (r'' div 365)
      in (1 + 400 * a + 100 * b + 4 * c + d, r'' - d * 365))"

fun month_day :: "int list \<Rightarrow> int \<Rightarrow> int \<Rightarrow> int \<times> int" where
  "month_day [] m n = (m, n + 1)"
| "month_day (l # ls) m n = (if n < l then (m, n + 1) else month_day ls (m + 1) (n - l))"

definition date_of_day :: "int \<Rightarrow> int \<times> int \<times> int" where
  "date_of_day n =
     (case year_yday (n + 719162) of (y, yd) \<Rightarrow>
      case month_day (month_lens (isLeap y)) 1 yd of (m, d) \<Rightarrow> (y, m, d))"

lemma cycle_bounds:
  assumes "b = min 3 (r div 36524)" "c = (r - b * 36524) div 1461"
    "s = (r - b * 36524) mod 1461" "d = min 3 (s div 365)" "0 \<le> r" "r < (146097 :: int)"
  shows "0 \<le> b \<and> b \<le> 3" "0 \<le> c \<and> c \<le> 24" "0 \<le> d \<and> d \<le> 3"
    "0 \<le> s - d * 365" "s - d * 365 < 365 \<or> (s - d * 365 = 365 \<and> d = 3 \<and> (c \<noteq> 24 \<or> b = 3))"
    "r = b * 36524 + c * 1461 + s"
proof -
  show b: "0 \<le> b \<and> b \<le> 3" using assms(1,5) by (simp add: pos_imp_zdiv_nonneg_iff)
  have r': "0 \<le> r - b * 36524" "r - b * 36524 \<le> 36524" "b \<noteq> 3 \<Longrightarrow> r - b * 36524 < 36524"
    using assms(1,5,6) by (simp_all add: min_def split: if_splits)
  show c: "0 \<le> c \<and> c \<le> 24" using r'(1,2) assms(2) by (auto simp: pos_imp_zdiv_nonneg_iff)
  have s: "0 \<le> s" "s < 1461" using assms(3) by auto
  show d: "0 \<le> d \<and> d \<le> 3" using s assms(4) by auto
  show r: "r = b * 36524 + c * 1461 + s" using assms(2,3) by simp
  show "0 \<le> s - d * 365" using s assms(4) by (simp add: min_def split: if_splits)
  have "s - d * 365 \<le> 365 \<and> (d \<noteq> 3 \<longrightarrow> s - d * 365 < 365)"
    using s assms(4) by (auto simp: min_def split: if_splits)
  then show "s - d * 365 < 365 \<or> (s - d * 365 = 365 \<and> d = 3 \<and> (c \<noteq> 24 \<or> b = 3))"
    using r r' c b by (cases "b = 3") auto
qed

lemma mod_eqI_int: "x = k * q + r \<Longrightarrow> x mod k = r mod (k :: int)"
  by simp

lemma mod_zero_bounded:
  "x mod k = r mod k \<Longrightarrow> 0 < r \<Longrightarrow> r \<le> (k :: int) \<Longrightarrow> (r = k \<longleftrightarrow> P) \<Longrightarrow> x mod k = 0 \<longleftrightarrow> P"
  by (cases "r = k") auto

lemma div_cycle:
  fixes a b c d :: int
  assumes "0 \<le> b" "b \<le> 3" "0 \<le> c" "c \<le> 24" "0 \<le> d" "d \<le> 3"
  defines "z \<equiv> 400 * a + 100 * b + 4 * c + d"
  shows "z div 4 = 100 * a + 25 * b + c" "z div 100 = 4 * a + b" "z div 400 = a"
    and "(z + 1) mod 4 = 0 \<longleftrightarrow> d = 3" "(z + 1) mod 100 = 0 \<longleftrightarrow> d = 3 \<and> c = 24"
    and "(z + 1) mod 400 = 0 \<longleftrightarrow> d = 3 \<and> c = 24 \<and> b = 3"
proof -
  show "z div 4 = 100 * a + 25 * b + c"
    by (rule int_div_pos_eq [of _ _ _ d]) (use assms in simp_all)
  show "z div 100 = 4 * a + b"
    by (rule int_div_pos_eq [of _ _ _ "4 * c + d"]) (use assms in simp_all)
  show "z div 400 = a"
    by (rule int_div_pos_eq [of _ _ _ "100 * b + 4 * c + d"]) (use assms in simp_all)
  have "(z + 1) mod 4 = (d + 1) mod 4" unfolding z_def
    by (rule mod_eqI_int [where q = "100 * a + 25 * b + c"]) simp
  then show "(z + 1) mod 4 = 0 \<longleftrightarrow> d = 3" using assms(5,6) by presburger
  have "(z + 1) mod 100 = (4 * c + d + 1) mod 100" unfolding z_def
    by (rule mod_eqI_int [where q = "4 * a + b"]) simp
  then show "(z + 1) mod 100 = 0 \<longleftrightarrow> d = 3 \<and> c = 24"
    using assms(3-6) by (intro mod_zero_bounded [where r = "4 * c + d + 1"]) (simp_all, linarith)
  have "(z + 1) mod 400 = (100 * b + 4 * c + d + 1) mod 400" unfolding z_def
    by (rule mod_eqI_int [where q = a]) simp
  then show "(z + 1) mod 400 = 0 \<longleftrightarrow> d = 3 \<and> c = 24 \<and> b = 3"
    using assms(1-6) by (intro mod_zero_bounded [where r = "100 * b + 4 * c + d + 1"]) (simp_all, linarith)
qed

lemma year_yday_correct:
  assumes "year_yday n = (y, yd)"
  shows "days_before_year y + yd = n" "0 \<le> yd" "yd < (if isLeap y then 366 else 365)"
proof -
  define a where "a = n div 146097"
  define r where "r = n mod 146097"
  define b where "b = min 3 (r div 36524)"
  define c where "c = (r - b * 36524) div 1461"
  define s where "s = (r - b * 36524) mod 1461"
  define d where "d = min 3 (s div 365)"
  have r: "0 \<le> r" "r < 146097" unfolding r_def by simp_all
  note cb = cycle_bounds [OF b_def c_def s_def d_def r]
  have y: "y = (400 * a + 100 * b + 4 * c + d) + 1" and yd: "yd = s - d * 365"
    using assms
    by (simp_all only: year_yday_def Let_def a_def r_def b_def c_def s_def d_def prod.inject)
      (simp_all only: algebra_simps)
  have n: "n = a * 146097 + r" unfolding a_def r_def by simp
  note dc = div_cycle [of b c d a]
  show "days_before_year y + yd = n"
    unfolding days_before_year_def y yd add_diff_cancel_right' n
    using cb(6) by (subst dc(1-3); use cb(1-3) in simp)+
  show "0 \<le> yd" using cb(4) yd by simp
  have "isLeap y \<longleftrightarrow> d = 3 \<and> (c \<noteq> 24 \<or> b = 3)"
    using dc(4-6) cb(1-3) unfolding isLeap_def y by auto
  then show "yd < (if isLeap y then 366 else 365)"
    using cb(5) yd by auto
qed

lemma month_day_correct:
  assumes "month_day ls m n = (m', d)" "0 \<le> n" "n < sum_list ls" "\<forall>l\<in>set ls. 0 < l"
  shows "m \<le> m' \<and> m' < m + int (length ls) \<and> 1 \<le> d \<and> d \<le> ls ! nat (m' - m) \<and>
    sum_list (take (nat (m' - m)) ls) + (d - 1) = n"
  using assms
proof (induction ls m n arbitrary: m' d rule: month_day.induct)
  case (2 l ls m n)
  show ?case
  proof (cases "n < l")
    case True
    with 2 show ?thesis by auto
  next
    case False
    with "2.prems" have *: "m + 1 \<le> m' \<and> m' < m + 1 + int (length ls) \<and> 1 \<le> d \<and>
        d \<le> ls ! nat (m' - (m + 1)) \<and> sum_list (take (nat (m' - (m + 1))) ls) + (d - 1) = n - l"
      by (intro "2.IH") auto
    then have "nat (m' - m) = Suc (nat (m' - (m + 1)))" by auto
    with * show ?thesis by auto
  qed
qed simp

lemma month_lens_facts [simp]:
  "length (month_lens b) = 12" "sum_list (month_lens b) = (if b then 366 else 365)"
  "l \<in> set (month_lens b) \<Longrightarrow> 0 < l \<and> l \<le> 31"
  by (auto simp: month_lens_def split: if_splits)

lemma date_of_day_correct:
  assumes "date_of_day n = (y, m, d)"
  shows "unix_day y m d = n" "1 \<le> m" "m \<le> 12" "1 \<le> d" "d \<le> daysIn m y"
proof -
  obtain yd where yy: "year_yday (n + 719162) = (y, yd)"
      and md: "month_day (month_lens (isLeap y)) 1 yd = (m, d)"
    using assms by (auto simp: date_of_day_def split: prod.splits)
  note yc = year_yday_correct [OF yy]
  have "1 \<le> m \<and> m < 1 + 12 \<and> 1 \<le> d \<and> d \<le> month_lens (isLeap y) ! nat (m - 1) \<and>
      sum_list (take (nat (m - 1)) (month_lens (isLeap y))) + (d - 1) = yd"
    using month_day_correct [OF md] yc(2,3) by simp
  then show "unix_day y m d = n" "1 \<le> m" "m \<le> 12" "1 \<le> d" "d \<le> daysIn m y"
    using yc(1) by (auto simp: unix_day_def daysIn_def)
qed

lemma div_step: "0 < k \<Longrightarrow> y div k = (y - 1) div k + (if y mod k = 0 then 1 else (0 :: int))"
proof -
  assume k: "0 < k"
  define q r where "q = (y - 1) div k" and "r = (y - 1) mod k"
  have y: "y = k * q + (r + 1)" unfolding q_def r_def by simp
  have r: "0 \<le> r" "r < k" unfolding r_def using k by simp_all
  show ?thesis
  proof (cases "r + 1 = k")
    case True
    then have "y = k * (q + 1)" using y by (simp add: algebra_simps)
    then have "y div k = q + 1" "y mod k = 0" using k by simp_all
    then show ?thesis by (simp only: q_def [symmetric]) simp
  next
    case False
    with r have "y div k = q" "y mod k = r + 1"
      by (auto intro!: int_div_pos_eq [OF y] int_mod_pos_eq [OF y])
    with r show ?thesis by (simp only: q_def [symmetric]) simp
  qed
qed

lemma leap_arith:
  fixes A B C y :: int
  assumes "r \<longrightarrow> q" "q \<longrightarrow> p"
  shows "365 * y + (A + (if p then 1 else 0)) - (B + (if q then 1 else 0)) + (C + (if r then 1 else 0))
    = 365 * (y - 1) + A - B + C + (if p \<and> (\<not> q \<or> r) then 366 else 365)"
  using assms by (cases p; cases q; cases r) (simp_all only: if_True if_False simp_thms, simp_all)

lemma days_before_year_Suc:
  "days_before_year (y + 1) = days_before_year y + (if isLeap y then 366 else 365)"
proof -
  have m: "y mod 100 = 0 \<Longrightarrow> y mod 4 = 0" "y mod 400 = 0 \<Longrightarrow> y mod 100 = 0"
    by (auto simp: mod_eq_0_iff_dvd elim: dvd_trans [rotated])
  have d: "days_before_year (y + 1) = 365 * y + y div 4 - y div 100 + y div 400"
    unfolding days_before_year_def add_diff_cancel_right' by (rule refl)
  show ?thesis
    unfolding d days_before_year_def [of y] isLeap_def div_step [of 4 y, simplified]
      div_step [of 100 y, simplified] div_step [of 400 y, simplified]
    by (rule leap_arith) (use m in auto)
qed

lemma days_before_year_mono: "y \<le> y' \<Longrightarrow> days_before_year y \<le> days_before_year y'"
proof (induction y' rule: int_ge_induct)
  case (step i)
  then show ?case by (simp add: days_before_year_Suc split: if_splits)
qed simp

lemma year_bounds:
  assumes "date_of_day n = (y, m, d)" "- 719528 \<le> n" "n \<le> 2932896"
  shows "0 \<le> y" "y \<le> 9999"
proof -
  obtain yd where yy: "year_yday (n + 719162) = (y, yd)"
    using assms(1) by (auto simp: date_of_day_def split: prod.splits)
  note yc = year_yday_correct [OF yy]
  have b: "- 366 \<le> days_before_year y + yd" "days_before_year y + yd \<le> 3652058"
    using yc(1) assms(2,3) by simp_all
  show "0 \<le> y"
  proof (rule ccontr)
    assume "\<not> 0 \<le> y"
    then have "days_before_year (y + 1) \<le> days_before_year 0"
      by (intro days_before_year_mono) simp
    then have "days_before_year y + (if isLeap y then 366 else 365) \<le> - 366"
      using days_before_year_Suc [of y] by (simp only: days_before_year_def [of 0]) simp
    with b(1) yc(3) show False by linarith
  qed
  show "y \<le> 9999"
  proof (rule ccontr)
    assume "\<not> y \<le> 9999"
    then have "days_before_year 10000 \<le> days_before_year y" by (intro days_before_year_mono) simp
    then have "3652059 \<le> days_before_year y" by (simp add: days_before_year_def)
    with b(2) yc(2) show False by linarith
  qed
qed

end
