(* ===== verification/Api.thy ===== *)
theory Api
  imports Go_Time
begin

text \<open>
  The API objects the controllers read and write, with the fields the repository's code
  uses. The types come from libsveltos and from Kubernetes; a field the code only passes on
  is opaque, and \<open>SpecOther\<close> stands for the rest of a SveltosCluster's spec, which the
  update predicate compares. A pointer field is an \<open>option\<close>, a slice or map whose nil-ness
  the code can observe is a \<open>slice\<close> or a \<open>gomap\<close>. Go's \<open>int\<close> counters are kept in the range of an
  \<open>int64\<close> by the operations (\<open>wrap64\<close>).
\<close>

section \<open>SveltosCluster\<close>

record active_window =
  From :: string
  To :: string

record token_option =
  RenewTokenRequestInterval :: duration
  TokenDuration :: duration
  SANamespace :: string
  SAName :: string
  OptKubeconfigKeyName :: "string option"

datatype operation =
  OperationEqual | OperationDifferent | OperationHas | OperationDoesNotHave | OperationOther string

record label_filter =
  FilterKey :: string
  FilterOperation :: operation
  FilterValue :: string

datatype label_selector = LabelSelector string
datatype cel_rule = CELRule string

record resource_selector =
  SelGroup :: string
  SelVersion :: string
  SelKind :: string
  LabelFilters :: "label_filter slice"
  Selector :: "label_selector option"
  SelNamespace :: string
  SelName :: string
  IncludeDeletingResources :: bool
  EvaluateCEL :: "cel_rule slice"
  Evaluate :: string

record cluster_check =
  CheckName :: string
  ResourceSelectors :: "resource_selector slice"
  Condition :: string

datatype connection_status = ConnectionHealthy | ConnectionDown | ConnectionOther string

record cluster_spec =
  Paused :: bool
  PullMode :: bool
  ActiveWindow :: "active_window option"
  TokenRequestRenewalOption :: "token_option option"
  ReadinessChecks :: "cluster_check slice"
  LivenessChecks :: "cluster_check slice"
  ConsecutiveFailureThreshold :: int
  KubeconfigKeyName :: string
  CleanupGracePeriod :: "duration option"
  SpecOther :: string

record cluster_status =
  Ready :: bool
  FailureMessage :: "string option"
  ConnectionStatus :: connection_status
  ConnectionFailures :: int
  Version :: string
  LastReconciledTokenRequestAt :: string
  NextPause :: "gotime option"
  NextUnpause :: "gotime option"
  ActiveWindowHash :: string
  AgentLastReportTime :: "gotime option"

record sveltos_cluster =
  Namespace :: string
  Name :: string
  UID :: string
  Labels :: "(string, string) gomap"
  Annotations :: "(string, string) gomap"
  Finalizers :: "string list"
  CreationTimestamp :: gotime
  DeletionTimestamp :: "gotime option"
  Spec :: cluster_spec
  Status :: cluster_status

section \<open>SveltosLicense\<close>

datatype license_state =
  LicenseStatusValid | LicenseStatusInvalid | LicenseStatusExpired | LicenseStatusOther string

record license_payload =
  PayloadMaxClusters :: int
  PayloadExpirationDate :: gotime

text \<open>What \<open>license.VerifyLicenseSecret\<close> returns.\<close>

record verification_result =
  Payload :: "license_payload option"
  PayloadData :: "string option"
  SignatureData :: string
  IsValid :: bool
  IsEnforced :: bool
  IsExpired :: bool
  ResultMessage :: string

record license_status =
  LicenseState :: license_state
  MaxClusters :: "int option"
  ExpirationDate :: "gotime option"
  LicenseMessage :: string

record sveltos_license =
  LicenseName :: string
  LicenseDeletionTimestamp :: "gotime option"
  LicenseStatus :: license_status

section \<open>Objects of the clusters\<close>

record rest_config =
  Host :: string
  CAData :: string
  ConfigOther :: string

record unstructured =
  ObjDeletionTimestamp :: "gotime option"
  ObjContent :: string

record secret =
  SecretNamespace :: string
  SecretName :: string
  SecretData :: "(string \<times> string) list"

record object_reference =
  RefAPIVersion :: string
  RefKind :: string
  RefNamespace :: string
  RefName :: string
  RefUID :: string

text \<open>A context of a kubeconfig file, as far as it is read.\<close>

record kube_context =
  CtxNamespace :: string
  CtxAuthInfo :: string

datatype feature_status = FeatureStatusProvisioned | FeatureStatusOther string

datatype group_resources = GroupResources string

record list_options =
  OptLabelSelector :: string
  OptFieldSelector :: string

text \<open>A Go value a Lua table converts to.\<close>

datatype govalue =
  GNil | GBool bool | GFloat rat | GNonFinite string | GString string
| GSlice "govalue list" | GMap "(string \<times> govalue) list"

datatype lua_arg = LuaObject unstructured | LuaTable "unstructured list"

end
