(* ===== verification/Go_Strings.thy ===== *)
theory Go_Strings
  imports Prelude
begin

text \<open>
  The parts of Go's \<open>strings\<close>, \<open>strconv\<close>, \<open>fmt\<close> and \<open>encoding/base64\<close> the program uses. A
  Go string and a byte slice are both a \<open>string\<close> here, a list of 8-bit characters.

  The locale \<open>base64_alphabet\<close> states what an alphabet owes the codec (decoding a digit's
  character gives the digit back, no digit is a line break); decoding what was encoded is
  proved once in it, and it is interpreted on the standard and the URL alphabet.
\<close>

section \<open>Numbers in decimal\<close>

definition dig :: "nat \<Rightarrow> char" where
  "dig n = char_of (48 + n)"

definition isDigit :: "char \<Rightarrow> bool" where
  "isDigit c \<longleftrightarrow> 48 \<le> (of_char c :: nat) \<and> (of_char c :: nat) \<le> 57"

definition digval :: "char \<Rightarrow> int" where
  "digval c = int (of_char c) - 48"

lemma of_char_char_of: "n < 256 \<Longrightarrow> of_char (char_of n) = (n :: nat)"
  by (simp add: of_char_of)

lemma isDigit_dig [simp]: "n < 10 \<Longrightarrow> isDigit (dig n)"
  by (simp add: isDigit_def dig_def of_char_char_of)

lemma digval_dig [simp]: "n < 10 \<Longrightarrow> digval (dig n) = int n"
proof -
  assume "n < 10"
  then have "of_char (dig n) = (48 + n :: nat)" by (simp add: dig_def of_char_char_of)
  then show ?thesis by (simp add: digval_def)
qed

fun dec :: "nat \<Rightarrow> string" where
  "dec n = (if n < 10 then [dig n] else dec (n div 10) @ [dig (n mod 10)])"

declare dec.simps [simp del]

text \<open>\<open>%d\<close>.\<close>

definition dec_int :: "int \<Rightarrow> string" where
  "dec_int n = (if n < 0 then ''-'' @ dec (nat (- n)) else dec (nat n))"

text \<open>Reading a decimal number back, the inverse used to show that \<open>%d\<close> loses nothing.\<close>

definition undec :: "string \<Rightarrow> int" where
  "undec s = foldl (\<lambda>n c. 10 * n + digval c) 0 s"

lemma undec_dec [simp]: "undec (dec n) = int n"
proof (induction n rule: dec.induct)
  case (1 n)
  show ?case
  proof (cases "n < 10")
    case True
    then show ?thesis by (simp add: dec.simps [of n] undec_def)
  next
    case False
    with 1 have "undec (dec (n div 10)) = int (n div 10)" by simp
    moreover have "int n = 10 * int (n div 10) + int (n mod 10)"
      by (metis mult_div_mod_eq of_nat_add of_nat_mult of_nat_numeral)
    ultimately show ?thesis
      using False by (simp add: dec.simps [of n] undec_def)
  qed
qed

lemma dec_digits: "c \<in> set (dec n) \<Longrightarrow> isDigit c"
proof (induction n rule: dec.induct)
  case (1 n)
  then show ?case by (cases "n < 10") (auto simp: dec.simps [of n])
qed

text \<open>\<open>appendInt\<close> of package \<open>time\<close>: decimal, zero-padded to a width.\<close>

definition appendInt :: "int \<Rightarrow> nat \<Rightarrow> string" where
  "appendInt n w =
     (let ds = dec (nat \<bar>n\<bar>)
      in (if n < 0 then ''-'' else []) @ replicate (w - length ds) CHR ''0'' @ ds)"

lemma dig_0: "CHR ''0'' = dig 0"
  by code_simp

lemma appendInt_2:
  assumes "0 \<le> n" "n < 100"
  shows "appendInt n 2 = [dig (nat n div 10), dig (nat n mod 10)]"
proof (cases "n < 10")
  case True
  with assms have "nat n < 10" by linarith
  with assms show ?thesis by (simp add: appendInt_def dec.simps [of "nat n"] dig_0)
next
  case False
  with assms have "nat n div 10 < 10" by simp
  with False assms show ?thesis
    by (simp add: appendInt_def dec.simps [of "nat n"] dec.simps [of "nat n div 10"])
qed

lemma dec_small:
  "n < 10 \<Longrightarrow> dec n = [dig n]"
  "10 \<le> n \<Longrightarrow> dec n = dec (n div 10) @ [dig (n mod 10)]"
  by (simp_all add: dec.simps [of n])

lemma appendInt_4:
  assumes "0 \<le> n" "n < 10000"
  shows "appendInt n 4 =
    [dig (nat n div 1000), dig (nat n div 100 mod 10), dig (nat n div 10 mod 10), dig (nat n mod 10)]"
proof -
  define m where "m = nat n"
  have "m < 10000" using assms by (simp add: m_def)
  moreover have "appendInt n 4 = replicate (4 - length (dec m)) (dig 0) @ dec m"
    using assms by (simp add: appendInt_def Let_def dig_0 m_def)
  moreover have "m < 10 \<Longrightarrow> dec m = [dig m]"
    "10 \<le> m \<Longrightarrow> m < 100 \<Longrightarrow> dec m = [dig (m div 10), dig (m mod 10)]"
    "100 \<le> m \<Longrightarrow> m < 1000 \<Longrightarrow> dec m = [dig (m div 100), dig (m div 10 mod 10), dig (m mod 10)]"
    "1000 \<le> m \<Longrightarrow> m < 10000 \<Longrightarrow>
      dec m = [dig (m div 1000), dig (m div 100 mod 10), dig (m div 10 mod 10), dig (m mod 10)]"
    by (simp_all add: dec_small flip: div_mult2_eq)
  moreover have "replicate 3 x = [x, x, x]" "replicate 2 x = [x, x]" for x :: char
    by (simp_all add: numeral_3_eq_3 numeral_2_eq_2)
  ultimately show ?thesis
    unfolding m_def [symmetric]
    by (cases "m < 10"; cases "m < 100"; cases "m < 1000") simp_all
qed

section \<open>strings\<close>

definition HasPrefix :: "string \<Rightarrow> string \<Rightarrow> bool" where
  "HasPrefix s p \<longleftrightarrow> take (length p) s = p"

definition TrimPrefix :: "string \<Rightarrow> string \<Rightarrow> string" where
  "TrimPrefix s p = (if HasPrefix s p then drop (length p) s else s)"

lemma HasPrefix_append [simp]: "HasPrefix (p @ s) p"
  by (simp add: HasPrefix_def)

lemma TrimPrefix_append [simp]: "TrimPrefix (p @ s) p = s"
  by (simp add: TrimPrefix_def)

lemma HasPrefixD: "HasPrefix s p \<Longrightarrow> s = p @ TrimPrefix s p"
  by (simp add: HasPrefix_def TrimPrefix_def) (metis append_take_drop_id)

text \<open>\<open>strings.Split\<close> with a one-character separator.\<close>

fun Split :: "char \<Rightarrow> string \<Rightarrow> string list" where
  "Split c [] = [[]]"
| "Split c (x # xs) =
     (if x = c then [] # Split c xs
      else case Split c xs of [] \<Rightarrow> [[x]] | y # ys \<Rightarrow> (x # y) # ys)"

lemma Split_not_Nil [simp]: "Split c s \<noteq> []"
  by (induction s) (auto split: list.splits)

lemma Split_no_sep: "c \<notin> set s \<Longrightarrow> Split c s = [s]"
  by (induction s) auto

lemma Split_append: "c \<notin> set s \<Longrightarrow> Split c (s @ c # t) = s # Split c t"
  by (induction s) auto

text \<open>\<open>strings.SplitN\<close> with a one-character separator and the limit 2.\<close>

definition SplitN2 :: "char \<Rightarrow> string \<Rightarrow> string list" where
  "SplitN2 c s =
     (if c \<in> set s then [takeWhile (\<lambda>x. x \<noteq> c) s, tl (dropWhile (\<lambda>x. x \<noteq> c) s)] else [s])"

lemma SplitN2_append: "c \<notin> set s \<Longrightarrow> SplitN2 c (s @ c # t) = [s, t]"
  by (induction s) (auto simp: SplitN2_def)

lemma SplitN2_two: "SplitN2 c s = [a, b] \<longleftrightarrow> s = a @ c # b \<and> c \<notin> set a"
proof
  assume a: "SplitN2 c s = [a, b]"
  then have c: "c \<in> set s" by (simp add: SplitN2_def split: if_splits)
  then obtain u v where uv: "s = u @ c # v" "c \<notin> set u" by (meson split_list_first)
  with a show "s = a @ c # b \<and> c \<notin> set a" by (simp add: SplitN2_append)
qed (auto simp: SplitN2_append)

text \<open>
  \<open>%q\<close> of a string of printable ASCII characters. The program quotes base64 text, its own constants
  and, in the message of the error for a schedule that does not parse, the schedule; that error is
  only logged, so how \<open>%q\<close> escapes other characters there has no effect.
\<close>

definition quote :: "string \<Rightarrow> string" where
  "quote s = ''\"'' @ concat (map (\<lambda>c. if c = CHR ''\"'' \<or> c = CHR 0x5C then [CHR 0x5C, c] else [c]) s) @ ''\"''"

lemma quote_plain: "CHR ''\"'' \<notin> set s \<Longrightarrow> CHR 0x5C \<notin> set s \<Longrightarrow> quote s = ''\"'' @ s @ ''\"''"
proof -
  assume "CHR ''\"'' \<notin> set s" "CHR 0x5C \<notin> set s"
  then have "concat (map (\<lambda>c. if c = CHR ''\"'' \<or> c = CHR 0x5C then [CHR 0x5C, c] else [c]) s) = s"
    by (induction s) auto
  then show ?thesis by (simp add: quote_def)
qed

section \<open>base64\<close>

definition std_alphabet :: string where
  "std_alphabet = ''ABCDEFGHIJKLMNOPQRSTUVWXYZabcdefghijklmnopqrstuvwxyz0123456789+/''"

definition url_alphabet :: string where
  "url_alphabet = ''ABCDEFGHIJKLMNOPQRSTUVWXYZabcdefghijklmnopqrstuvwxyz0123456789-_''"

text \<open>The digit a character stands for: its position in the alphabet.\<close>

fun index_of :: "char \<Rightarrow> string \<Rightarrow> nat option" where
  "index_of c [] = None"
| "index_of c (x # xs) = (if c = x then Some 0 else map_option Suc (index_of c xs))"

lemma index_of_nth: "distinct xs \<Longrightarrow> n < length xs \<Longrightarrow> index_of (xs ! n) xs = Some n"
proof (induction xs arbitrary: n)
  case (Cons x xs)
  then show ?case by (cases n) (auto simp: nth_mem)
qed simp

fun sextets :: "nat list \<Rightarrow> nat list" where
  "sextets (a # b # c # r) =
     a div 4 # ((a mod 4) * 16 + b div 16) # ((b mod 16) * 4 + c div 64) # c mod 64 # sextets r"
| "sextets [a, b] = [a div 4, (a mod 4) * 16 + b div 16, (b mod 16) * 4]"
| "sextets [a] = [a div 4, (a mod 4) * 16]"
| "sextets [] = []"

fun unsextets :: "nat list \<Rightarrow> nat list option" where
  "unsextets (w # x # y # z # r) =
     map_option (\<lambda>bs. (w * 4 + x div 16) # ((x mod 16) * 16 + y div 4) # ((y mod 4) * 64 + z) # bs)
       (unsextets r)"
| "unsextets [w, x, y] = Some [w * 4 + x div 16, (x mod 16) * 16 + y div 4]"
| "unsextets [w, x] = Some [w * 4 + x div 16]"
| "unsextets [w] = None"
| "unsextets [] = Some []"

text \<open>Encoding without padding, the padding of \<open>StdEncoding\<close>, and raw decoding (line breaks are skipped).\<close>

definition b64_encode :: "string \<Rightarrow> string \<Rightarrow> string" where
  "b64_encode alpha s = map (\<lambda>n. alpha ! n) (sextets (map of_char s))"

definition b64_decode :: "string \<Rightarrow> string \<Rightarrow> string option" where
  "b64_decode alpha s =
     (case those (map (\<lambda>c. index_of c alpha) (filter (\<lambda>c. c \<noteq> CHR 10 \<and> c \<noteq> CHR 13) s)) of
        None \<Rightarrow> None
      | Some ns \<Rightarrow> map_option (map char_of) (unsextets ns))"

definition StdEncoding_EncodeToString :: "string \<Rightarrow> string" where
  "StdEncoding_EncodeToString s =
     (let e = b64_encode std_alphabet s
      in e @ replicate ((4 - length e mod 4) mod 4) CHR ''='')"

definition RawURLEncoding_DecodeString :: "string \<Rightarrow> string option" where
  "RawURLEncoding_DecodeString s = b64_decode url_alphabet s"

lemma sextets_bound: "list_all (\<lambda>n. n < 256) ns \<Longrightarrow> list_all (\<lambda>n. n < 64) (sextets ns)"
proof (induction ns rule: sextets.induct)
  case (1 a b c r)
  then show ?case by (auto simp: less_mult_imp_div_less)
qed auto

lemma unsextets_sextets: "list_all (\<lambda>n. n < 256) ns \<Longrightarrow> unsextets (sextets ns) = Some ns"
proof (induction ns rule: sextets.induct)
  case (1 a b c r)
  then have "unsextets (sextets r) = Some r" "a < 256" "b < 256" "c < 256" by auto
  then show ?case by (auto; presburger)
qed (auto; presburger)+

lemma those_map_Some: "(\<And>x. x \<in> set xs \<Longrightarrow> f x = Some (g x)) \<Longrightarrow> those (map f xs) = Some (map g xs)"
  by (induction xs) auto

definition plain_char :: "char \<Rightarrow> bool" where
  "plain_char c \<longleftrightarrow> c \<notin> {CHR 10, CHR 13, CHR ''='', CHR ''\"'', CHR 0x5C, CHR ''.''}"

locale base64_alphabet =
  fixes alpha :: string
  assumes alpha_distinct: "distinct alpha"
    and alpha_length: "length alpha = 64"
    and alpha_plain: "list_all plain_char alpha"
begin

lemma encode_plain: "c \<in> set (b64_encode alpha s) \<Longrightarrow> plain_char c"
proof -
  have "list_all (\<lambda>n. n < 64) (sextets (map of_char s))"
    by (rule sextets_bound) (simp add: list_all_iff)
  then show "c \<in> set (b64_encode alpha s) \<Longrightarrow> ?thesis"
    using alpha_plain alpha_length by (auto simp: b64_encode_def list_all_iff)
qed

lemma decode_encode: "b64_decode alpha (b64_encode alpha s) = Some s"
proof -
  let ?ns = "sextets (map of_char s)"
  have b: "list_all (\<lambda>n. n < 64) ?ns"
    by (rule sextets_bound) (simp add: list_all_iff)
  have f: "filter (\<lambda>c. c \<noteq> CHR 10 \<and> c \<noteq> CHR 13) (b64_encode alpha s) = b64_encode alpha s"
    using encode_plain by (intro filter_True) (auto simp: plain_char_def)
  have "those (map (\<lambda>n. index_of (alpha ! n) alpha) ?ns) = Some (map id ?ns)"
    using b alpha_length index_of_nth [OF alpha_distinct]
    by (intro those_map_Some) (auto simp: list_all_iff)
  then have t: "those (map (\<lambda>c. index_of c alpha) (b64_encode alpha s)) = Some ?ns"
    by (simp add: b64_encode_def o_def)
  have "unsextets ?ns = Some (map of_char s)"
    by (rule unsextets_sextets) (simp add: list_all_iff)
  with f t show ?thesis by (simp add: b64_decode_def o_def)
qed

lemma encode_inj: "b64_encode alpha s = b64_encode alpha t \<Longrightarrow> s = t"
  by (metis decode_encode option.inject)

end

interpretation std64: base64_alphabet std_alphabet
  by unfold_locales (simp_all add: std_alphabet_def plain_char_def)

interpretation url64: base64_alphabet url_alphabet
  by unfold_locales (simp_all add: url_alphabet_def plain_char_def)

lemma EncodeToString_takeWhile:
  "takeWhile (\<lambda>c. c \<noteq> CHR ''='') (StdEncoding_EncodeToString s) = b64_encode std_alphabet s"
  using std64.encode_plain [of _ s] by (auto simp: StdEncoding_EncodeToString_def Let_def plain_char_def takeWhile_append)

lemma EncodeToString_inj: "StdEncoding_EncodeToString s = StdEncoding_EncodeToString t \<Longrightarrow> s = t"
  using EncodeToString_takeWhile [of s] EncodeToString_takeWhile [of t] std64.encode_inj by simp

lemma EncodeToString_plain:
  "CHR ''\"'' \<notin> set (StdEncoding_EncodeToString s)" "CHR 0x5C \<notin> set (StdEncoding_EncodeToString s)"
  using std64.encode_plain [of _ s] by (auto simp: StdEncoding_EncodeToString_def Let_def plain_char_def)

end
