(* ===== verification/Go_RFC3339.thy ===== *)
theory Go_RFC3339
  imports Go_Time Go_Strings
begin

text \<open>
  \<open>Time.Format(time.RFC3339)\<close> and \<open>time.Parse(time.RFC3339, _)\<close>. Formatting depends on the
  zone offset in force at the instant (seconds east of UTC), which \<open>time.Now()\<close> takes from
  the process's local zone. Parsing follows the general parser of package \<open>time\<close> at this
  layout, with its leniencies: an hour of one digit, a fraction of a second after a period
  or a comma (beyond the ninth digit it is ignored), zone offsets up to 24 hours and 60
  minutes.
\<close>

definition formatRFC3339 :: "int \<Rightarrow> gotime \<Rightarrow> string" where
  "formatRFC3339 off t =
     (let ls = t div Second + off; sod = ls mod 86400;
          zone = go_div off 60
      in case date_of_day (ls div 86400) of (y, m, d) \<Rightarrow>
         appendInt y 4 @ ''-'' @ appendInt m 2 @ ''-'' @ appendInt d 2 @ ''T'' @
         appendInt (sod div 3600) 2 @ '':'' @ appendInt (sod div 60 mod 60) 2 @ '':'' @
         appendInt (sod mod 60) 2 @
         (if off = 0 then ''Z''
          else (if zone < 0 then ''-'' else ''+'') @
            appendInt (\<bar>zone\<bar> div 60) 2 @ '':'' @ appendInt (\<bar>zone\<bar> mod 60) 2))"

text \<open>\<open>getnum\<close>: one or two digits, exactly two when \<open>fixed\<close>.\<close>

fun getnum :: "bool \<Rightarrow> string \<Rightarrow> (int \<times> string) option" where
  "getnum fixed (a # b # r) =
     (if isDigit a then
        if isDigit b then Some (10 * digval a + digval b, r)
        else if fixed then None else Some (digval a, b # r)
      else None)"
| "getnum fixed [a] = (if isDigit a \<and> \<not> fixed then Some (digval a, []) else None)"
| "getnum fixed [] = None"

fun get_year :: "string \<Rightarrow> (int \<times> string) option" where
  "get_year (a # b # c # d # r) =
     (if isDigit a \<and> isDigit b \<and> isDigit c \<and> isDigit d
      then Some (undec [a, b, c, d], r) else None)"
| "get_year _ = None"

fun skip_char :: "char \<Rightarrow> string \<Rightarrow> string option" where
  "skip_char c (x # r) = (if x = c then Some r else None)"
| "skip_char c [] = None"

definition in_range :: "int \<Rightarrow> int \<Rightarrow> (int \<times> string) option \<Rightarrow> (int \<times> string) option" where
  "in_range lo hi p = (case p of None \<Rightarrow> None | Some (n, r) \<Rightarrow> if lo \<le> n \<and> n \<le> hi then Some (n, r) else None)"

text \<open>The fraction of a second: nanoseconds and the rest.\<close>

definition get_frac :: "string \<Rightarrow> int \<times> string" where
  "get_frac s =
     (case s of
        p # d # _ \<Rightarrow>
          if (p = CHR ''.'' \<or> p = CHR '','') \<and> isDigit d then
            let ds = takeWhile isDigit (tl s); ns = take 9 ds
            in (undec ns * 10 ^ (9 - length ns), dropWhile isDigit (tl s))
          else (0, s)
      | _ \<Rightarrow> (0, s))"

text \<open>The zone: \<open>Z\<close> or a signed \<open>hh:mm\<close>, in seconds east of UTC.\<close>

fun get_zone :: "string \<Rightarrow> (int \<times> string) option" where
  "get_zone (sg # h1 # h2 # co # m1 # m2 # r) =
     (if sg = CHR ''Z'' then Some (0, h1 # h2 # co # m1 # m2 # r)
      else if co \<noteq> CHR '':'' then None
      else case (in_range 0 24 (getnum True [h1, h2]), in_range 0 60 (getnum True [m1, m2])) of
          (Some (h, _), Some (m, _)) \<Rightarrow>
            if sg = CHR ''+'' then Some ((h * 60 + m) * 60, r)
            else if sg = CHR ''-'' then Some (- ((h * 60 + m) * 60), r)
            else None
        | _ \<Rightarrow> None)"
| "get_zone (z # r) = (if z = CHR ''Z'' then Some (0, r) else None)"
| "get_zone [] = None"

definition parseRFC3339 :: "string \<Rightarrow> gotime option" where
  "parseRFC3339 s = do {
     (y, s) \<leftarrow> get_year s;
     s \<leftarrow> skip_char CHR ''-'' s;
     (mo, s) \<leftarrow> in_range 1 12 (getnum True s);
     s \<leftarrow> skip_char CHR ''-'' s;
     (d, s) \<leftarrow> getnum True s;
     s \<leftarrow> skip_char CHR ''T'' s;
     (h, s) \<leftarrow> in_range 0 23 (getnum False s);
     s \<leftarrow> skip_char CHR '':'' s;
     (mi, s) \<leftarrow> in_range 0 59 (getnum True s);
     s \<leftarrow> skip_char CHR '':'' s;
     (sec, s) \<leftarrow> in_range 0 59 (getnum True s);
     let (ns, s) = get_frac s;
     (off, s) \<leftarrow> get_zone s;
     if s = [] \<and> 1 \<le> d \<and> d \<le> daysIn mo y
     then Some ((unix_day y mo d * 86400 + h * 3600 + mi * 60 + sec - off) * Second + ns)
     else None
   }"

section \<open>Reading back what was written\<close>

lemma nat_digits: "0 \<le> n \<Longrightarrow> 10 * int (nat n div 10) + int (nat n mod 10) = n"
proof -
  assume "0 \<le> n"
  moreover have "int (10 * (nat n div 10) + nat n mod 10) = int (nat n)"
    by (simp only: mult_div_mod_eq)
  ultimately show ?thesis by (simp only: of_nat_add of_nat_mult of_nat_numeral nat_0_le)
qed

lemma nat_digits4:
  "10 * (10 * (10 * (n div 1000) + n div 100 mod 10) + n div 10 mod 10) + n mod 10 = (n :: nat)"
proof -
  have "n div 1000 = n div 100 div 10" "n div 100 = n div 10 div 10"
    by (simp_all add: div_mult2_eq [symmetric])
  then show ?thesis by (simp only: mult_div_mod_eq)
qed

lemma hms_sum: "s div 3600 * 3600 + s div 60 mod 60 * 60 + s mod 60 = (s :: int)"
proof -
  have e: "s div 3600 = s div 60 div 60" by (simp add: zdiv_zmult2_eq [symmetric])
  have r: "q * 3600 + r * 60 = (60 * q + r) * 60" for q r :: int by simp
  have "s div 3600 * 3600 + s div 60 mod 60 * 60 = (60 * (s div 60 div 60) + s div 60 mod 60) * 60"
    unfolding e by (rule r)
  also have "\<dots> = 60 * (s div 60)" by (simp only: mult_div_mod_eq mult.commute)
  finally show ?thesis by (simp only: mult_div_mod_eq)
qed

lemma getnum_appendInt: "0 \<le> n \<Longrightarrow> n < 100 \<Longrightarrow> getnum b (appendInt n 2 @ r) = Some (n, r)"
proof -
  assume n: "0 \<le> n" "n < 100"
  then have "nat n div 10 < 10" by (simp add: nat_less_iff less_mult_imp_div_less)
  with n show ?thesis by (simp add: appendInt_2 nat_digits)
qed

lemma get_year_appendInt: "0 \<le> y \<Longrightarrow> y < 10000 \<Longrightarrow> get_year (appendInt y 4 @ r) = Some (y, r)"
proof -
  assume y: "0 \<le> y" "y < 10000"
  define n where "n = nat y"
  have n: "n < 10000" "y = int n" using y by (simp_all add: n_def)
  have lt: "n div 1000 < 10" using n by (simp add: less_mult_imp_div_less)
  have "int (10 * (10 * (10 * (n div 1000) + n div 100 mod 10) + n div 10 mod 10) + n mod 10) = y"
    using n by (simp only: nat_digits4)
  then have "undec [dig (n div 1000), dig (n div 100 mod 10), dig (n div 10 mod 10), dig (n mod 10)] = y"
    using lt by (simp add: undec_def)
  with y lt show ?thesis by (simp add: appendInt_4 n_def)
qed

lemma in_range_Some: "lo \<le> n \<Longrightarrow> n \<le> hi \<Longrightarrow> in_range lo hi (Some (n, r)) = Some (n, r)"
  by (simp add: in_range_def)

lemma get_frac_zone: "z = CHR ''Z'' \<or> z = CHR ''+'' \<or> z = CHR ''-'' \<Longrightarrow> get_frac (z # r) = (0, z # r)"
  by (auto simp: get_frac_def split: list.splits)

lemma get_zone_hhmm:
  assumes "0 \<le> h" "h \<le> 24" "0 \<le> m" "m \<le> 60" "sg = CHR ''+'' \<or> sg = CHR ''-''"
  shows "get_zone (sg # appendInt h 2 @ CHR '':'' # appendInt m 2) =
    Some (if sg = CHR ''+'' then (h * 60 + m) * 60 else - ((h * 60 + m) * 60), [])"
proof -
  have "appendInt h 2 = [dig (nat h div 10), dig (nat h mod 10)]"
    "appendInt m 2 = [dig (nat m div 10), dig (nat m mod 10)]"
    using assms by (simp_all add: appendInt_2)
  moreover have "getnum True [dig (nat h div 10), dig (nat h mod 10)] = Some (h, [])"
    "getnum True [dig (nat m div 10), dig (nat m mod 10)] = Some (m, [])"
    using getnum_appendInt [of h True "[]"] getnum_appendInt [of m True "[]"] assms
    by (simp_all add: appendInt_2)
  ultimately show ?thesis using assms by (auto simp: in_range_Some)
qed

text \<open>The zone suffix \<open>formatRFC3339\<close> writes is read back as the offset.\<close>

lemma get_zone_suffix:
  assumes "off mod 60 = 0" "\<bar>off\<bar> \<le> 86400"
  defines "z \<equiv> (if off = 0 then ''Z''
          else (if go_div off 60 < 0 then ''-'' else ''+'') @
            appendInt (\<bar>go_div off 60\<bar> div 60) 2 @ '':'' @ appendInt (\<bar>go_div off 60\<bar> mod 60) 2)"
  shows "get_zone z = Some (off, [])" "get_frac z = (0, z)"
proof -
  obtain k where k: "off = 60 * k" using assms(1) by (auto simp: mod_eq_0_iff_dvd)
  have zone: "go_div off 60 = k" using k by (simp add: go_div_def flip: mult_minus_right)
  have kb: "\<bar>k\<bar> \<le> 1440" using assms(2) k by simp
  have hm: "0 \<le> \<bar>k\<bar> div 60" "\<bar>k\<bar> div 60 \<le> 24" "0 \<le> \<bar>k\<bar> mod 60" "\<bar>k\<bar> mod 60 \<le> 60"
    using kb pos_mod_bound [of 60 "\<bar>k\<bar>"] by (simp_all add: pos_imp_zdiv_nonneg_iff)
  have abs: "\<bar>k\<bar> div 60 * 60 + \<bar>k\<bar> mod 60 = \<bar>k\<bar>" by simp
  show "get_zone z = Some (off, [])"
  proof (cases "k = 0")
    case False
    then have "z = (if k < 0 then CHR ''-'' else CHR ''+'') # appendInt (\<bar>k\<bar> div 60) 2 @
        CHR '':'' # appendInt (\<bar>k\<bar> mod 60) 2"
      using k zone by (simp add: z_def)
    then show ?thesis using get_zone_hhmm [OF hm] abs k False by auto
  qed (simp add: z_def k)
  show "get_frac z = (0, z)"
    by (simp add: z_def get_frac_zone)
qed

lemma parse_fields:
  assumes "0 \<le> y" "y \<le> 9999" "1 \<le> m" "m \<le> 12" "1 \<le> d" "d \<le> daysIn m y" "d < 100"
    "0 \<le> h" "h \<le> 23" "0 \<le> mi" "mi \<le> 59" "0 \<le> sc" "sc \<le> 59"
    "get_zone z = Some (off, [])" "get_frac z = (0, z)"
  shows "parseRFC3339 (appendInt y 4 @ CHR ''-'' # appendInt m 2 @ CHR ''-'' # appendInt d 2 @
      CHR ''T'' # appendInt h 2 @ CHR '':'' # appendInt mi 2 @ CHR '':'' # appendInt sc 2 @ z) =
    Some ((unix_day y m d * 86400 + h * 3600 + mi * 60 + sc - off) * Second)"
  using assms by (simp add: parseRFC3339_def get_year_appendInt getnum_appendInt in_range_Some)

text \<open>
  \<^bold>\<open>Round trip.\<close> For a year from 0 to 9999 and a zone of whole minutes within a day, parsing a
  formatted instant gives the instant truncated to the second.
\<close>

lemma parse_formatRFC3339:
  assumes "off mod 60 = 0" "\<bar>off\<bar> \<le> 86400"
    and "- 62167219200 \<le> t div Second + off" "t div Second + off < 253402300800"
  shows "parseRFC3339 (formatRFC3339 off t) = Some (t div Second * Second)"
proof -
  define ls where "ls = t div Second + off"
  define sod where "sod = ls mod 86400"
  obtain y m d where ymd: "date_of_day (ls div 86400) = (y, m, d)" by (metis prod_cases3)
  have day: "- 719528 \<le> ls div 86400" "ls div 86400 \<le> 2932896"
    using assms(3,4) unfolding ls_def [symmetric] by simp_all
  note dc = date_of_day_correct [OF ymd] and yb = year_bounds [OF ymd day]
  have "daysIn m y \<le> 31"
    using dc(2,3) by (auto simp: daysIn_def month_lens_def nth_Cons split: nat.splits)
  with dc have d: "0 \<le> d" "d < 100" by linarith+
  have sod: "0 \<le> sod" "sod < 86400" by (simp_all add: sod_def)
  then have hms: "0 \<le> sod div 3600" "sod div 3600 \<le> 23" "0 \<le> sod div 60 mod 60" "sod div 60 mod 60 \<le> 59"
      "0 \<le> sod mod 60" "sod mod 60 \<le> 59"
    using pos_mod_bound [of 60 "sod div 60"] pos_mod_bound [of 60 sod]
    by (simp_all add: pos_imp_zdiv_nonneg_iff)
  have total: "unix_day y m d * 86400 + sod = ls" using dc(1) by (simp add: sod_def)
  let ?z = "if off = 0 then ''Z''
          else (if go_div off 60 < 0 then ''-'' else ''+'') @
            appendInt (\<bar>go_div off 60\<bar> div 60) 2 @ '':'' @ appendInt (\<bar>go_div off 60\<bar> mod 60) 2"
  note z = get_zone_suffix [OF assms(1,2)]
  have "formatRFC3339 off t = appendInt y 4 @ CHR ''-'' # appendInt m 2 @ CHR ''-'' # appendInt d 2 @
      CHR ''T'' # appendInt (sod div 3600) 2 @ CHR '':'' # appendInt (sod div 60 mod 60) 2 @
      CHR '':'' # appendInt (sod mod 60) 2 @ ?z"
    using ymd by (simp add: formatRFC3339_def Let_def ls_def [symmetric] sod_def [symmetric])
  then have "parseRFC3339 (formatRFC3339 off t) =
      Some ((unix_day y m d * 86400 + sod div 3600 * 3600 + sod div 60 mod 60 * 60 + sod mod 60 - off) * Second)"
    using parse_fields [OF yb dc(2-5) d(2) hms z] by (simp only:)
  also have "unix_day y m d * 86400 + sod div 3600 * 3600 + sod div 60 mod 60 * 60 + sod mod 60 - off
      = t div Second"
    using hms_sum [of sod] total ls_def by linarith
  finally show ?thesis .
qed

end
