(* ===== verification/World.thy ===== *)
theory World
  imports Api Go_RFC3339
begin

text \<open>
  The interface between the repository and the code it calls. \<open>call\<close> has one constructor per
  function outside the repository that acts or observes: the Kubernetes clients, libsveltos,
  the Lua interpreter, the Prometheus gauges, the event recorder, the clock. \<open>env\<close> is the
  model's parameter: one field per such function, giving its answer after the calls made so
  far, and one field per pure function or constant of a library (cron, semver, yaml, the
  finalizer helpers, names of annotations). Nothing is assumed about an \<open>env\<close>; a theorem
  that relies on documented behaviour of a library names it as a hypothesis.

  Logging has no effect on what the program computes and is left out.
\<close>

datatype gauge =
  clusterConnectivityGauge | kubernetesVersionGauge | connectionFailuresGauge
| agentLastHeartbeatTimestampGauge

type_synonym labels = "(string \<times> string) list"

datatype call =
  Call_Now
| Call_GetSveltosCluster string string
| Call_GetSveltosLicense string string
| Call_GetConfigMap string string
| Call_NewHelper string string
| Call_Patch sveltos_cluster
| Call_StatusUpdate sveltos_license
| Call_GetCluster string string
| Call_GetRestConfig string string
| Call_GetKubernetesVersion rest_config
| Call_GetSecretData string string
| Call_UpdateSecretData string string string string
| Call_EvictWorkloadIdentityCache string string
| Call_NewForConfig rest_config
| Call_CreateToken rest_config string string int
| Call_SelfSubjectReview rest_config
| Call_Stage string string "(string \<times> unstructured list) list" bool
| Call_Commit string string object_reference
| Call_GetDeploymentStatus string string
| Call_TerminateDeploymentTracking string string
| Call_GetPublicKey
| Call_VerifyLicenseSecret string string
| Call_Event string string string string
| Call_GaugeSet gauge labels rat
| Call_GaugeDelete gauge labels
| Call_GaugeDeletePartialMatch gauge labels
| Call_NewDiscoveryClient rest_config
| Call_GetAPIGroupResources rest_config
| Call_NewDynamicClient rest_config
| Call_List rest_config string string string list_options
| Call_EvaluateRules unstructured "cel_rule slice"
| Call_DoString string
| Call_CallEvaluate string lua_arg

text \<open>
  The location of a \<open>time.Time\<close>, in which a cron schedule reads its calendar fields: a time
  decoded from an API object is in the local zone until the code converts it with \<open>UTC\<close>.
\<close>

datatype zone = UTC | LocalZone

type_synonym zoned = "zone \<times> gotime"

type_synonym 'a answer = "call list \<Rightarrow> 'a"

record env =
  \<comment> \<open>the clock and the local time zone\<close>
  clock :: "gotime answer"
  local_offset :: "gotime \<Rightarrow> int"
  \<comment> \<open>controller-runtime client, patch helper\<close>
  client_GetSveltosCluster :: "(string \<Rightarrow> string \<Rightarrow> goerr + sveltos_cluster) answer"
  client_GetSveltosLicense :: "(string \<Rightarrow> string \<Rightarrow> goerr + sveltos_license) answer"
  client_GetConfigMap :: "(string \<Rightarrow> string \<Rightarrow> goerr + (string, string) gomap) answer"
  patch_NewHelper :: "(sveltos_cluster \<Rightarrow> goerr option) answer"
  helper_Patch :: "(sveltos_cluster \<Rightarrow> goerr option) answer"
  client_StatusUpdate :: "(sveltos_license \<Rightarrow> goerr option) answer"
  ContainsFinalizer :: "string list \<Rightarrow> string \<Rightarrow> bool"
  AddFinalizer :: "string list \<Rightarrow> string \<Rightarrow> string list"
  RemoveFinalizer :: "string list \<Rightarrow> string \<Rightarrow> string list"
  \<comment> \<open>libsveltos: clusterproxy, sharding, k8s_utils\<close>
  GetCluster :: "(string \<Rightarrow> string \<Rightarrow> goerr + sveltos_cluster) answer"
  IsShardAMatch :: "string \<Rightarrow> sveltos_cluster \<Rightarrow> bool"
  GetSveltosKubernetesRestConfig :: "(string \<Rightarrow> string \<Rightarrow> goerr + rest_config) answer"
  GetKubernetesVersion :: "(rest_config \<Rightarrow> goerr + string) answer"
  GetSveltosSecretData :: "(string \<Rightarrow> string \<Rightarrow> goerr + string) answer"
  UpdateSveltosSecretData :: "(string \<Rightarrow> string \<Rightarrow> string \<Rightarrow> string \<Rightarrow> goerr option) answer"
  \<comment> \<open>client-go\<close>
  NewForConfig :: "(rest_config \<Rightarrow> goerr option) answer"
  CreateToken :: "(rest_config \<Rightarrow> string \<Rightarrow> string \<Rightarrow> int \<Rightarrow> goerr + string) answer"
  SelfSubjectReview :: "(rest_config \<Rightarrow> goerr + string) answer"
  NewDiscoveryClient :: "(rest_config \<Rightarrow> goerr option) answer"
  GetAPIGroupResources :: "(rest_config \<Rightarrow> goerr + group_resources) answer"
  RESTMapping :: "group_resources \<Rightarrow> string \<Rightarrow> string \<Rightarrow> string \<Rightarrow> goerr + string"
  NewDynamicClient :: "(rest_config \<Rightarrow> goerr option) answer"
  dynamic_List :: "(rest_config \<Rightarrow> string \<Rightarrow> string \<Rightarrow> string \<Rightarrow> list_options \<Rightarrow> goerr + unstructured list) answer"
  LabelSelectorAsSelector :: "label_selector \<Rightarrow> goerr + string"
  \<comment> \<open>libsveltos: pullmode, licenses, cel, lua, eventreasons\<close>
  StageResourcesForDeployment :: "(string \<Rightarrow> string \<Rightarrow> (string \<times> unstructured list) list \<Rightarrow> bool \<Rightarrow> goerr option) answer"
  CommitStagedResourcesForDeployment :: "(string \<Rightarrow> string \<Rightarrow> object_reference \<Rightarrow> goerr option) answer"
  GetDeploymentStatus :: "(string \<Rightarrow> string \<Rightarrow> goerr + feature_status option option) answer"
  TerminateDeploymentTracking :: "(string \<Rightarrow> string \<Rightarrow> goerr option) answer"
  AgentHeartbeatTimeoutError :: string
  IsAgentTimeoutError :: "sveltos_cluster \<Rightarrow> bool"
  GetPublicKey :: "(goerr + string) answer"
  VerifyLicenseSecret :: "(string \<Rightarrow> string \<Rightarrow> verification_result) answer"
  EvaluateRules :: "(unstructured \<Rightarrow> cel_rule slice \<Rightarrow> goerr + bool) answer"
  lua_DoString :: "(string \<Rightarrow> goerr option) answer"
  lua_CallEvaluate :: "(string \<Rightarrow> lua_arg \<Rightarrow> goerr + govalue option) answer"
  LuaTableError :: string
  TruncateNote :: "string \<Rightarrow> string"
  ClusterUnreachable :: string
  AgentUnhealthy :: string
  ClusterRecovered :: string
  ActionConnecting :: string
  SveltosClusterKind :: string
  GroupVersion :: string
  ClusterTypeSveltos :: string
  SveltosClusterFinalizer :: string
  LicensePayloadAnnotation :: string
  LicenseSignatureAnnotation :: string
  \<comment> \<open>cron, semver, yaml, apimachinery's converter\<close>
  cron_ParseStandard :: "string \<Rightarrow> goerr + (zone \<Rightarrow> gotime \<Rightarrow> gotime)"
  semver_NewVersion :: "string \<Rightarrow> goerr + int \<times> int \<times> int"
  yaml_Contexts :: "string \<Rightarrow> goerr + kube_context list"
  ToUnstructured :: "secret \<Rightarrow> goerr + unstructured"
  \<comment> \<open>conversion of a float outside the range of an int64, which Go leaves to the platform\<close>
  int64_of_big :: "rat \<Rightarrow> int"

type_synonym ('o, 'a) act = "('o, call, 'a) action"

section \<open>The reconciler\<close>

record reconciler =
  RConfig :: rest_config
  ShardKey :: string
  SveltosNamespace :: string
  HasEventRecorder :: bool

section \<open>Calls shared by several components\<close>

definition time_Now :: "env \<Rightarrow> ('o, gotime) act" where
  [go_defs]: "time_Now E = external (clock E) Call_Now"

text \<open>\<open>time.Until\<close> and \<open>time.Since\<close> read the clock.\<close>

definition time_Until :: "env \<Rightarrow> gotime \<Rightarrow> ('o, duration) act" where
  [go_defs]: "time_Until E t = do { n \<leftarrow> time_Now E; ret (time_Sub t n) }"

definition time_Since :: "env \<Rightarrow> gotime \<Rightarrow> ('o, duration) act" where
  [go_defs]: "time_Since E t = do { n \<leftarrow> time_Now E; ret (time_Sub n t) }"

text \<open>\<open>time.Now().Format(time.RFC3339)\<close>.\<close>

definition now_RFC3339 :: "env \<Rightarrow> ('o, string) act" where
  [go_defs]: "now_RFC3339 E = do { n \<leftarrow> time_Now E; ret (formatRFC3339 (local_offset E n) n) }"

definition int64_of_float :: "env \<Rightarrow> rat \<Rightarrow> int" where
  "int64_of_float E x = (if is_int64 (trunc x) then trunc x else int64_of_big E x)"

lemma int64_of_float_int [simp]: "is_int64 n \<Longrightarrow> int64_of_float E (of_int n) = n"
  by (simp add: int64_of_float_def)

text \<open>
  A call is benign when it only observes: it neither writes to a cluster, nor records an
  event, nor touches a gauge.
\<close>

definition gauge_call :: "call \<Rightarrow> bool" where
  "gauge_call c = (case c of Call_GaugeSet _ _ _ \<Rightarrow> True | Call_GaugeDelete _ _ \<Rightarrow> True
     | Call_GaugeDeletePartialMatch _ _ \<Rightarrow> True | _ \<Rightarrow> False)"

definition event_call :: "call \<Rightarrow> bool" where
  "event_call c = (case c of Call_Event _ _ _ _ \<Rightarrow> True | _ \<Rightarrow> False)"

definition patch_call :: "call \<Rightarrow> bool" where
  "patch_call c = (case c of Call_Patch _ \<Rightarrow> True | _ \<Rightarrow> False)"

lemmas call_kinds = gauge_call_def event_call_def patch_call_def

lemma keeps_time_Now [keeps_rules]: "keeps (\<lambda>s. view (obj s)) (time_Now E)"
  unfolding time_Now_def by (rule keeps_rules)

lemma keeps_time_Until [keeps_rules]: "keeps (\<lambda>s. view (obj s)) (time_Until E t)"
  unfolding time_Until_def by (intro keeps_rules)

lemma keeps_time_Since [keeps_rules]: "keeps (\<lambda>s. view (obj s)) (time_Since E t)"
  unfolding time_Since_def by (intro keeps_rules)

lemma keeps_now_RFC3339 [keeps_rules]: "keeps (\<lambda>s. view (obj s)) (now_RFC3339 E)"
  unfolding now_RFC3339_def by (intro keeps_rules)

end
