(* ===== verification/Scope.thy ===== *)
theory Scope
  imports World
begin

text \<open>
  \<open>pkg/scope/sveltoscluster_scope.go\<close>: the scope of one reconciliation. The scope's
  SveltosCluster is the object the actions of the controller mutate (\<open>obj\<close>); closing the
  scope hands that object to the patch helper, which persists it.
\<close>

abbreviation mod_spec :: "(cluster_spec \<Rightarrow> cluster_spec) \<Rightarrow> (sveltos_cluster, unit) act" where
  "mod_spec f \<equiv> modify (\<lambda>c. c\<lparr>Spec := f (Spec c)\<rparr>)"

abbreviation mod_status :: "(cluster_status \<Rightarrow> cluster_status) \<Rightarrow> (sveltos_cluster, unit) act" where
  "mod_status f \<equiv> modify (\<lambda>c. c\<lparr>Status := f (Status c)\<rparr>)"

record cluster_scope =
  SveltosCluster :: sveltos_cluster
  controllerName :: string

definition errors_Wrap :: "goerr \<Rightarrow> string \<Rightarrow> goerr" where
  "errors_Wrap e m = e\<lparr>Error := m @ '': '' @ Error e\<rparr>"

definition NewSveltosClusterScope ::
    "env \<Rightarrow> bool \<Rightarrow> sveltos_cluster option \<Rightarrow> string \<Rightarrow> ('o, goerr + cluster_scope) act" where
  [go_defs]: "NewSveltosClusterScope E hasClient cluster name =
     (if \<not> hasClient then
        ret (Inl (errorf ''client is required when creating a SveltosClusterScope''))
      else case cluster of
        None \<Rightarrow> ret (Inl (errorf ''failed to generate new scope from nil SveltosCluster''))
      | Some c \<Rightarrow> do {
          err \<leftarrow> external (\<lambda>h. patch_NewHelper E h c) (Call_NewHelper (Namespace c) (Name c));
          case err of
            Some e \<Rightarrow> ret (Inl (errors_Wrap e ''failed to init patch helper''))
          | None \<Rightarrow> ret (Inr \<lparr>SveltosCluster = c, controllerName = name\<rparr>)
        })"

definition PatchObject :: "env \<Rightarrow> (sveltos_cluster, goerr option) act" where
  [go_defs]: "PatchObject E = do {
     c \<leftarrow> gets (\<lambda>c. c);
     external (\<lambda>h. helper_Patch E h c) (Call_Patch c)
   }"

definition Close :: "env \<Rightarrow> (sveltos_cluster, goerr option) act" where
  [go_defs]: "Close E = PatchObject E"

definition scope_Name :: "cluster_scope \<Rightarrow> string" where
  "scope_Name s = Name (SveltosCluster s)"

definition ControllerName :: "cluster_scope \<Rightarrow> string" where
  "ControllerName s = controllerName s"

definition SetLabel :: "string \<Rightarrow> string \<Rightarrow> (sveltos_cluster, unit) act" where
  [go_defs]: "SetLabel key v = modify (\<lambda>c.
     let labels = (case Labels c of None \<Rightarrow> Map.empty | Some m \<Rightarrow> m)
     in c\<lparr>Labels := Some (labels(key \<mapsto> v))\<rparr>)"

text \<open>Closing persists the object as it is at that moment, and leaves it unchanged.\<close>

lemma run_Close:
  "run_state (Close E) s =
     (helper_Patch E (calls s) (obj s), s\<lparr>calls := calls s @ [Call_Patch (obj s)]\<rparr>)"
  by (simp add: go_defs)

lemma keeps_SetLabel [keeps_rules]:
  "(\<And>c m. view (c\<lparr>Labels := m\<rparr>) = view c) \<Longrightarrow> keeps (\<lambda>s. view (obj s)) (SetLabel k v)"
  unfolding SetLabel_def Let_def by (intro keeps_rules) simp

lemma only_calls_SetLabel [calls_rules]: "only_calls P (SetLabel k v)"
  unfolding SetLabel_def by (rule calls_rules)

lemma lookup_SetLabel:
  "lookup (Labels (obj (final (SetLabel k v) s))) k' =
     (if k' = k then Some v else lookup (Labels (obj s)) k')"
  by (auto simp: go_defs Let_def split: option.splits)

text \<open>A scope exists exactly when a client and a cluster are given and the helper starts.\<close>

lemma NewSveltosClusterScope_ok:
  "result (NewSveltosClusterScope E hc cl n) s = Inr sc \<longleftrightarrow>
     hc \<and> (\<exists>c. cl = Some c \<and> patch_NewHelper E (calls s) c = None \<and>
       sc = \<lparr>SveltosCluster = c, controllerName = n\<rparr>)"
  by (auto simp: go_defs split: option.splits)

end
