(* ===== verification/Ctrl.thy ===== *)
theory Ctrl
  imports Scope
begin

text \<open>
  What a reconciler hands back to controller-runtime, shared by the two controllers: when to
  come back, an error, and a panic. A panic makes Go drop the other two.
\<close>

definition normalRequeueAfter :: duration where "normalRequeueAfter = 10 * Second"

record ctrl_result =
  RequeueAfter :: duration
  ReconcileError :: "goerr option"
  Panicked :: "string option"

definition requeue :: "duration \<Rightarrow> ctrl_result" where
  "requeue d = \<lparr>RequeueAfter = d, ReconcileError = None, Panicked = None\<rparr>"

definition reconcile_error :: "goerr \<Rightarrow> ctrl_result" where
  "reconcile_error e = \<lparr>RequeueAfter = 0, ReconcileError = Some e, Panicked = None\<rparr>"

lemma ctrl_result_simps [simp]:
  "RequeueAfter (requeue d) = d" "ReconcileError (requeue d) = None" "Panicked (requeue d) = None"
  "RequeueAfter (reconcile_error e) = 0" "ReconcileError (reconcile_error e) = Some e"
  "Panicked (reconcile_error e) = None"
  by (simp_all add: requeue_def reconcile_error_def)

end
