(* ===== verification/Sample.thy ===== *)
theory Sample
  imports World
begin

text \<open>
  A concrete environment and concrete objects, at which the theorems that have hypotheses are
  applied. \<open>env0\<close> answers every call with a plain success; a witness overrides the fields it is
  about.
\<close>

definition config0 :: rest_config where
  "config0 = \<lparr>Host = ''https://10.0.0.1:6443'', CAData = ''ca'', ConfigOther = []\<rparr>"

definition unstructured0 :: unstructured where
  "unstructured0 = \<lparr>ObjDeletionTimestamp = None, ObjContent = ''{}''\<rparr>"

definition spec0 :: cluster_spec where
  "spec0 = \<lparr>Paused = False, PullMode = False, ActiveWindow = None,
     TokenRequestRenewalOption = None, ReadinessChecks = None, LivenessChecks = None,
     ConsecutiveFailureThreshold = 3, KubeconfigKeyName = [], CleanupGracePeriod = None,
     SpecOther = []\<rparr>"

definition status0 :: cluster_status where
  "status0 = \<lparr>Ready = False, FailureMessage = None, ConnectionStatus = ConnectionHealthy,
     ConnectionFailures = 0, Version = [], LastReconciledTokenRequestAt = [],
     NextPause = None, NextUnpause = None, ActiveWindowHash = [], AgentLastReportTime = None\<rparr>"

definition cluster0 :: sveltos_cluster where
  "cluster0 = \<lparr>Namespace = ''ns'', Name = ''c1'', UID = ''uid'', Labels = None, Annotations = None,
     Finalizers = [], CreationTimestamp = 0, DeletionTimestamp = None, Spec = spec0,
     Status = status0\<rparr>"

definition license0 :: sveltos_license where
  "license0 = \<lparr>LicenseName = ''default'', LicenseDeletionTimestamp = None,
     LicenseStatus = \<lparr>LicenseState = LicenseStatusOther [], MaxClusters = None,
       ExpirationDate = None, LicenseMessage = []\<rparr>\<rparr>"

definition verification0 :: verification_result where
  "verification0 = \<lparr>Payload = None, PayloadData = None, SignatureData = [], IsValid = False,
     IsEnforced = False, IsExpired = False, ResultMessage = []\<rparr>"

definition env0 :: env where
  "env0 = \<lparr>
     clock = (\<lambda>h. int (length h) * Second), local_offset = (\<lambda>_. 0),
     client_GetSveltosCluster = (\<lambda>_ _ _. Inr cluster0),
     client_GetSveltosLicense = (\<lambda>_ _ _. Inr license0),
     client_GetConfigMap = (\<lambda>_ _ _. Inr None),
     patch_NewHelper = (\<lambda>_ _. None), helper_Patch = (\<lambda>_ _. None),
     client_StatusUpdate = (\<lambda>_ _. None),
     ContainsFinalizer = (\<lambda>fs f. f \<in> set fs),
     AddFinalizer = (\<lambda>fs f. if f \<in> set fs then fs else fs @ [f]),
     RemoveFinalizer = (\<lambda>fs f. filter (\<lambda>g. g \<noteq> f) fs),
     GetCluster = (\<lambda>_ _ _. Inr cluster0), IsShardAMatch = (\<lambda>_ _. True),
     GetSveltosKubernetesRestConfig = (\<lambda>_ _ _. Inr config0),
     GetKubernetesVersion = (\<lambda>_ _. Inr ''v1.31.2+k3s1''),
     GetSveltosSecretData = (\<lambda>_ _ _. Inr []),
     UpdateSveltosSecretData = (\<lambda>_ _ _ _ _. None),
     NewForConfig = (\<lambda>_ _. None), CreateToken = (\<lambda>_ _ _ _ _. Inr ''token''),
     SelfSubjectReview = (\<lambda>_ _. Inr ''system:serviceaccount:kube-system:admin''),
     NewDiscoveryClient = (\<lambda>_ _. None),
     GetAPIGroupResources = (\<lambda>_ _. Inr (GroupResources [])),
     RESTMapping = (\<lambda>_ _ _ _. Inr ''pods''), NewDynamicClient = (\<lambda>_ _. None),
     dynamic_List = (\<lambda>_ _ _ _ _ _. Inr []), LabelSelectorAsSelector = (\<lambda>_. Inr []),
     StageResourcesForDeployment = (\<lambda>_ _ _ _ _. None),
     CommitStagedResourcesForDeployment = (\<lambda>_ _ _ _. None),
     GetDeploymentStatus = (\<lambda>_ _ _. Inr None), TerminateDeploymentTracking = (\<lambda>_ _ _. None),
     AgentHeartbeatTimeoutError = ''agent heartbeat timeout'',
     IsAgentTimeoutError = (\<lambda>c. FailureMessage (Status c) = Some ''agent heartbeat timeout''),
     GetPublicKey = (\<lambda>_. Inr ''key''), VerifyLicenseSecret = (\<lambda>_ _ _. verification0),
     EvaluateRules = (\<lambda>_ _ _. Inr True), lua_DoString = (\<lambda>_ _. None),
     lua_CallEvaluate = (\<lambda>_ _ _. Inr None), LuaTableError = ''lua script output is not a lua table'',
     TruncateNote = (\<lambda>m. m), ClusterUnreachable = ''ClusterUnreachable'',
     AgentUnhealthy = ''AgentUnhealthy'', ClusterRecovered = ''ClusterRecovered'',
     ActionConnecting = ''Connecting'', SveltosClusterKind = ''SveltosCluster'',
     GroupVersion = ''lib.projectsveltos.io/v1beta1'', ClusterTypeSveltos = ''Sveltos'',
     SveltosClusterFinalizer = ''sveltoscluster-finalizer'',
     LicensePayloadAnnotation = ''license-payload'',
     LicenseSignatureAnnotation = ''license-signature'',
     cron_ParseStandard = (\<lambda>_. Inl (errorf ''parse'')),
     semver_NewVersion = (\<lambda>_. Inr (1, 31, 2)),
     yaml_Contexts = (\<lambda>_. Inr [\<lparr>CtxNamespace = ''default'', CtxAuthInfo = ''admin''\<rparr>]),
     ToUnstructured = (\<lambda>_. Inr unstructured0), int64_of_big = (\<lambda>_. 0)\<rparr>"

definition reconciler0 :: reconciler where
  "reconciler0 = \<lparr>RConfig = config0, ShardKey = [], SveltosNamespace = ''projectsveltos'',
     HasEventRecorder = True\<rparr>"

definition st0 :: "(sveltos_cluster, call) st" where
  "st0 = \<lparr>obj = cluster0, calls = []\<rparr>"

lemmas sample_defs =
  config0_def unstructured0_def spec0_def status0_def cluster0_def license0_def verification0_def
  env0_def reconciler0_def st0_def

end
