(* ===== verification/Go_Json.thy ===== *)
theory Go_Json
  imports Go_Strings Go_Numeric
begin

text \<open>
  The part of \<open>encoding/json\<close> the program uses. \<open>json_Unmarshal\<close> is the decoder of a whole
  document into \<open>interface{}\<close> values: the grammar of the scanner (white space, literals,
  numbers, escapes, the nesting limit), strings with their escapes and surrogate pairs and
  with invalid UTF-8 replaced, numbers rounded to a \<open>float64\<close> with an error when they
  overflow. The text of a decoding error is only logged by the callers and is not kept.

  The parser is a total function: each recursive call is guarded by the check that input was
  consumed, and \<open>parse_consumes\<close> shows that the guard never fails.
\<close>

section \<open>UTF-8\<close>

definition code :: "char \<Rightarrow> nat" where "code c = of_char c"

definition between :: "nat \<Rightarrow> nat \<Rightarrow> char \<Rightarrow> bool" where
  "between lo hi c \<longleftrightarrow> lo \<le> code c \<and> code c \<le> hi"

text \<open>The width of the first character if it is well-formed, otherwise 0.\<close>

fun rune_width :: "string \<Rightarrow> nat" where
  "rune_width [] = 0"
| "rune_width (a # r) =
     (if code a < 0x80 then 1
      else if between 0xC2 0xDF a then
        (case r of b # _ \<Rightarrow> if between 0x80 0xBF b then 2 else 0 | _ \<Rightarrow> 0)
      else if between 0xE0 0xEF a then
        (case r of b # c # _ \<Rightarrow>
           if between (if code a = 0xE0 then 0xA0 else 0x80) (if code a = 0xED then 0x9F else 0xBF) b \<and>
              between 0x80 0xBF c then 3 else 0
         | _ \<Rightarrow> 0)
      else if between 0xF0 0xF4 a then
        (case r of b # c # d # _ \<Rightarrow>
           if between (if code a = 0xF0 then 0x90 else 0x80) (if code a = 0xF4 then 0x8F else 0xBF) b \<and>
              between 0x80 0xBF c \<and> between 0x80 0xBF d then 4 else 0
         | _ \<Rightarrow> 0)
      else 0)"

definition replacement :: string where
  "replacement = [CHR 0xEF, CHR 0xBF, CHR 0xBD]"

definition encodeRune :: "nat \<Rightarrow> string" where
  "encodeRune n =
     (if n < 0x80 then [char_of n]
      else if n < 0x800 then [char_of (0xC0 + n div 64), char_of (0x80 + n mod 64)]
      else if n < 0x10000 then
        [char_of (0xE0 + n div 4096), char_of (0x80 + n div 64 mod 64), char_of (0x80 + n mod 64)]
      else [char_of (0xF0 + n div 262144), char_of (0x80 + n div 4096 mod 64),
            char_of (0x80 + n div 64 mod 64), char_of (0x80 + n mod 64)])"

text \<open>What a string becomes on its way through the encoder and the decoder.\<close>

function sanitize :: "string \<Rightarrow> string" where
  "sanitize [] = []"
| "sanitize (a # r) =
     (case rune_width (a # r) of
        0 \<Rightarrow> replacement @ sanitize r
      | Suc n \<Rightarrow> a # take n r @ sanitize (drop n r))"
  by pat_completeness auto
termination by (relation "measure length") auto

lemma sanitize_ascii: "list_all (\<lambda>c. code c < 128) s \<Longrightarrow> sanitize s = s"
  by (induction s) simp_all

section \<open>Lexical elements\<close>

definition isSpace :: "char \<Rightarrow> bool" where
  "isSpace c \<longleftrightarrow> c = CHR '' '' \<or> c = CHR 9 \<or> c = CHR 10 \<or> c = CHR 13"

definition skip_ws :: "string \<Rightarrow> string" where
  "skip_ws s = dropWhile isSpace s"

lemma length_skip_ws [simp]: "length (skip_ws s) \<le> length s"
  by (simp add: skip_ws_def length_dropWhile_le)

lemma skip_ws_Cons: "skip_ws s = c # r \<Longrightarrow> length r < length s"
  using length_skip_ws [of s] by simp

definition hexval :: "char \<Rightarrow> nat option" where
  "hexval c =
     (if between 48 57 c then Some (code c - 48)
      else if between 97 102 c then Some (code c - 87)
      else if between 65 70 c then Some (code c - 55) else None)"

definition getu4 :: "string \<Rightarrow> nat option" where
  "getu4 s =
     (case s of
        e # u # a # b # c # d # r \<Rightarrow>
          if e = CHR 0x5C \<and> u = CHR ''u'' then
            (case (hexval a, hexval b, hexval c, hexval d) of
               (Some w, Some x, Some y, Some z) \<Rightarrow> Some (4096 * w + 256 * x + 16 * y + z)
             | _ \<Rightarrow> None)
          else None
      | _ \<Rightarrow> None)"

text \<open>The body of a string up to its closing quote, and the rest.\<close>

fun scan_string :: "string \<Rightarrow> (string \<times> string) option" where
  "scan_string [] = None"
| "scan_string (c # r) =
     (if c = CHR 0x22 then Some ([], r)
      else if c = CHR 0x5C then
        (case r of [] \<Rightarrow> None
         | e # r' \<Rightarrow>
             if e \<in> set [CHR 0x22, CHR 0x5C, CHR ''/'', CHR ''b'', CHR ''f'', CHR ''n'', CHR ''r'', CHR ''t''] \<or>
                e = CHR ''u'' \<and> getu4 (c # r) \<noteq> None
             then map_option (\<lambda>(b, t). (c # e # b, t)) (scan_string r')
             else None)
      else if code c < 0x20 then None
      else map_option (\<lambda>(b, t). (c # b, t)) (scan_string r))"

definition simple_escape :: "char \<Rightarrow> char" where
  "simple_escape c =
     (if c = CHR ''b'' then CHR 8 else if c = CHR ''f'' then CHR 12 else if c = CHR ''n'' then CHR 10
      else if c = CHR ''r'' then CHR 13 else if c = CHR ''t'' then CHR 9 else c)"

text \<open>A pair of surrogates gives one character, a lone one the replacement character.\<close>

definition decode_surrogates :: "nat \<Rightarrow> nat option \<Rightarrow> nat option" where
  "decode_surrogates hi lo =
     (case lo of None \<Rightarrow> None
      | Some l \<Rightarrow> if 0xD800 \<le> hi \<and> hi < 0xDC00 \<and> 0xDC00 \<le> l \<and> l < 0xE000
          then Some ((hi - 0xD800) * 1024 + (l - 0xDC00) + 0x10000) else None)"

function unquote :: "string \<Rightarrow> string" where
  "unquote [] = []"
| "unquote (a # r) =
     (if a = CHR 0x5C then
        (case getu4 (a # r) of
           Some u \<Rightarrow>
             if 0xD800 \<le> u \<and> u < 0xE000 then
               (case decode_surrogates u (getu4 (drop 5 r)) of
                  Some v \<Rightarrow> encodeRune v @ unquote (drop 11 r)
                | None \<Rightarrow> replacement @ unquote (drop 5 r))
             else encodeRune u @ unquote (drop 5 r)
         | None \<Rightarrow> (case r of [] \<Rightarrow> [] | e # r' \<Rightarrow> simple_escape e # unquote r'))
      else
        (case rune_width (a # r) of
           0 \<Rightarrow> replacement @ unquote r
         | Suc n \<Rightarrow> a # take n r @ unquote (drop n r)))"
  by pat_completeness auto
termination by (relation "measure length") auto

section \<open>Numbers\<close>

definition digits :: "string \<Rightarrow> string \<times> string" where
  "digits s = (takeWhile isDigit s, dropWhile isDigit s)"

text \<open>The integer, fraction and exponent part; a number does not start with a needless zero.\<close>

definition scan_int :: "string \<Rightarrow> (string \<times> string) option" where
  "scan_int s =
     (case s of
        [] \<Rightarrow> None
      | c # r \<Rightarrow> if c = CHR ''0'' then Some ([c], r) else if isDigit c then Some (digits s) else None)"

definition scan_frac :: "string \<Rightarrow> (string \<times> string) option" where
  "scan_frac s =
     (case s of
        c # r \<Rightarrow> if c = CHR ''.'' then if fst (digits r) = [] then None else Some (digits r) else Some ([], s)
      | [] \<Rightarrow> Some ([], s))"

definition scan_exp :: "string \<Rightarrow> (int \<times> string) option" where
  "scan_exp s =
     (case s of
        c # r \<Rightarrow>
          if c = CHR ''e'' \<or> c = CHR ''E'' then
            let neg = (r \<noteq> [] \<and> hd r = CHR ''-'');
                r' = (if r \<noteq> [] \<and> (hd r = CHR ''-'' \<or> hd r = CHR ''+'') then tl r else r)
            in if fst (digits r') = [] then None
               else Some (if neg then - undec (fst (digits r')) else undec (fst (digits r')), snd (digits r'))
          else Some (0, s)
      | [] \<Rightarrow> Some (0, s))"

definition scan_number :: "string \<Rightarrow> (rat \<times> string) option" where
  "scan_number s =
     (let neg = (s \<noteq> [] \<and> hd s = CHR ''-''); s = (if neg then tl s else s)
      in case scan_int s of None \<Rightarrow> None
         | Some (i, s) \<Rightarrow>
             (case scan_frac s of None \<Rightarrow> None
              | Some (f, s) \<Rightarrow>
                  (case scan_exp s of None \<Rightarrow> None
                   | Some (e, s) \<Rightarrow>
                       let m = of_int (undec (i @ f)) * 10 powi (e - int (length f))
                       in Some (if neg then - m else m, s))))"

text \<open>\<open>strconv.ParseFloat\<close>: out of range is an error.\<close>

definition parseFloat :: "rat \<Rightarrow> rat option" where
  "parseFloat x = (if \<bar>fl64 x\<bar> < 2 ^ 1024 then Some (fl64 x) else None)"

section \<open>Documents\<close>

datatype json =
  JNull | JBool bool | JNumber rat | JString string | JArray "json list"
| JObject "(string \<times> json) list"

definition maxNestingDepth :: int where "maxNestingDepth = 10000"

function (sequential)
    parse_value :: "int \<Rightarrow> string \<Rightarrow> (json \<times> string) option"
and parse_elements :: "int \<Rightarrow> string \<Rightarrow> (json list \<times> string) option"
and parse_members :: "int \<Rightarrow> string \<Rightarrow> ((string \<times> json) list \<times> string) option" where
  "parse_value depth s =
     (case skip_ws s of
        [] \<Rightarrow> None
      | c # r \<Rightarrow>
          if c = CHR ''{'' then
            if depth \<ge> maxNestingDepth then None
            else if take 1 (skip_ws r) = ''}'' then Some (JObject [], drop 1 (skip_ws r))
            else map_option (\<lambda>(ms, t). (JObject ms, t)) (parse_members (depth + 1) r)
          else if c = CHR ''['' then
            if depth \<ge> maxNestingDepth then None
            else if take 1 (skip_ws r) = '']'' then Some (JArray [], drop 1 (skip_ws r))
            else map_option (\<lambda>(vs, t). (JArray vs, t)) (parse_elements (depth + 1) r)
          else if c = CHR 0x22 then
            map_option (\<lambda>(b, t). (JString (unquote b), t)) (scan_string r)
          else if HasPrefix (c # r) ''true'' then Some (JBool True, drop 3 r)
          else if HasPrefix (c # r) ''false'' then Some (JBool False, drop 4 r)
          else if HasPrefix (c # r) ''null'' then Some (JNull, drop 3 r)
          else (case scan_number (c # r) of
                  None \<Rightarrow> None
                | Some (x, t) \<Rightarrow> map_option (\<lambda>v. (JNumber v, t)) (parseFloat x)))"
| "parse_elements depth s =
     (case parse_value depth s of
        None \<Rightarrow> None
      | Some (v, t) \<Rightarrow>
          (case skip_ws t of
             c # t' \<Rightarrow>
               if c = CHR '']'' then Some ([v], t')
               else if c = CHR '','' \<and> length t' < length s then
                 map_option (\<lambda>(vs, u). (v # vs, u)) (parse_elements depth t')
               else None
           | [] \<Rightarrow> None))"
| "parse_members depth s =
     (case skip_ws s of
        c # r \<Rightarrow>
          if c \<noteq> CHR 0x22 then None
          else (case scan_string r of
             None \<Rightarrow> None
           | Some (k, t) \<Rightarrow>
               (case skip_ws t of
                  c' # t' \<Rightarrow>
                    if c' = CHR '':'' \<and> length t' < length s then
                      (case parse_value depth t' of
                         None \<Rightarrow> None
                       | Some (v, u) \<Rightarrow>
                           (case skip_ws u of
                              c'' # u' \<Rightarrow>
                                if c'' = CHR ''}'' then Some ([(unquote k, v)], u')
                                else if c'' = CHR '','' \<and> length u' < length s then
                                  map_option (\<lambda>(ms, w). ((unquote k, v) # ms, w)) (parse_members depth u')
                                else None
                            | [] \<Rightarrow> None))
                    else None
                | [] \<Rightarrow> None))
      | [] \<Rightarrow> None)"
  by pat_completeness auto
termination
  by (relation "measure (\<lambda>x. case x of Inl (_, s) \<Rightarrow> 2 * length s
        | Inr (Inl (_, s)) \<Rightarrow> 2 * length s + 1 | Inr (Inr (_, s)) \<Rightarrow> 2 * length s + 1)")
    (auto dest!: skip_ws_Cons)

declare parse_value.simps [simp del] parse_elements.simps [simp del] parse_members.simps [simp del]

text \<open>
  \<open>json.Unmarshal\<close> into a \<open>map[string]interface{}\<close>: nothing may follow the value, \<open>null\<close>
  leaves the map nil, the last of several equal keys wins, any other value is an error.
\<close>

definition json_Unmarshal_map :: "string \<Rightarrow> (string, json) gomap option" where
  "json_Unmarshal_map s =
     (case parse_value 0 s of
        None \<Rightarrow> None
      | Some (v, t) \<Rightarrow>
          if skip_ws t \<noteq> [] then None
          else (case v of JNull \<Rightarrow> Some None | JObject ms \<Rightarrow> Some (Some (map_of (rev ms))) | _ \<Rightarrow> None))"

section \<open>Every value consumes input\<close>

lemma scan_string_length: "scan_string s = Some (b, t) \<Longrightarrow> length t < length s"
proof (induction s arbitrary: b t rule: scan_string.induct)
  case (2 c r)
  then show ?case by (fastforce split: if_splits list.splits)
qed simp

lemma digits_length: "digits s = (a, b) \<Longrightarrow> length s = length a + length b"
  by (simp add: digits_def) (metis length_append takeWhile_dropWhile_id)

lemma scan_int_length: "scan_int s = Some (i, t) \<Longrightarrow> length t < length s"
  by (auto simp: scan_int_def digits_def less_Suc_eq_le length_dropWhile_le
      split: list.splits if_splits)

lemma scan_frac_length: "scan_frac s = Some (f, t) \<Longrightarrow> length t \<le> length s"
  by (auto simp: scan_frac_def dest: digits_length split: list.splits if_splits)

lemma scan_exp_length: "scan_exp s = Some (e, t) \<Longrightarrow> length t \<le> length s"
proof (cases s)
  case (Cons c r)
  assume "scan_exp s = Some (e, t)"
  then have "t = s \<or> t = dropWhile isDigit r \<or> t = dropWhile isDigit (tl r)"
    by (auto simp: scan_exp_def digits_def Let_def Cons split: if_splits)
  moreover have "length (dropWhile isDigit r) \<le> length r" "length (dropWhile isDigit (tl r)) \<le> length r - 1"
    using length_dropWhile_le [of isDigit "tl r"] by (simp_all add: length_dropWhile_le)
  ultimately show ?thesis using Cons by auto
qed (simp add: scan_exp_def)

lemma scan_number_length: "scan_number s = Some (x, t) \<Longrightarrow> length t < length s"
proof -
  define s' where "s' = (if s \<noteq> [] \<and> hd s = CHR ''-'' then tl s else s)"
  assume "scan_number s = Some (x, t)"
  then obtain i a f b e where "scan_int s' = Some (i, a)" "scan_frac a = Some (f, b)"
      "scan_exp b = Some (e, t)"
    unfolding scan_number_def Let_def s'_def [symmetric]
    by (auto split: option.splits prod.splits)
  then have "length t < length s'"
    by (meson scan_int_length scan_frac_length scan_exp_length le_less_trans)
  also have "length s' \<le> length s" by (simp add: s'_def)
  finally show ?thesis .
qed

lemma HasPrefix_length: "HasPrefix s p \<Longrightarrow> length p \<le> length s"
  using HasPrefixD [of s p] by (metis length_append le_add1)

lemma parse_consumes:
  "parse_value d s = Some (v, t) \<Longrightarrow> length t < length s"
  "parse_elements d s = Some (vs, t) \<Longrightarrow> length t < length s"
  "parse_members d s = Some (ms, t) \<Longrightarrow> length t < length s"
proof (induction d s and d s and d s arbitrary: v t and vs t and ms t
    rule: parse_value_parse_elements_parse_members.induct)
  case (1 depth s)
  from "1.prems" obtain c r where cr: "skip_ws s = c # r"
    by (auto simp: parse_value.simps [of depth s] split: list.splits)
  have ws: "length (skip_ws r) - Suc 0 \<le> length r" using length_skip_ws [of r] by linarith
  have "length t \<le> length r"
    using "1.prems" "1.IH" [OF cr] ws scan_string_length [of r] scan_number_length [of "c # r"]
    unfolding parse_value.simps [of depth s] cr
    by (auto split: if_splits option.splits prod.splits simp: less_imp_le less_Suc_eq_le)
  with skip_ws_Cons [OF cr] show ?case by simp
next
  case (2 depth s)
  from "2.prems" obtain w u c u' where w: "parse_value depth s = Some (w, u)" "skip_ws u = c # u'"
    by (auto simp: parse_elements.simps [of depth s] split: option.splits list.splits)
  have "length u < length s" by (rule "2.IH"(1) [OF w(1)])
  with skip_ws_Cons [OF w(2)] have lt: "length u' < length s" by simp
  from "2.prems" w have "t = u' \<or> (\<exists>vs'. parse_elements depth u' = Some (vs', t) \<and> c = CHR '','')"
    by (auto simp: parse_elements.simps [of depth s] split: if_splits)
  with "2.IH"(2) [OF w(1) refl w(2)] lt show ?case by fastforce
next
  case (3 depth s)
  from "3.prems" obtain c r k u c' u' w x c'' x' where w: "skip_ws s = c # r"
      "\<not> c \<noteq> CHR 0x22" "scan_string r = Some (k, u)" "skip_ws u = c' # u'" "c' = CHR '':'' \<and> length u' < length s"
      "parse_value depth u' = Some (w, x)" "skip_ws x = c'' # x'"
    by (auto simp: parse_members.simps [of depth s] split: option.splits list.splits if_splits)
  have "length x < length u'" by (rule "3.IH"(1) [OF w(1-3) refl w(4-6)])
  with skip_ws_Cons [OF w(7)] w(5) have lt: "length x' < length s" by simp
  from "3.prems" w have "t = x' \<or> (\<exists>ms'. parse_members depth x' = Some (ms', t) \<and> c'' = CHR '','' )"
    by (auto simp: parse_members.simps [of depth s] split: if_splits)
  with "3.IH"(2) [OF w(1-3) refl w(4-6) refl w(7)] lt show ?case by fastforce
qed

section \<open>Reading back a number\<close>

lemma dec_first: "dec n \<noteq> [] \<and> (hd (dec n) = CHR ''0'' \<longrightarrow> n = 0)"
proof (induction n rule: dec.induct)
  case (1 n)
  show ?case
  proof (cases "n < 10")
    case True
    have "dig n = CHR ''0'' \<Longrightarrow> n = 0"
      using digval_dig [OF True] by (simp add: dig_0)
    with True show ?thesis by (simp add: dec.simps [of n])
  next
    case False
    with "1.IH" have "dec (n div 10) \<noteq> []" "hd (dec (n div 10)) = CHR ''0'' \<longrightarrow> n div 10 = 0" by auto
    moreover have "n div 10 \<noteq> 0" using False by simp
    ultimately show ?thesis using False by (simp add: dec.simps [of n])
  qed
qed

definition ends_number :: "string \<Rightarrow> bool" where
  "ends_number r \<longleftrightarrow> r = [] \<or> \<not> isDigit (hd r) \<and> hd r \<noteq> CHR ''.'' \<and> hd r \<noteq> CHR ''e'' \<and> hd r \<noteq> CHR ''E''"

lemma digits_dec: "ends_number r \<Longrightarrow> digits (dec n @ r) = (dec n, r)"
proof -
  assume r: "ends_number r"
  have "takeWhile isDigit (dec n @ r) = dec n @ takeWhile isDigit r"
    by (rule takeWhile_append2) (rule dec_digits)
  moreover have "dropWhile isDigit (dec n @ r) = dropWhile isDigit r"
    by (rule dropWhile_append2) (rule dec_digits)
  moreover from r have "takeWhile isDigit r = []" "dropWhile isDigit r = r"
    by (auto simp: ends_number_def neq_Nil_conv) (cases r; auto)+
  ultimately show ?thesis by (simp add: digits_def)
qed

lemma scan_number_dec: "ends_number r \<Longrightarrow> scan_number (dec n @ r) = Some (of_nat n, r)"
proof -
  assume r: "ends_number r"
  obtain c ds where d: "dec n = c # ds" using dec_first [of n] by (cases "dec n") auto
  have digit: "isDigit c" using dec_digits [of c n] d by simp
  then have c: "c \<noteq> CHR ''-''" by (auto simp: isDigit_def)
  have int: "scan_int (dec n @ r) = Some (dec n, r)"
  proof (cases "c = CHR ''0''")
    case True
    then have "n = 0" using dec_first [of n] d by simp
    with d True show ?thesis by (simp add: scan_int_def dec.simps [of 0])
  next
    case False
    then show ?thesis using digits_dec [OF r, of n] digit d by (simp add: scan_int_def)
  qed
  have "scan_frac r = Some ([], r)" "scan_exp r = Some (0, r)"
    using r by (auto simp: scan_frac_def scan_exp_def ends_number_def split: list.split)
  with int c d undec_dec [of n] show ?thesis by (simp add: scan_number_def del: undec_dec)
qed

lemma parseFloat_nat: "n \<le> 2 ^ 53 \<Longrightarrow> parseFloat (of_nat n) = Some (of_nat n)"
proof -
  assume n: "n \<le> 2 ^ 53"
  then have "\<bar>int n\<bar> \<le> 2 ^ 53" using of_nat_mono [OF n, where ?'a = int] by simp
  then have fl: "fl64 (of_nat n) = of_nat n" using fl64_int [of "int n"] by simp
  have "(of_nat n :: rat) \<le> 2 ^ 53" using of_nat_mono [OF n, where ?'a = rat] by simp
  also have "(2 :: rat) ^ 53 < 2 ^ 1024" by (rule power_strict_increasing) simp_all
  finally show ?thesis by (simp add: parseFloat_def fl)
qed

lemma skip_ws_head: "\<not> isSpace c \<Longrightarrow> skip_ws (c # r) = c # r"
  by (simp add: skip_ws_def)

lemma parse_value_dec:
  assumes "n \<le> 2 ^ 53" "ends_number r"
  shows "parse_value d (dec n @ r) = Some (JNumber (of_nat n), r)"
proof -
  obtain c ds where dc: "dec n = c # ds" using dec_first [of n] by (cases "dec n") auto
  have digit: "isDigit c" using dec_digits [of c n] dc by simp
  then have "skip_ws (dec n @ r) = c # ds @ r" by (simp add: dc skip_ws_def isSpace_def) (auto simp: isDigit_def)
  moreover have "c \<noteq> CHR ''{''" "c \<noteq> CHR ''[''" "c \<noteq> CHR 0x22" "c \<noteq> CHR ''t''" "c \<noteq> CHR ''f''" "c \<noteq> CHR ''n''"
    using digit by (auto simp: isDigit_def)
  moreover have "scan_number (c # ds @ r) = Some (of_nat n, r)"
    using scan_number_dec [OF assms(2), of n] dc by simp
  ultimately show ?thesis
    using parseFloat_nat [OF assms(1)] by (simp add: parse_value.simps HasPrefix_def)
qed

text \<open>A string without escapes.\<close>

definition plain_string :: "string \<Rightarrow> bool" where
  "plain_string s \<longleftrightarrow> list_all (\<lambda>c. 32 \<le> code c \<and> code c < 128 \<and> c \<noteq> CHR 0x22 \<and> c \<noteq> CHR 0x5C) s"

lemma scan_string_plain: "plain_string k \<Longrightarrow> scan_string (k @ CHR 0x22 # r) = Some (k, r)"
  by (induction k) (simp_all add: plain_string_def)

lemma unquote_plain: "plain_string k \<Longrightarrow> unquote k = k"
  by (induction k) (simp_all add: plain_string_def)

text \<open>An object whose members are numbers, printed without white space.\<close>

definition print_member :: "string \<times> nat \<Rightarrow> string" where
  "print_member m = CHR 0x22 # fst m @ CHR 0x22 # CHR '':'' # dec (snd m)"

fun print_members :: "(string \<times> nat) list \<Rightarrow> string" where
  "print_members [] = []"
| "print_members [m] = print_member m"
| "print_members (m # ms) = print_member m @ '','' @ print_members ms"

definition print_object :: "(string \<times> nat) list \<Rightarrow> string" where
  "print_object ms = ''{'' @ print_members ms @ ''}''"

definition printable :: "(string \<times> nat) list \<Rightarrow> bool" where
  "printable ms \<longleftrightarrow> list_all (\<lambda>(k, n). plain_string k \<and> n \<le> 2 ^ 53) ms"

abbreviation number_members :: "(string \<times> nat) list \<Rightarrow> (string \<times> json) list" where
  "number_members ms \<equiv> map (\<lambda>(k, n). (k, JNumber (of_nat n))) ms"

lemma parse_member:
  assumes "plain_string k" "n \<le> 2 ^ 53" "ends_number (c # r)" "\<not> isSpace c"
  shows "parse_members d (print_member (k, n) @ c # r) =
    (if c = CHR ''}'' then Some ([(k, JNumber (of_nat n))], r)
     else if c = CHR '','' then map_option (\<lambda>(ms, w). ((k, JNumber (of_nat n)) # ms, w)) (parse_members d r)
     else None)"
proof -
  have "isSpace (CHR 0x22) = False" "isSpace (CHR '':'') = False" by (simp_all add: isSpace_def)
  then show ?thesis
    using parse_value_dec [OF assms(2,3), of d] scan_string_plain [OF assms(1)]
      unquote_plain [OF assms(1)] assms(4)
    by (subst parse_members.simps) (simp add: print_member_def skip_ws_head)
qed

lemma parse_print_members:
  assumes "printable ms" "ms \<noteq> []"
  shows "parse_members d (print_members ms @ ''}'' @ r) = Some (number_members ms, r)"
  using assms
proof (induction ms rule: print_members.induct)
  case (2 m)
  then show ?case
    by (cases m) (simp add: printable_def parse_member ends_number_def isDigit_def isSpace_def)
next
  case (3 m m' ms)
  then show ?case
    by (cases m) (simp add: printable_def parse_member ends_number_def isDigit_def isSpace_def)
qed simp

lemma Unmarshal_print:
  assumes "printable ms"
  shows "json_Unmarshal_map (print_object ms) = Some (Some (map_of (rev (number_members ms))))"
proof -
  have "parse_value 0 (print_object ms) = Some (JObject (number_members ms), [])"
  proof (cases "ms = []")
    case True
    then show ?thesis
      by (subst parse_value.simps)
        (simp add: print_object_def maxNestingDepth_def skip_ws_def isSpace_def)
  next
    case False
    then obtain k n rest where ms: "ms = (k, n) # rest" by (cases ms) auto
    then obtain r where r: "print_members ms = CHR 0x22 # r"
      by (cases rest) (simp_all add: print_member_def)
    have "parse_members 1 (print_members ms @ ''}'') = Some (number_members ms, [])"
      using parse_print_members [OF assms False, of 1 "[]"] by simp
    with r show ?thesis
      by (subst parse_value.simps)
        (simp add: print_object_def maxNestingDepth_def skip_ws_def isSpace_def)
  qed
  then show ?thesis by (simp add: json_Unmarshal_map_def skip_ws_def)
qed

end
