(* ===== verification/Cluster_Checks.thy ===== *)
theory Cluster_Checks
  imports Sample Go_Json
begin

text \<open>
  \<open>controllers/cluster_checks.go\<close>: the readiness and liveness checks. A check lists resources
  of the managed cluster and passes them to a Lua script; the first check that fails, or
  cannot be evaluated, decides the outcome. Kubernetes discovery and listing, CEL and the Lua
  interpreter answer through the environment; the constructors \<open>NewForConfigOrDie\<close> panic when
  the configuration is unusable.

  The table a script returns is marshalled to JSON and read back into \<open>matchStatus\<close> or
  \<open>checkStatus\<close>. \<open>decode_status\<close> is that round trip on the value itself: the encoder sorts the
  keys and replaces invalid UTF-8, the decoder takes a field by its exact or case-folded
  name, ignores \<open>null\<close> and keeps the first type error.
\<close>

section \<open>The status a script returns\<close>

record matchStatus =
  Matching :: bool
  matchMessage :: string

record checkStatus =
  Pass :: bool
  checkMessage :: string

text \<open>A value json can encode has only finite numbers; nesting is limited when it is read back.\<close>

fun first_nonfinite :: "govalue \<Rightarrow> string option" and
    first_nonfinite_list :: "govalue list \<Rightarrow> string option" and
    first_nonfinite_map :: "(string \<times> govalue) list \<Rightarrow> string option" where
  "first_nonfinite (GNonFinite s) = Some s"
| "first_nonfinite (GSlice vs) = first_nonfinite_list vs"
| "first_nonfinite (GMap ms) = first_nonfinite_map ms"
| "first_nonfinite _ = None"
| "first_nonfinite_list [] = None"
| "first_nonfinite_list (v # vs) =
     (case first_nonfinite v of Some s \<Rightarrow> Some s | None \<Rightarrow> first_nonfinite_list vs)"
| "first_nonfinite_map [] = None"
| "first_nonfinite_map (m # ms) =
     (case first_nonfinite (snd m) of Some s \<Rightarrow> Some s | None \<Rightarrow> first_nonfinite_map ms)"

fun nesting :: "govalue \<Rightarrow> int" and nesting_list :: "govalue list \<Rightarrow> int" and
    nesting_map :: "(string \<times> govalue) list \<Rightarrow> int" where
  "nesting (GSlice vs) = 1 + nesting_list vs"
| "nesting (GMap ms) = 1 + nesting_map ms"
| "nesting _ = 0"
| "nesting_list [] = 0"
| "nesting_list (v # vs) = max (nesting v) (nesting_list vs)"
| "nesting_map [] = 0"
| "nesting_map (m # ms) = max (nesting (snd m)) (nesting_map ms)"

text \<open>The encoder writes the keys of a map in the order of their bytes.\<close>

fun str_le :: "string \<Rightarrow> string \<Rightarrow> bool" where
  "str_le [] _ = True"
| "str_le (a # as) [] = False"
| "str_le (a # as) (b # bs) = (code a < code b \<or> code a = code b \<and> str_le as bs)"

fun insert_key :: "string \<times> govalue \<Rightarrow> (string \<times> govalue) list \<Rightarrow> (string \<times> govalue) list" where
  "insert_key m [] = [m]"
| "insert_key m (n # ns) = (if str_le (fst m) (fst n) then m # n # ns else n # insert_key m ns)"

definition sort_keys :: "(string \<times> govalue) list \<Rightarrow> (string \<times> govalue) list" where
  "sort_keys ms = foldr insert_key ms []"

text \<open>Folding of a field name: ASCII letters to upper case, and the long s to S.\<close>

definition upper :: "char \<Rightarrow> char" where
  "upper c = (if between 97 122 c then char_of (code c - 32) else c)"

fun foldName :: "string \<Rightarrow> string" where
  "foldName (a # b # r) =
     (if a = CHR 0xC5 \<and> b = CHR 0xBF then CHR ''S'' # foldName r else upper a # foldName (b # r))"
| "foldName [a] = [upper a]"
| "foldName [] = []"

text \<open>The field of the struct a key belongs to: the boolean, the message, or none.\<close>

datatype status_field = BoolField | MessageField | NoField

definition field_of :: "string \<Rightarrow> string \<Rightarrow> status_field" where
  "field_of boolName key =
     (if key = boolName then BoolField else if key = ''message'' then MessageField
      else if foldName key = foldName boolName then BoolField
      else if foldName key = foldName ''message'' then MessageField else NoField)"

definition json_kind :: "govalue \<Rightarrow> string" where
  "json_kind v =
     (case v of GNil \<Rightarrow> ''null'' | GBool _ \<Rightarrow> ''bool'' | GFloat _ \<Rightarrow> ''number''
      | GNonFinite _ \<Rightarrow> ''number'' | GString _ \<Rightarrow> ''string'' | GSlice _ \<Rightarrow> ''array'' | GMap _ \<Rightarrow> ''object'')"

definition field_error :: "string \<Rightarrow> string \<Rightarrow> govalue \<Rightarrow> string \<Rightarrow> goerr" where
  "field_error struct field v type =
     errorf (''json: cannot unmarshal '' @ json_kind v @ '' into Go struct field '' @ struct @ ''.'' @
       field @ '' of type '' @ type)"

text \<open>One member: the boolean, the message and the first error so far.\<close>

definition decode_member ::
    "string \<Rightarrow> string \<Rightarrow> bool \<times> string \<times> goerr option \<Rightarrow> string \<times> govalue \<Rightarrow>
     bool \<times> string \<times> goerr option" where
  "decode_member struct boolName st m =
     (case st of (b, msg, err) \<Rightarrow>
      let fail = (\<lambda>field type. case err of Some e \<Rightarrow> Some e
            | None \<Rightarrow> Some (field_error struct field (snd m) type))
      in case field_of boolName (sanitize (fst m)) of
           NoField \<Rightarrow> (b, msg, err)
         | BoolField \<Rightarrow>
             (case snd m of GNil \<Rightarrow> (b, msg, err) | GBool x \<Rightarrow> (x, msg, err)
              | _ \<Rightarrow> (b, msg, fail boolName ''bool''))
         | MessageField \<Rightarrow>
             (case snd m of GNil \<Rightarrow> (b, msg, err) | GString x \<Rightarrow> (b, sanitize x, err)
              | _ \<Rightarrow> (b, msg, fail ''message'' ''string'')))"

definition decode_status :: "string \<Rightarrow> string \<Rightarrow> govalue \<Rightarrow> goerr + bool \<times> string" where
  "decode_status struct boolName v =
     (case first_nonfinite v of
        Some s \<Rightarrow> Inl (errorf (''json: unsupported value: '' @ s))
      | None \<Rightarrow>
          if nesting v > maxNestingDepth then Inl (errorf ''exceeded max depth'')
          else (case v of
             GMap ms \<Rightarrow>
               (case foldl (decode_member struct boolName) (False, [], None) (sort_keys ms) of
                  (_, _, Some e) \<Rightarrow> Inl e
                | (b, msg, None) \<Rightarrow> Inr (b, msg))
           | GNil \<Rightarrow> Inr (False, [])
           | _ \<Rightarrow> Inl (errorf (''json: cannot unmarshal '' @ json_kind v @
                '' into Go value of type controllers.'' @ struct))))"

definition unmarshal_matchStatus :: "govalue \<Rightarrow> goerr + matchStatus" where
  "unmarshal_matchStatus v =
     (case decode_status ''matchStatus'' ''matching'' v of
        Inl e \<Rightarrow> Inl e | Inr (b, msg) \<Rightarrow> Inr \<lparr>Matching = b, matchMessage = msg\<rparr>)"

definition unmarshal_checkStatus :: "govalue \<Rightarrow> goerr + checkStatus" where
  "unmarshal_checkStatus v =
     (case decode_status ''checkStatus'' ''pass'' v of
        Inl e \<Rightarrow> Inl e | Inr (b, msg) \<Rightarrow> Inr \<lparr>Pass = b, checkMessage = msg\<rparr>)"

section \<open>Selecting resources\<close>

definition filter_term :: "label_filter \<Rightarrow> string" where
  "filter_term f =
     (case FilterOperation f of
        OperationEqual \<Rightarrow> FilterKey f @ ''='' @ FilterValue f
      | OperationDifferent \<Rightarrow> FilterKey f @ ''!='' @ FilterValue f
      | OperationHas \<Rightarrow> FilterKey f
      | OperationDoesNotHave \<Rightarrow> ''!'' @ FilterKey f
      | OperationOther _ \<Rightarrow> [])"

text \<open>The loop over the filters, with the selector built so far.\<close>

fun label_filters :: "string \<Rightarrow> label_filter list \<Rightarrow> string" where
  "label_filters labelFilter [] = labelFilter"
| "label_filters labelFilter (f # fs) =
     label_filters ((if labelFilter \<noteq> [] then labelFilter @ '','' else labelFilter) @ filter_term f) fs"

definition calculateLabelSelector :: "env \<Rightarrow> resource_selector \<Rightarrow> goerr + string" where
  "calculateLabelSelector E sel =
     (let labelFilter = label_filters [] (elems (LabelFilters sel)) in
      case Selector sel of
        None \<Rightarrow> Inr labelFilter
      | Some ls \<Rightarrow>
          (case LabelSelectorAsSelector E ls of
             Inl e \<Rightarrow> Inl (e\<lparr>Error := ''failed to convert Selector to internal selector: '' @ Error e\<rparr>)
           | Inr selectorString \<Rightarrow>
               if selectorString \<noteq> [] then
                 if labelFilter \<noteq> [] then Inr (labelFilter @ '','' @ selectorString)
                 else Inr selectorString
               else Inr labelFilter))"

definition isMatchForLua :: "env \<Rightarrow> unstructured \<Rightarrow> string \<Rightarrow> ('o, goerr + bool) act" where
  "isMatchForLua E resource script =
     (if script = [] then ret (Inr True)
      else do {
        err \<leftarrow> external (\<lambda>h. lua_DoString E h script) (Call_DoString script);
        case err of
          Some e \<Rightarrow> ret (Inl e)
        | None \<Rightarrow> do {
            r \<leftarrow> external (\<lambda>h. lua_CallEvaluate E h script (LuaObject resource))
                   (Call_CallEvaluate script (LuaObject resource));
            case r of
              Inl e \<Rightarrow> ret (Inl e)
            | Inr tbl \<Rightarrow>
                (case tbl of
                   None \<Rightarrow> ret (Inl (errorf (LuaTableError E)))
                 | Some goResult \<Rightarrow>
                     (case unmarshal_matchStatus goResult of
                        Inl e \<Rightarrow> ret (Inl e)
                      | Inr st \<Rightarrow> ret (Inr (Matching st))))
          }
      })"

definition isMatch :: "env \<Rightarrow> unstructured \<Rightarrow> resource_selector \<Rightarrow> ('o, goerr + bool) act" where
  "isMatch E u sel = do {
     r \<leftarrow> external (\<lambda>h. EvaluateRules E h u (EvaluateCEL sel)) (Call_EvaluateRules u (EvaluateCEL sel));
     case r of
       Inl e \<Rightarrow> ret (Inl e)
     | Inr b \<Rightarrow>
         if b then ret (Inr True)
         else if EvaluateCEL sel \<noteq> None \<and> Evaluate sel = [] then ret (Inr False)
         else isMatchForLua E u (Evaluate sel)
   }"

fun select_resources ::
    "env \<Rightarrow> resource_selector \<Rightarrow> unstructured list \<Rightarrow> ('o, goerr + unstructured list) act" where
  "select_resources E sel [] = ret (Inr [])"
| "select_resources E sel (u # us) =
     (if \<not> IncludeDeletingResources sel \<and> \<not> IsZero (ObjDeletionTimestamp u)
      then select_resources E sel us
      else do {
        r \<leftarrow> isMatch E u sel;
        case r of
          Inl e \<Rightarrow> ret (Inl e)
        | Inr b \<Rightarrow> do {
            rest \<leftarrow> select_resources E sel us;
            case rest of Inl e \<Rightarrow> ret (Inl e) | Inr rs \<Rightarrow> ret (Inr (if b then u # rs else rs))
          }
      })"

definition selector_options :: "resource_selector \<Rightarrow> string \<Rightarrow> list_options" where
  "selector_options sel labelSelector =
     (let fs = (if SelNamespace sel \<noteq> [] then ''metadata.namespace='' @ SelNamespace sel else []);
          fs = (if SelName sel \<noteq> []
                then (if fs \<noteq> [] then fs @ '','' else fs) @ ''metadata.name='' @ SelName sel
                else fs)
      in \<lparr>OptLabelSelector = labelSelector, OptFieldSelector = fs\<rparr>)"

definition getResourcesMatchinResourceSelector ::
    "env \<Rightarrow> rest_config \<Rightarrow> resource_selector \<Rightarrow> ('o, unstructured list outcome) act" where
  "getResourcesMatchinResourceSelector E config sel = do {
     err \<leftarrow> external (\<lambda>h. NewDiscoveryClient E h config) (Call_NewDiscoveryClient config);
     case err of
       Some e \<Rightarrow> ret (Panic (Error e))
     | None \<Rightarrow> do {
         groupResources \<leftarrow> external (\<lambda>h. GetAPIGroupResources E h config) (Call_GetAPIGroupResources config);
         case groupResources of
           Inl e \<Rightarrow> ret (Fail e)
         | Inr gr \<Rightarrow>
             (case RESTMapping E gr (SelGroup sel) (SelVersion sel) (SelKind sel) of
                Inl e \<Rightarrow> if IsNoMatch e then ret (Ret []) else ret (Fail e)
              | Inr resource \<Rightarrow>
                  (case calculateLabelSelector E sel of
                     Inl e \<Rightarrow> ret (Fail e)
                   | Inr labelSelector \<Rightarrow> do {
                       err \<leftarrow> external (\<lambda>h. NewDynamicClient E h config) (Call_NewDynamicClient config);
                       case err of
                         Some e \<Rightarrow> ret (Panic (Error e))
                       | None \<Rightarrow> do {
                           let options = selector_options sel labelSelector;
                           list \<leftarrow> external
                             (\<lambda>h. dynamic_List E h config (SelGroup sel) (SelVersion sel) resource options)
                             (Call_List config (SelGroup sel) (SelVersion sel) resource options);
                           case list of
                             Inl e \<Rightarrow> ret (Fail e)
                           | Inr items \<Rightarrow> do {
                               r \<leftarrow> select_resources E sel items;
                               case r of Inl e \<Rightarrow> ret (Fail e) | Inr rs \<Rightarrow> ret (Ret rs)
                             }
                         }
                     }))
       }
   }"

fun getResources ::
    "env \<Rightarrow> rest_config \<Rightarrow> resource_selector list \<Rightarrow> ('o, unstructured list outcome) act" where
  "getResources E config [] = ret (Ret [])"
| "getResources E config (sel # sels) = do {
     matching \<leftarrow> getResourcesMatchinResourceSelector E config sel;
     case matching of
       Ret rs \<Rightarrow> do {
         rest \<leftarrow> getResources E config sels;
         case rest of Ret rs' \<Rightarrow> ret (Ret (rs @ rs')) | Fail e \<Rightarrow> ret (Fail e) | Panic m \<Rightarrow> ret (Panic m)
       }
     | Fail e \<Rightarrow> ret (Fail e)
     | Panic m \<Rightarrow> ret (Panic m)
   }"

section \<open>Running the checks\<close>

definition validateCheck ::
    "env \<Rightarrow> string \<Rightarrow> unstructured list \<Rightarrow> ('o, goerr + bool \<times> string) act" where
  "validateCheck E luaScript resources =
     (if luaScript = [] then ret (Inr (True, []))
      else do {
        err \<leftarrow> external (\<lambda>h. lua_DoString E h luaScript) (Call_DoString luaScript);
        case err of
          Some e \<Rightarrow> ret (Inl e)
        | None \<Rightarrow> do {
            r \<leftarrow> external (\<lambda>h. lua_CallEvaluate E h luaScript (LuaTable resources))
                   (Call_CallEvaluate luaScript (LuaTable resources));
            case r of
              Inl e \<Rightarrow> ret (Inl e)
            | Inr tbl \<Rightarrow>
                (case tbl of
                   None \<Rightarrow> ret (Inl (errorf (LuaTableError E)))
                 | Some goResult \<Rightarrow>
                     (case unmarshal_checkStatus goResult of
                        Inl e \<Rightarrow> ret (Inl e)
                      | Inr st \<Rightarrow> ret (Inr (Pass st, checkMessage st))))
          }
      })"

definition runCheck :: "env \<Rightarrow> rest_config \<Rightarrow> cluster_check \<Rightarrow> ('o, (bool \<times> string) outcome) act" where
  "runCheck E config check = do {
     resources \<leftarrow> getResources E config (elems (ResourceSelectors check));
     case resources of
       Ret rs \<Rightarrow> do {
         r \<leftarrow> validateCheck E (Condition check) rs;
         case r of Inl e \<Rightarrow> ret (Fail e) | Inr pm \<Rightarrow> ret (Ret pm)
       }
     | Fail e \<Rightarrow> ret (Fail e)
     | Panic m \<Rightarrow> ret (Panic m)
   }"

definition check_failed :: "cluster_check \<Rightarrow> string \<Rightarrow> goerr" where
  "check_failed check message =
     errorf (''cluster check '' @ CheckName check @ '' failed (message: '' @ message @ '')'')"

fun runChecks :: "env \<Rightarrow> rest_config \<Rightarrow> cluster_check list \<Rightarrow> ('o, unit outcome) act" where
  "runChecks E config [] = ret (Ret ())"
| "runChecks E config (check # checks) = do {
     r \<leftarrow> runCheck E config check;
     case r of
       Fail e \<Rightarrow> ret (Fail e)
     | Panic m \<Rightarrow> ret (Panic m)
     | Ret pm \<Rightarrow>
         if \<not> fst pm then ret (Fail (check_failed check (snd pm)))
         else runChecks E config checks
   }"

lemmas check_defs =
  isMatchForLua_def isMatch_def getResourcesMatchinResourceSelector_def validateCheck_def runCheck_def

section \<open>The checks only observe\<close>

text \<open>A call that observes a managed cluster or evaluates a script.\<close>

definition check_call :: "call \<Rightarrow> bool" where
  "check_call c = (case c of
     Call_NewDiscoveryClient _ \<Rightarrow> True | Call_GetAPIGroupResources _ \<Rightarrow> True
   | Call_NewDynamicClient _ \<Rightarrow> True | Call_List _ _ _ _ _ \<Rightarrow> True
   | Call_EvaluateRules _ _ \<Rightarrow> True | Call_DoString _ \<Rightarrow> True | Call_CallEvaluate _ _ \<Rightarrow> True
   | _ \<Rightarrow> False)"

lemma check_call_simps [simp]:
  "check_call (Call_NewDiscoveryClient g)" "check_call (Call_GetAPIGroupResources g)"
  "check_call (Call_NewDynamicClient g)" "check_call (Call_List g a b r l)"
  "check_call (Call_EvaluateRules u cel)" "check_call (Call_DoString src)" "check_call (Call_CallEvaluate src arg)"
  by (simp_all add: check_call_def)

lemma keeps_isMatch [keeps_rules]: "keeps (\<lambda>s. view (obj s)) (isMatch E u sel)"
  unfolding isMatch_def isMatchForLua_def by (intro keeps_rules)

lemma only_calls_isMatch [calls_rules]: "only_calls check_call (isMatch E u sel)"
  unfolding isMatch_def isMatchForLua_def by (intro calls_rules) simp_all

lemma keeps_select_resources [keeps_rules]: "keeps (\<lambda>s. view (obj s)) (select_resources E sel us)"
  by (induction us) (auto intro!: keeps_rules)

lemma only_calls_select_resources [calls_rules]: "only_calls check_call (select_resources E sel us)"
  by (induction us) (auto intro!: calls_rules)

lemma keeps_getResourcesMatching [keeps_rules]:
  "keeps (\<lambda>s. view (obj s)) (getResourcesMatchinResourceSelector E cfg sel)"
  unfolding getResourcesMatchinResourceSelector_def Let_def by (intro keeps_rules)

lemma only_calls_getResourcesMatching [calls_rules]:
  "only_calls check_call (getResourcesMatchinResourceSelector E cfg sel)"
  unfolding getResourcesMatchinResourceSelector_def Let_def by (intro calls_rules) simp_all

lemma keeps_getResources [keeps_rules]: "keeps (\<lambda>s. view (obj s)) (getResources E cfg sels)"
  by (induction sels) (auto intro!: keeps_rules)

lemma only_calls_getResources [calls_rules]: "only_calls check_call (getResources E cfg sels)"
  by (induction sels) (auto intro!: calls_rules)

lemma keeps_runCheck [keeps_rules]: "keeps (\<lambda>s. view (obj s)) (runCheck E cfg chk)"
  unfolding runCheck_def validateCheck_def by (intro keeps_rules)

lemma only_calls_runCheck [calls_rules]: "only_calls check_call (runCheck E cfg chk)"
  unfolding runCheck_def validateCheck_def by (intro calls_rules) simp_all

lemma keeps_runChecks [keeps_rules]: "keeps (\<lambda>s. view (obj s)) (runChecks E cfg chks)"
  by (induction chks) (auto intro!: keeps_rules)

lemma only_calls_runChecks [calls_rules]: "only_calls check_call (runChecks E cfg chks)"
  by (induction chks) (auto intro!: calls_rules)

section \<open>What the checks decide\<close>

lemma runChecks_append:
  "run_state (runChecks E cfg (xs @ ys)) s =
     (case result (runChecks E cfg xs) s of
        Ret _ \<Rightarrow> run_state (runChecks E cfg ys) (final (runChecks E cfg xs) s)
      | Fail e \<Rightarrow> (Fail e, final (runChecks E cfg xs) s)
      | Panic m \<Rightarrow> (Panic m, final (runChecks E cfg xs) s))"
  by (induction xs arbitrary: s) (simp_all add: case_prod_beta split: outcome.split)

text \<open>
  C19: the checks run in order and the first one that does not pass decides. Its name and
  message become the error, and none of the checks behind it is evaluated: the calls made
  are those up to and including that check.
\<close>

theorem runChecks_first_failure:
  assumes "result (runChecks E cfg xs) s = Ret ()"
    and "result (runCheck E cfg check) (final (runChecks E cfg xs) s) = Ret (False, message)"
  shows "run_state (runChecks E cfg (xs @ check # ys)) s =
    (Fail (errorf (''cluster check '' @ CheckName check @ '' failed (message: '' @ message @ '')'')),
     final (runCheck E cfg check) (final (runChecks E cfg xs) s))"
  using assms by (simp add: runChecks_append case_prod_beta check_failed_def)

text \<open>
  A cluster passes its checks exactly when every check, evaluated after the ones before
  it, passes; with no check it passes.
\<close>

lemma runChecks_pass:
  "result (runChecks E cfg checks) s = Ret () \<longleftrightarrow>
    list_all (\<lambda>i. \<exists>m. result (runCheck E cfg (checks ! i)) (final (runChecks E cfg (take i checks)) s) = Ret (True, m))
      [0..<length checks]"
proof (induction checks rule: rev_induct)
  case (snoc c cs)
  have "take i (cs @ [c]) = take i cs \<and> (cs @ [c]) ! i = cs ! i" if "i < length cs" for i
    using that by (simp add: nth_append)
  then have "list_all (\<lambda>i. \<exists>m. result (runCheck E cfg ((cs @ [c]) ! i)) (final (runChecks E cfg (take i (cs @ [c]))) s) = Ret (True, m))
      [0..<length cs] \<longleftrightarrow> result (runChecks E cfg cs) s = Ret ()"
    unfolding snoc list_all_iff by (intro ball_cong refl) auto
  moreover have "result (runChecks E cfg (cs @ [c])) s = Ret () \<longleftrightarrow>
      result (runChecks E cfg cs) s = Ret () \<and>
      (\<exists>m. result (runCheck E cfg c) (final (runChecks E cfg cs) s) = Ret (True, m))"
    by (auto simp: runChecks_append case_prod_beta split: outcome.splits if_splits)
  ultimately show ?case by simp
qed simp

text \<open>The members of a table that set the boolean field.\<close>

lemma set_insert_key [simp]: "set (insert_key m ns) = insert m (set ns)"
  by (induction ns) auto

lemma set_sort_keys [simp]: "set (sort_keys ms) = set ms"
  by (induction ms) (simp_all add: sort_keys_def)

lemma decode_members_true:
  assumes "foldl (decode_member struct name) (b, msg, err) ms = (True, msg', err')" and "\<not> b"
  shows "\<exists>k. (k, GBool True) \<in> set ms \<and> field_of name (sanitize k) = BoolField"
  using assms
proof (induction ms arbitrary: b msg err)
  case (Cons m ms)
  obtain b' msg'' err'' where st: "decode_member struct name (b, msg, err) m = (b', msg'', err'')"
    by (cases "decode_member struct name (b, msg, err) m") auto
  show ?case
  proof (cases b')
    case True
    with st Cons.prems(2) have "snd m = GBool True \<and> field_of name (sanitize (fst m)) = BoolField"
      by (auto simp: decode_member_def Let_def split: status_field.splits govalue.splits)
    then show ?thesis by (intro exI [of _ "fst m"]) (cases m, auto)
  next
    case False
    with Cons st show ?thesis by (auto dest!: Cons.IH)
  qed
qed simp

lemma decode_status_true:
  "decode_status struct name v = Inr (True, msg) \<Longrightarrow>
    \<exists>ms k. v = GMap ms \<and> (k, GBool True) \<in> set ms \<and> field_of name (sanitize k) = BoolField"
  by (auto simp: decode_status_def split: option.splits govalue.splits if_splits prod.splits
      dest!: decode_members_true)

text \<open>
  C20: a check that has a condition passes only when the script's \<open>evaluate\<close> returns a table
  with a true \<open>pass\<close> entry. A missing entry, an entry of another type, a value that is not a
  table and an error of the script all keep the check from passing.
\<close>

theorem validateCheck_pass_sound:
  assumes "result (validateCheck E script rs) s = Inr (True, message)" and "script \<noteq> []"
  shows "lua_DoString E (calls s) script = None \<and>
    (\<exists>ms k. lua_CallEvaluate E (calls s @ [Call_DoString script]) script (LuaTable rs) = Inr (Some (GMap ms)) \<and>
      (k, GBool True) \<in> set ms \<and> field_of ''pass'' (sanitize k) = BoolField)"
  using assms
  by (auto simp: validateCheck_def unmarshal_checkStatus_def
      split: option.splits sum.splits prod.splits dest!: decode_status_true) blast

section \<open>Which resources a check sees\<close>

text \<open>The elements separated by commas.\<close>

fun comma_join :: "string list \<Rightarrow> string" where
  "comma_join [] = []"
| "comma_join [x] = x"
| "comma_join (x # xs) = x @ '','' @ comma_join xs"

lemma comma_join_Cons: "xs \<noteq> [] \<Longrightarrow> comma_join (x # xs) = x @ '','' @ comma_join xs"
  by (cases xs) simp_all

lemma comma_join_concat: "comma_join (x # xs) = x @ concat (map (\<lambda>y. '','' @ y) xs)"
  by (induction xs arbitrary: x) simp_all

lemma label_filters_concat:
  "acc \<noteq> [] \<Longrightarrow> label_filters acc fs = acc @ concat (map (\<lambda>y. '','' @ y) (map filter_term fs))"
  by (induction fs arbitrary: acc) simp_all

lemma label_filters_terms:
  "list_all (\<lambda>f. filter_term f \<noteq> []) fs \<Longrightarrow> label_filters [] fs = comma_join (map filter_term fs)"
  by (cases fs) (simp_all add: label_filters_concat comma_join_concat)

lemma comma_join_empty: "list_all (\<lambda>x. x \<noteq> []) xs \<Longrightarrow> comma_join xs = [] \<longleftrightarrow> xs = []"
  by (cases xs rule: comma_join.cases) simp_all

lemma comma_join_snoc: "xs \<noteq> [] \<Longrightarrow> comma_join (xs @ [x]) = comma_join xs @ '','' @ x"
  by (induction xs rule: comma_join.induct) (simp_all add: comma_join_Cons)

text \<open>
  C21: the label selector sent to the API server is the conjunction of all the filters and, if one
  is given and it is not empty, the standard selector: its requirements joined by commas, none lost
  and none added, with or without a standard selector; only a standard selector that cannot be
  converted is an error. It needs every filter to have a non-empty requirement, which fails only
  for a filter of an unknown operation or a \<open>Has\<close> filter with an empty key.
\<close>

theorem calculateLabelSelector_conjunction:
  assumes "list_all (\<lambda>f. filter_term f \<noteq> []) (elems (LabelFilters sel))"
  shows "calculateLabelSelector E sel =
    (case (case Selector sel of None \<Rightarrow> Inr [] | Some ls \<Rightarrow> LabelSelectorAsSelector E ls) of
       Inl e \<Rightarrow> Inl (e\<lparr>Error := ''failed to convert Selector to internal selector: '' @ Error e\<rparr>)
     | Inr std \<Rightarrow> Inr (comma_join
         (map filter_term (elems (LabelFilters sel)) @ (if std = [] then [] else [std]))))"
proof -
  let ?fs = "map filter_term (elems (LabelFilters sel))"
  have "list_all (\<lambda>x. x \<noteq> []) ?fs" using assms by (simp add: list_all_iff)
  note comma_join_empty [OF this]
  with assms show ?thesis
    by (cases "?fs = []")
      (simp_all add: calculateLabelSelector_def label_filters_terms comma_join_snoc split: option.split sum.split)
qed

text \<open>
  C22: of the resources listed, a selector keeps exactly those that match, in their order,
  leaving out the ones being deleted unless it asks for them. Stated where matching a
  resource does not fail and does not depend on the moment it is evaluated.
\<close>

theorem select_resources_filter:
  fixes s :: "('o, call) st"
  assumes "\<And>u t. result (isMatch E u sel) (t :: ('o, call) st) = Inr (m u)"
  shows "result (select_resources E sel us) s =
    Inr (filter (\<lambda>u. (IncludeDeletingResources sel \<or> IsZero (ObjDeletionTimestamp u)) \<and> m u) us)"
  using assms by (induction us arbitrary: s) (auto simp: case_prod_beta)

section \<open>Witnesses\<close>

definition check0 :: cluster_check where
  "check0 = \<lparr>CheckName = ''nodes'', ResourceSelectors = None, Condition = ''evaluate''\<rparr>"

definition failing_env :: env where
  "failing_env = env0\<lparr>lua_CallEvaluate := (\<lambda>_ _ _. Inr (Some (GMap
     [(''pass'', GBool False), (''message'', GString ''3 nodes are down'')])))\<rparr>"

definition passing_env :: env where
  "passing_env = env0\<lparr>lua_CallEvaluate := (\<lambda>_ _ _. Inr (Some (GMap [(''pass'', GBool True)])))\<rparr>"

lemmas status_defs =
  unmarshal_checkStatus_def decode_status_def sort_keys_def decode_member_def field_of_def
  maxNestingDepth_def

lemma failing_check0:
  "result (runCheck failing_env config0 check0) s = Ret (False, ''3 nodes are down'')"
  by (simp add: runCheck_def validateCheck_def check0_def failing_env_def env0_def status_defs
      sanitize_ascii code_def upper_def between_def)

theorem runChecks_first_failure_witness:
  "result (runChecks failing_env config0 [check0, check0]) st0 =
    Fail (errorf ''cluster check nodes failed (message: 3 nodes are down)'')"
proof -
  have "run_state (runChecks failing_env config0 ([] @ check0 # [check0])) st0 =
    (Fail (errorf (''cluster check '' @ CheckName check0 @ '' failed (message: '' @ ''3 nodes are down'' @ '')'')),
     final (runCheck failing_env config0 check0) (final (runChecks failing_env config0 []) st0))"
    by (rule runChecks_first_failure [OF _ failing_check0]) simp
  moreover have "CheckName check0 = ''nodes''" by (simp add: check0_def)
  ultimately show ?thesis by (simp del: runChecks.simps)
qed

theorem validateCheck_pass_sound_witness:
  "\<exists>ms k. lua_CallEvaluate passing_env [Call_DoString ''evaluate''] ''evaluate'' (LuaTable []) = Inr (Some (GMap ms)) \<and>
    (k, GBool True) \<in> set ms \<and> field_of ''pass'' (sanitize k) = BoolField"
proof -
  have "result (validateCheck passing_env ''evaluate'' []) st0 = Inr (True, [])"
    by (simp add: validateCheck_def passing_env_def env0_def status_defs sanitize_ascii code_def)
  from validateCheck_pass_sound [OF this] show ?thesis by (simp add: st0_def)
qed

definition selector0 :: resource_selector where
  "selector0 = \<lparr>SelGroup = [], SelVersion = ''v1'', SelKind = ''Pod'',
     LabelFilters = Some [\<lparr>FilterKey = ''app'', FilterOperation = OperationEqual, FilterValue = ''web''\<rparr>,
       \<lparr>FilterKey = ''canary'', FilterOperation = OperationDoesNotHave, FilterValue = []\<rparr>],
     Selector = Some (LabelSelector []), SelNamespace = ''default'', SelName = [],
     IncludeDeletingResources = False, EvaluateCEL = None, Evaluate = []\<rparr>"

theorem calculateLabelSelector_conjunction_witness:
  "calculateLabelSelector (env0\<lparr>LabelSelectorAsSelector := (\<lambda>_. Inr ''tier in (a,b)'')\<rparr>) selector0 =
    Inr ''app=web,!canary,tier in (a,b)'' \<and>
   calculateLabelSelector env0 (selector0\<lparr>Selector := None\<rparr>) = Inr ''app=web,!canary''"
  using calculateLabelSelector_conjunction
      [of selector0 "env0\<lparr>LabelSelectorAsSelector := (\<lambda>_. Inr ''tier in (a,b)'')\<rparr>"]
    calculateLabelSelector_conjunction [of "selector0\<lparr>Selector := None\<rparr>" env0]
  by (simp add: selector0_def filter_term_def)

theorem select_resources_filter_witness:
  "result (select_resources env0 selector0
      [unstructured0, unstructured0\<lparr>ObjDeletionTimestamp := Some 5\<rparr>]) st0 = Inr [unstructured0]"
proof -
  have "result (isMatch env0 u selector0) t = Inr True" for u and t :: "(sveltos_cluster, call) st"
    by (simp add: isMatch_def env0_def)
  then show ?thesis
    using select_resources_filter [of env0 selector0 "\<lambda>_. True"
        "[unstructured0, unstructured0\<lparr>ObjDeletionTimestamp := Some 5\<rparr>]" st0]
    by (simp add: selector0_def unstructured0_def IsZero_def zeroTime_def)
qed

end
