(* ===== verification/Pause_Window.thy ===== *)
theory Pause_Window
  imports Sample Go_Sha256
begin

text \<open>
  The active window of a SveltosCluster (\<open>controllers/sveltoscluster_controller.go\<close>, from
  \<open>handleAutomaticPauseUnPause\<close> to \<open>getNextScheduleTime\<close>, and \<open>calculateActiveWindowHash\<close>):
  outside the window the cluster is paused.

  A cron expression is parsed by a library. Where a theorem needs to know what a parsed
  schedule does, it takes the set of its firing times and the hypothesis \<open>fires\<close>: \<open>Next t\<close> is the
  first firing time after \<open>t\<close>, as that library documents. A schedule fires in the zone of the
  time it is given: UTC for the times the code has stored or converted, the local zone for the
  creation time of the cluster.
\<close>

section \<open>Operations\<close>

definition calculateActiveWindowHash :: "active_window option \<Rightarrow> string" where
  "calculateActiveWindowHash activeWindow =
     (case activeWindow of None \<Rightarrow> [] | Some w \<Rightarrow> sha256_sum (From w @ To w))"

definition maxNumberOfFailures :: nat where "maxNumberOfFailures = 100"

definition too_many_missed :: goerr where
  "too_many_missed = errorf (''too many missed start times (> '' @ dec maxNumberOfFailures @
     ''). Set or check clock skew'')"

text \<open>The loop over the missed start times; it gives up after \<open>maxNumberOfFailures\<close> rounds.\<close>

function missed_starts :: "(gotime \<Rightarrow> gotime) \<Rightarrow> gotime \<Rightarrow> gotime \<Rightarrow> nat \<Rightarrow> goerr option" where
  "missed_starts next now t starts =
     (if t < now then
        if starts + 1 > maxNumberOfFailures then Some too_many_missed
        else missed_starts next now (next t) (starts + 1)
      else None)"
  by pat_completeness auto
termination
  by (relation "measure (\<lambda>(next, now, t, starts). maxNumberOfFailures - starts)") auto

declare missed_starts.simps [simp del]

definition getNextScheduleTime ::
    "env \<Rightarrow> string \<Rightarrow> zoned option \<Rightarrow> zoned \<Rightarrow> goerr + gotime" where
  "getNextScheduleTime E schedule lastRunTime now =
     (case cron_ParseStandard E schedule of
        Inl e \<Rightarrow> Inl (e\<lparr>Error := ''unparseable schedule '' @ quote schedule @ '': '' @ Error e\<rparr>)
      | Inr next \<Rightarrow>
          (case lastRunTime of
             None \<Rightarrow> Inl (errorf ''last run time must be specified'')
           | Some (z, lastRun) \<Rightarrow>
               (case missed_starts (next z) (snd now) (next z lastRun) 0 of
                  Some e \<Rightarrow> Inl e
                | None \<Rightarrow> Inr (next (fst now) (snd now)))))"

abbreviation upd_status :: "(cluster_status \<Rightarrow> cluster_status) \<Rightarrow> sveltos_cluster \<Rightarrow> sveltos_cluster" where
  "upd_status f c \<equiv> c\<lparr>Status := f (Status c)\<rparr>"

abbreviation upd_spec :: "(cluster_spec \<Rightarrow> cluster_spec) \<Rightarrow> sveltos_cluster \<Rightarrow> sveltos_cluster" where
  "upd_spec f c \<equiv> c\<lparr>Spec := f (Spec c)\<rparr>"

definition window_From :: "sveltos_cluster \<Rightarrow> string" where
  "window_From c = (case ActiveWindow (Spec c) of None \<Rightarrow> [] | Some w \<Rightarrow> From w)"

definition window_To :: "sveltos_cluster \<Rightarrow> string" where
  "window_To c = (case ActiveWindow (Spec c) of None \<Rightarrow> [] | Some w \<Rightarrow> To w)"

definition needs_recalculation :: "gotime \<Rightarrow> gotime option \<Rightarrow> bool" where
  "needs_recalculation currentTime t = (case t of None \<Rightarrow> True | Some x \<Rightarrow> currentTime > x)"

definition last_run :: "sveltos_cluster \<Rightarrow> gotime option \<Rightarrow> zoned" where
  "last_run c t = (case t of None \<Rightarrow> (LocalZone, CreationTimestamp c) | Some x \<Rightarrow> (UTC, x))"

definition recalculateNextUnpause ::
    "env \<Rightarrow> sveltos_cluster \<Rightarrow> gotime \<Rightarrow> goerr + sveltos_cluster" where
  "recalculateNextUnpause E c currentTime =
     (if needs_recalculation currentTime (NextUnpause (Status c)) then
        case getNextScheduleTime E (window_From c) (Some (last_run c (NextUnpause (Status c)))) (UTC, currentTime) of
          Inl e \<Rightarrow> Inl e
        | Inr t \<Rightarrow> Inr (upd_status (NextUnpause_update (\<lambda>_. Some t)) c)
      else Inr c)"

definition recalculateNextPause ::
    "env \<Rightarrow> sveltos_cluster \<Rightarrow> gotime \<Rightarrow> goerr + sveltos_cluster" where
  "recalculateNextPause E c currentTime =
     (if needs_recalculation currentTime (NextPause (Status c)) then
        case getNextScheduleTime E (window_To c) (Some (last_run c (NextPause (Status c)))) (UTC, currentTime) of
          Inl e \<Rightarrow> Inl e
        | Inr t \<Rightarrow> Inr (upd_status (NextPause_update (\<lambda>_. Some t)) c)
      else Inr c)"

text \<open>The part of the handler after the decision: both times, then the hash.\<close>

definition recalculate_window :: "env \<Rightarrow> gotime \<Rightarrow> string \<Rightarrow> sveltos_cluster \<Rightarrow> sveltos_cluster" where
  "recalculate_window E currentTime currentHash c =
     (case recalculateNextUnpause E c currentTime of
        Inl _ \<Rightarrow> c
      | Inr c1 \<Rightarrow>
          (case recalculateNextPause E c1 currentTime of
             Inl _ \<Rightarrow> c1
           | Inr c2 \<Rightarrow>
               if NextUnpause (Status c2) \<noteq> None \<and> NextPause (Status c2) \<noteq> None
               then upd_status (ActiveWindowHash_update (\<lambda>_. currentHash)) c2
               else c2))"

abbreviation set_paused :: "bool \<Rightarrow> sveltos_cluster \<Rightarrow> sveltos_cluster" where
  "set_paused b c \<equiv> upd_spec (Paused_update (\<lambda>_. b)) c"

abbreviation reset_times :: "sveltos_cluster \<Rightarrow> sveltos_cluster" where
  "reset_times c \<equiv>
     upd_status (NextPause_update (\<lambda>_. None)) (upd_status (NextUnpause_update (\<lambda>_. None)) c)"

text \<open>The decision once the stored times have been reset or kept.\<close>

definition decide_pause :: "env \<Rightarrow> gotime \<Rightarrow> string \<Rightarrow> bool \<Rightarrow> sveltos_cluster \<Rightarrow> sveltos_cluster" where
  "decide_pause E currentTime currentHash forceRecalculate c =
     (case (NextUnpause (Status c), NextPause (Status c)) of
        (Some u, Some p) \<Rightarrow>
          if currentTime > u \<and> currentTime < p then set_paused False c
          else if currentTime < u then set_paused True c
          else if currentTime > p then recalculate_window E currentTime currentHash (set_paused True c)
          else if currentTime < p then
            if \<not> forceRecalculate then c else recalculate_window E currentTime currentHash c
          else recalculate_window E currentTime currentHash c
      | _ \<Rightarrow> recalculate_window E currentTime currentHash (set_paused True c))"

definition handleAutomaticPauseUnPause ::
    "env \<Rightarrow> gotime \<Rightarrow> sveltos_cluster \<Rightarrow> sveltos_cluster" where
  "handleAutomaticPauseUnPause E currentTime c =
     (if ActiveWindow (Spec c) = None then reset_times c
      else
        let currentHash = calculateActiveWindowHash (ActiveWindow (Spec c));
            forceRecalculate = (ActiveWindowHash (Status c) \<noteq> currentHash)
        in decide_pause E currentTime currentHash forceRecalculate
             (if forceRecalculate then reset_times c else c))"

section \<open>The schedule loop\<close>

lemma missed_starts_iff:
  assumes "starts \<le> maxNumberOfFailures"
  shows "missed_starts nxt now t starts = None \<longleftrightarrow>
     (\<exists>k. starts + k \<le> maxNumberOfFailures \<and> \<not> (nxt ^^ k) t < now)"
  using assms
proof (induction nxt now t starts rule: missed_starts.induct)
  case (1 nxt now t starts)
  show ?case
  proof (cases "t < now \<and> starts + 1 \<le> maxNumberOfFailures")
    case False
    with "1.prems" show ?thesis
      by (subst missed_starts.simps) (auto intro: exI [of _ 0] simp: not_less_eq_eq)
  next
    case True
    have "(\<exists>k. starts + 1 + k \<le> maxNumberOfFailures \<and> \<not> (nxt ^^ k) (nxt t) < now) \<longleftrightarrow>
        (\<exists>k. starts + k \<le> maxNumberOfFailures \<and> \<not> (nxt ^^ k) t < now)" (is "?L = ?R")
    proof
      assume ?L
      then obtain k where "starts + 1 + k \<le> maxNumberOfFailures" "\<not> (nxt ^^ k) (nxt t) < now" by blast
      then show ?R by (intro exI [of _ "Suc k"]) (simp add: funpow_swap1)
    next
      assume ?R
      then obtain k where k: "starts + k \<le> maxNumberOfFailures" "\<not> (nxt ^^ k) t < now" by blast
      with True obtain j where "k = Suc j" by (cases k) auto
      with k show ?L by (intro exI [of _ j]) (simp add: funpow_swap1)
    qed
    with True "1.IH" show ?thesis by (subst missed_starts.simps) simp
  qed
qed

lemma missed_starts_Some: "missed_starts nxt now t starts = Some e \<Longrightarrow> e = too_many_missed"
proof (induction nxt now t starts rule: missed_starts.induct)
  case (1 nxt now t starts)
  then show ?case
    using missed_starts.simps [of nxt now t starts] by (simp split: if_splits)
qed

text \<open>\<open>Next t\<close> is the first firing time after \<open>t\<close>.\<close>

definition fires :: "gotime set \<Rightarrow> (gotime \<Rightarrow> gotime) \<Rightarrow> bool" where
  "fires F nxt \<longleftrightarrow> (\<forall>t. nxt t \<in> F \<and> t < nxt t \<and> (\<forall>u\<in>F. t < u \<longrightarrow> nxt t \<le> u))"

lemma firesD:
  assumes "fires F nxt"
  shows "nxt t \<in> F" "t < nxt t" "u \<in> F \<Longrightarrow> t < u \<Longrightarrow> nxt t \<le> u"
  using assms by (auto simp: fires_def)

lemma fires_next_eq: "fires F nxt \<Longrightarrow> t \<le> t' \<Longrightarrow> t' < nxt t \<Longrightarrow> nxt t' = nxt t"
proof (rule antisym)
  assume a: "fires F nxt" "t \<le> t'" "t' < nxt t"
  show "nxt t' \<le> nxt t" using a by (intro firesD(3) [OF a(1)] firesD(1) [OF a(1)])
  have "t < nxt t'" using firesD(2) [OF a(1), of t'] a(2) by linarith
  then show "nxt t \<le> nxt t'" by (intro firesD(3) [OF a(1)] firesD(1) [OF a(1)])
qed

lemma fires_first:
  assumes "fires F nxt"
  shows "{u \<in> F. t < u \<and> u < now} =
    (if nxt t < now then insert (nxt t) {u \<in> F. nxt t < u \<and> u < now} else {})"
proof -
  have "u \<in> F \<Longrightarrow> t < u \<longleftrightarrow> nxt t \<le> u" for u
    using firesD(2) [OF assms, of t] firesD(3) [OF assms, of u t] less_le_trans by blast
  then have "{u \<in> F. t < u \<and> u < now} = {u \<in> F. nxt t \<le> u \<and> u < now}" by blast
  also have "\<dots> = (if nxt t < now then insert (nxt t) {u \<in> F. nxt t < u \<and> u < now} else {})"
    using firesD(1) [OF assms, of t] by (simp add: set_eq_iff le_less) (meson less_trans)
  finally show ?thesis .
qed

lemma fires_funpow_ge: "fires F nxt \<Longrightarrow> \<not> t < now \<Longrightarrow> \<not> (nxt ^^ n) t < now"
proof (induction n)
  case (Suc n)
  then show ?case using firesD(2) [of F nxt "(nxt ^^ n) t"] by simp
qed simp

text \<open>
  With at most \<open>n\<close> firing times strictly between the last run and now, the \<open>n\<close>-th iterate
  of \<open>Next\<close> has reached now, and conversely.
\<close>

lemma fires_iterate:
  assumes "fires F nxt"
  shows "\<not> (nxt ^^ n) (nxt t) < now \<longleftrightarrow>
    finite {u \<in> F. t < u \<and> u < now} \<and> card {u \<in> F. t < u \<and> u < now} \<le> n"
proof (induction n arbitrary: t)
  case 0
  show ?case
    using fires_first [OF assms, of t now] by (auto simp: card_eq_0_iff)
next
  case (Suc n)
  let ?S = "{u \<in> F. nxt t < u \<and> u < now}"
  show ?case
  proof (cases "nxt t < now")
    case True
    then have "{u \<in> F. t < u \<and> u < now} = insert (nxt t) ?S" "nxt t \<notin> ?S"
      using fires_first [OF assms, of t now] by auto
    with Suc.IH [of "nxt t"] show ?thesis by (simp add: funpow_swap1)
  next
    case False
    then have "\<not> (nxt ^^ Suc n) (nxt t) < now"
      by (rule fires_funpow_ge [OF assms])
    moreover have "{u \<in> F. t < u \<and> u < now} = {}"
      using False fires_first [OF assms, of t now] by simp
    ultimately show ?thesis by (simp only: card.empty finite.emptyI) simp
  qed
qed

lemma getNextScheduleTime_eq:
  assumes "cron_ParseStandard E schedule = Inr nxt" and "fires F (nxt z)"
  shows "getNextScheduleTime E schedule (Some (z, lastRun)) (z', now) =
    (if finite {u \<in> F. lastRun < u \<and> u < now} \<and> card {u \<in> F. lastRun < u \<and> u < now} \<le> 100
     then Inr (nxt z' now) else Inl too_many_missed)"
proof -
  let ?n = "nxt z"
  have "missed_starts ?n now (?n lastRun) 0 = None \<longleftrightarrow> \<not> (?n ^^ 100) (?n lastRun) < now"
  proof -
    have mono: "\<not> (?n ^^ k) (?n lastRun) < now \<Longrightarrow> \<not> (?n ^^ (j + k)) (?n lastRun) < now" for j k
      using fires_funpow_ge [OF assms(2), of "(?n ^^ k) (?n lastRun)" now j]
      by (simp add: funpow_add)
    show ?thesis
    proof
      assume "missed_starts ?n now (?n lastRun) 0 = None"
      then obtain k where "k \<le> 100" "\<not> (?n ^^ k) (?n lastRun) < now"
        by (auto simp: missed_starts_iff maxNumberOfFailures_def)
      with mono [of k "100 - k"] show "\<not> (?n ^^ 100) (?n lastRun) < now" by simp
    qed (auto simp: missed_starts_iff maxNumberOfFailures_def intro: exI [of _ 100])
  qed
  then show ?thesis
    unfolding fires_iterate [OF assms(2)]
    using missed_starts_Some [of ?n now "?n lastRun" 0]
    by (auto simp: getNextScheduleTime_def assms(1) split: option.splits)
qed

text \<open>
  C18: for a schedule that parses and fires as the cron library documents, the next schedule time is its
  next firing time after \<open>now\<close>, and it is found exactly when at most 100 firing times, in the zone
  of the last run, lie strictly between the last run and \<open>now\<close>; otherwise the
  too-many-missed-start-times error is returned.
\<close>

theorem getNextScheduleTime_spec:
  assumes "cron_ParseStandard E schedule = Inr nxt" and "fires F (nxt z)"
  shows "getNextScheduleTime E schedule (Some (z, lastRun)) (z', now) =
    (if finite {u \<in> F. lastRun < u \<and> u < now} \<and> card {u \<in> F. lastRun < u \<and> u < now} \<le> 100
     then Inr (nxt z' now) else Inl too_many_missed)"
  by (rule getNextScheduleTime_eq [OF assms])

section \<open>The pause decision\<close>

definition window_ready :: "active_window \<Rightarrow> sveltos_cluster \<Rightarrow> bool" where
  "window_ready w c \<longleftrightarrow> ActiveWindow (Spec c) = Some w \<and>
     ActiveWindowHash (Status c) = calculateActiveWindowHash (Some w)"

lemma handle_in_window:
  assumes "window_ready w c" "NextUnpause (Status c) = Some u" "NextPause (Status c) = Some p"
    and "u < t" "t < p"
  shows "handleAutomaticPauseUnPause E t c = set_paused False c"
  using assms by (simp add: handleAutomaticPauseUnPause_def decide_pause_def window_ready_def Let_def)

lemma handle_before_window:
  assumes "window_ready w c" "NextUnpause (Status c) = Some u" "NextPause (Status c) = Some p"
    and "t < u"
  shows "handleAutomaticPauseUnPause E t c = set_paused True c"
  using assms by (simp add: handleAutomaticPauseUnPause_def decide_pause_def window_ready_def Let_def)

lemma handle_at_opening:
  assumes "window_ready w c" "NextUnpause (Status c) = Some u" "NextPause (Status c) = Some p"
    and "t = u" "t < p"
  shows "handleAutomaticPauseUnPause E t c = c"
  using assms by (simp add: handleAutomaticPauseUnPause_def decide_pause_def window_ready_def Let_def)

lemma handle_after_window:
  assumes "window_ready w c" "NextUnpause (Status c) = Some u" "NextPause (Status c) = Some p"
    and "u \<le> t" "p < t"
  shows "handleAutomaticPauseUnPause E t c =
    recalculate_window E t (calculateActiveWindowHash (Some w)) (set_paused True c)"
  using assms by (simp add: handleAutomaticPauseUnPause_def decide_pause_def window_ready_def Let_def)

lemma handle_new_window:
  assumes "ActiveWindow (Spec c) = Some w" "ActiveWindowHash (Status c) \<noteq> calculateActiveWindowHash (Some w)"
  shows "handleAutomaticPauseUnPause E t c =
    recalculate_window E t (calculateActiveWindowHash (Some w)) (set_paused True (reset_times c))"
  using assms by (simp add: handleAutomaticPauseUnPause_def decide_pause_def Let_def)

lemma needs_recalculation_simps [simp]:
  "needs_recalculation t None" "needs_recalculation t (Some x) \<longleftrightarrow> x < t"
  by (simp_all add: needs_recalculation_def)

lemma last_run_simps [simp]: "last_run c None = (LocalZone, CreationTimestamp c)" "last_run c (Some x) = (UTC, x)"
  by (simp_all add: last_run_def)

lemma getNextScheduleTime_prompt:
  assumes "cron_ParseStandard E schedule = Inr nxt" "\<not> nxt z l < t"
  shows "getNextScheduleTime E schedule (Some (z, l)) (z', t) = Inr (nxt z' t)"
  using assms by (simp add: getNextScheduleTime_def missed_starts.simps)

lemma window_simps [simp]:
  "ActiveWindow (Spec c) = Some w \<Longrightarrow> window_From c = From w"
  "ActiveWindow (Spec c) = Some w \<Longrightarrow> window_To c = To w"
  by (simp_all add: window_From_def window_To_def)

text \<open>What a recalculation leaves when both schedules give a time.\<close>

lemma recalculate_window_both:
  assumes "ActiveWindow (Spec c) = Some w"
    and "needs_recalculation t (NextUnpause (Status c))" "needs_recalculation t (NextPause (Status c))"
    and "getNextScheduleTime E (From w) (Some (last_run c (NextUnpause (Status c)))) (UTC, t) = Inr u"
    and "getNextScheduleTime E (To w) (Some (last_run c (NextPause (Status c)))) (UTC, t) = Inr p"
  shows "recalculate_window E t h c =
    c\<lparr>Status := (Status c)\<lparr>NextUnpause := Some u, NextPause := Some p, ActiveWindowHash := h\<rparr>\<rparr>"
proof -
  let ?c = "upd_status (NextUnpause_update (\<lambda>_. Some u)) c"
  have "window_To ?c = To w" "last_run ?c (NextPause (Status c)) = last_run c (NextPause (Status c))"
    using assms(1) by (simp_all add: last_run_def split: option.split)
  with assms show ?thesis
    by (simp add: recalculate_window_def recalculateNextUnpause_def recalculateNextPause_def)
qed

section \<open>Following the window over a run of reconciliations\<close>

text \<open>
  Opening and closing times alternate. The window is open when the next event is a closing.
\<close>

definition alternating ::
    "gotime set \<Rightarrow> (gotime \<Rightarrow> gotime) \<Rightarrow> gotime set \<Rightarrow> (gotime \<Rightarrow> gotime) \<Rightarrow> bool" where
  "alternating F nF T nT \<longleftrightarrow> fires F nF \<and> fires T nT \<and>
     (\<forall>u\<in>F. nT u < nF u) \<and> (\<forall>p\<in>T. nF p < nT p)"

definition window_open :: "(gotime \<Rightarrow> gotime) \<Rightarrow> (gotime \<Rightarrow> gotime) \<Rightarrow> gotime \<Rightarrow> bool" where
  "window_open nF nT t \<longleftrightarrow> nT t < nF t"

text \<open>
  The times of successive runs of the handler. With \<open>S\<close> the closing times and \<open>n\<close> the next
  opening, \<open>attentive\<close> says that no run jumps over a whole closed period (and none falls on a
  closing time to the nanosecond); with the roles exchanged, that none jumps over a whole
  open period.
\<close>

fun attentive :: "gotime set \<Rightarrow> (gotime \<Rightarrow> gotime) \<Rightarrow> gotime \<Rightarrow> gotime list \<Rightarrow> bool" where
  "attentive S n t [] = True"
| "attentive S n t (t' # ts) =
     (t \<le> t' \<and> t' \<notin> S \<and> (\<forall>p\<in>S. t \<le> p \<longrightarrow> t' < n p) \<and> attentive S n t' ts)"

definition window_run :: "env \<Rightarrow> sveltos_cluster \<Rightarrow> gotime list \<Rightarrow> sveltos_cluster" where
  "window_run E c ts = foldl (\<lambda>c t. handleAutomaticPauseUnPause E t c) c ts"

lemma window_run_simps [simp]:
  "window_run E c [] = c"
  "window_run E c (t # ts) = window_run E (handleAutomaticPauseUnPause E t c) ts"
  by (simp_all add: window_run_def)

definition on_track ::
    "active_window \<Rightarrow> gotime set \<Rightarrow> (gotime \<Rightarrow> gotime) \<Rightarrow> (gotime \<Rightarrow> gotime) \<Rightarrow> gotime \<Rightarrow>
     sveltos_cluster \<Rightarrow> bool" where
  "on_track w F nF nT t c \<longleftrightarrow> window_ready w c \<and>
     (\<exists>u\<in>F. NextUnpause (Status c) = Some u \<and> NextPause (Status c) = Some (nT u) \<and>
        (t < u \<and> nF t = u \<and> u < nT t \<or> u \<le> t \<and> t < nT u))"

definition off_track ::
    "active_window \<Rightarrow> gotime set \<Rightarrow> (gotime \<Rightarrow> gotime) \<Rightarrow> gotime \<Rightarrow> sveltos_cluster \<Rightarrow> bool" where
  "off_track w T nF t c \<longleftrightarrow> window_ready w c \<and>
     (\<exists>p\<in>T. NextPause (Status c) = Some p \<and> NextUnpause (Status c) = Some (nF p) \<and> t < nF p)"

lemma alternatingD:
  assumes "alternating F nF T nT"
  shows "fires F nF" "fires T nT" "u \<in> F \<Longrightarrow> nT u < nF u" "p \<in> T \<Longrightarrow> nF p < nT p"
  using assms by (auto simp: alternating_def)

lemma alternating_swap: "alternating F nF T nT \<Longrightarrow> alternating T nT F nF"
  by (auto simp: alternating_def)

lemma alternating_neq: "alternating F nF T nT \<Longrightarrow> nF t \<noteq> nT t"
  using firesD(1) [of F nF t] firesD(1) [of T nT t] by (fastforce simp: alternating_def)

text \<open>Within an open period both schedules are known from its opening time.\<close>

lemma within_period:
  assumes "alternating F nF T nT" "u \<in> F" "u \<le> t" "t < nT u"
  shows "nT t = nT u" "nF t = nF u" "nT t < nF t" "nT (nF u) = nT (nT u)" "nF (nT u) = nF u"
proof -
  note a = alternatingD [OF assms(1)]
  have lt: "nT u < nF u" by (rule a(3)) fact
  have p: "nT u \<in> T" by (rule firesD(1) [OF a(2)])
  show "nT t = nT u" using assms by (intro fires_next_eq [OF a(2)])
  moreover show "nF t = nF u" using assms lt by (intro fires_next_eq [OF a(1)]) auto
  ultimately show "nT t < nF t" using lt by simp
  show eq: "nF (nT u) = nF u"
    using lt firesD(2) [OF a(2), of u] by (intro fires_next_eq [OF a(1)]) auto
  show "nT (nF u) = nT (nT u)"
    using a(4) [OF p] lt by (intro fires_next_eq [OF a(2)]) (auto simp: eq)
qed

text \<open>The two schedules of a window, as they fire in UTC.\<close>

definition schedules :: "env \<Rightarrow> active_window \<Rightarrow> (gotime \<Rightarrow> gotime) \<Rightarrow> (gotime \<Rightarrow> gotime) \<Rightarrow> bool" where
  "schedules E w nF nT \<longleftrightarrow>
     (case (cron_ParseStandard E (From w), cron_ParseStandard E (To w)) of
        (Inr cF, Inr cT) \<Rightarrow> cF UTC = nF \<and> cT UTC = nT | _ \<Rightarrow> False)"

lemma schedulesE:
  assumes "schedules E w nF nT"
  obtains cF cT where "cron_ParseStandard E (From w) = Inr cF" "cron_ParseStandard E (To w) = Inr cT"
    "nF = cF UTC" "nT = cT UTC"
  using assms by (auto simp: schedules_def split: sum.splits)

text \<open>Past both stored times, the next opening and the next closing are stored.\<close>

lemma recalculate_after_window:
  assumes "window_ready w c" "NextUnpause (Status c) = Some u" "NextPause (Status c) = Some p"
    and "u < t" "p < t"
    and "schedules E w nF nT"
    and "\<not> nF u < t" "\<not> nT p < t"
  shows "handleAutomaticPauseUnPause E t c = set_paused True
    (c\<lparr>Status := (Status c)\<lparr>NextUnpause := Some (nF t), NextPause := Some (nT t)\<rparr>\<rparr>)"
proof -
  obtain cF cT where parse: "cron_ParseStandard E (From w) = Inr cF" "cron_ParseStandard E (To w) = Inr cT"
    "nF = cF UTC" "nT = cT UTC"
    using assms(6) by (rule schedulesE)
  have g: "getNextScheduleTime E (From w) (Some (UTC, u)) (UTC, t) = Inr (nF t)"
    "getNextScheduleTime E (To w) (Some (UTC, p)) (UTC, t) = Inr (nT t)"
    using assms(7,8) getNextScheduleTime_prompt [OF parse(1), of UTC u t UTC]
      getNextScheduleTime_prompt [OF parse(2), of UTC p t UTC] by (simp_all add: parse(3,4))
  have w: "ActiveWindow (Spec (set_paused True c)) = Some w"
    "ActiveWindowHash (Status c) = calculateActiveWindowHash (Some w)"
    using assms(1) by (simp_all add: window_ready_def)
  have "handleAutomaticPauseUnPause E t c =
      recalculate_window E t (calculateActiveWindowHash (Some w)) (set_paused True c)"
    using assms(4,5) by (intro handle_after_window [OF assms(1-3)]) simp_all
  also have "\<dots> = (set_paused True c)\<lparr>Status := (Status (set_paused True c))
      \<lparr>NextUnpause := Some (nF t), NextPause := Some (nT t),
       ActiveWindowHash := calculateActiveWindowHash (Some w)\<rparr>\<rparr>"
    using assms(2-5) w g by (intro recalculate_window_both) simp_all
  finally show ?thesis using w by simp
qed

lemma on_track_step:
  assumes alt: "alternating F nF T nT"
    and parse: "schedules E w nF nT"
    and inv: "on_track w F nF nT t c"
    and att: "t \<le> t'" "t' \<notin> T" "\<And>p. p \<in> T \<Longrightarrow> t \<le> p \<Longrightarrow> t' < nF p"
  shows "on_track w F nF nT t' (handleAutomaticPauseUnPause E t' c) \<and>
    (t' \<notin> F \<longrightarrow> (Paused (Spec (handleAutomaticPauseUnPause E t' c)) \<longleftrightarrow> \<not> window_open nF nT t'))"
proof -
  note a = alternatingD [OF alt]
  from inv obtain u where u: "window_ready w c" "u \<in> F" "NextUnpause (Status c) = Some u"
    "NextPause (Status c) = Some (nT u)" "t < u \<and> nF t = u \<and> u < nT t \<or> u \<le> t \<and> t < nT u"
    by (auto simp: on_track_def)
  have p: "nT u \<in> T" "u < nT u" "nT u < nF u" using firesD [OF a(2)] a(3) u(2) by auto
  from p(1) att(2) consider "t' < u" | "t' = u" | "u < t'" "t' < nT u" | "nT u < t'"
    by (metis linorder_less_linear)
  then show ?thesis
  proof cases
    case 1
    then have "nF t' = u" "nT t' = nT t" "u < nT t"
      using u(5) att(1) by (auto intro: fires_next_eq [OF a(1)] fires_next_eq [OF a(2)])
    with 1 u show ?thesis
      by (auto simp: handle_before_window [OF u(1,3,4)] on_track_def window_ready_def window_open_def)
  next
    case 2
    then have "handleAutomaticPauseUnPause E t' c = c"
      using handle_at_opening [OF u(1,3,4)] p(2) by simp
    with 2 u p show ?thesis by (auto simp: on_track_def)
  next
    case 3
    then have "handleAutomaticPauseUnPause E t' c = set_paused False c"
      using handle_in_window [OF u(1,3,4)] by simp
    with 3 u within_period(3) [OF alt u(2) _ 3(2)] show ?thesis
      by (auto simp: on_track_def window_ready_def window_open_def)
  next
    case 4
    have "t \<le> nT u" using u(5) p(2) by linarith
    then have next_open: "t' < nF (nT u)" using att(3) [OF p(1)] by simp
    have eqs: "nF (nT u) = nF u" "nT (nF u) = nT (nT u)"
      using within_period [OF alt u(2) order_refl p(2)] by auto
    have new: "nF t' = nF u" "nT t' = nT (nT u)" "nF u < nT (nT u)"
      using 4 next_open eqs a(4) [OF p(1)]
      by (auto intro!: fires_next_eq [OF a(2)] simp: fires_next_eq [OF a(1), of "nT u" t'])
    have "handleAutomaticPauseUnPause E t' c = set_paused True
        (c\<lparr>Status := (Status c)\<lparr>NextUnpause := Some (nF t'), NextPause := Some (nT t')\<rparr>\<rparr>)"
      using 4 p next_open eqs new by (intro recalculate_after_window [OF u(1,3,4) _ _ parse]) auto
    then show ?thesis
      using u(1) new next_open eqs firesD(1) [OF a(1), of u]
      by (auto simp: on_track_def window_ready_def window_open_def)
  qed
qed

lemma off_track_step:
  assumes alt: "alternating F nF T nT"
    and parse: "schedules E w nF nT"
    and inv: "off_track w T nF t c"
    and att: "t \<le> t'" "t' \<notin> F" "\<And>u. u \<in> F \<Longrightarrow> t \<le> u \<Longrightarrow> t' < nT u"
  shows "off_track w T nF t' (handleAutomaticPauseUnPause E t' c) \<and>
    Paused (Spec (handleAutomaticPauseUnPause E t' c))"
proof -
  note a = alternatingD [OF alt]
  from inv obtain p where p: "window_ready w c" "p \<in> T" "NextUnpause (Status c) = Some (nF p)"
    "NextPause (Status c) = Some p" "t < nF p"
    by (auto simp: off_track_def)
  have u: "nF p \<in> F" "p < nF p" "nF p < nT p" using firesD [OF a(1)] a(4) p(2) by auto
  from u(1) att(2) consider "t' < nF p" | "nF p < t'" by (metis linorder_less_linear)
  then show ?thesis
  proof cases
    case 1
    with p show ?thesis
      by (auto simp: handle_before_window [OF p(1,3,4)] off_track_def window_ready_def)
  next
    case 2
    have close: "t' < nT (nF p)" using att(3) [OF u(1)] p(5) by simp
    have eqs: "nT (nF p) = nT p" "nF (nT p) = nF (nF p)"
      using within_period [OF alternating_swap [OF alt] p(2) order_refl u(2)] by auto
    have new: "nT t' = nT p" "nF t' = nF (nF p)" "nT p < nF (nF p)"
      using 2 close eqs a(3) [OF u(1)]
      by (auto intro!: fires_next_eq [OF a(1)] simp: fires_next_eq [OF a(2), of "nF p" t'])
    have "handleAutomaticPauseUnPause E t' c = set_paused True
        (c\<lparr>Status := (Status c)\<lparr>NextUnpause := Some (nF t'), NextPause := Some (nT t')\<rparr>\<rparr>)"
      using 2 u close eqs new by (intro recalculate_after_window [OF p(1,3,4) _ _ parse]) auto
    then show ?thesis
      using p(1) new close eqs firesD(1) [OF a(2), of p]
      by (auto simp: off_track_def window_ready_def)
  qed
qed

text \<open>
  A window that is new to the cluster, with few firing times, in local time, since the cluster
  was created.
\<close>

definition few_missed :: "env \<Rightarrow> string \<Rightarrow> gotime \<Rightarrow> gotime \<Rightarrow> bool" where
  "few_missed E schedule created t \<longleftrightarrow>
     (case cron_ParseStandard E schedule of
        Inl _ \<Rightarrow> False
      | Inr nxt \<Rightarrow> \<not> (nxt LocalZone ^^ 100) (nxt LocalZone created) < t)"

lemma few_missed_next:
  assumes "few_missed E schedule created t" "cron_ParseStandard E schedule = Inr nxt"
  shows "getNextScheduleTime E schedule (Some (LocalZone, created)) (UTC, t) = Inr (nxt UTC t)"
  using assms
  by (auto simp: few_missed_def getNextScheduleTime_def missed_starts_iff maxNumberOfFailures_def
      split: option.split intro!: exI [of _ 100] dest!: sym [of "missed_starts _ _ _ _"])

definition fresh_window ::
    "env \<Rightarrow> active_window \<Rightarrow> (gotime \<Rightarrow> gotime) \<Rightarrow> (gotime \<Rightarrow> gotime) \<Rightarrow> gotime \<Rightarrow>
     sveltos_cluster \<Rightarrow> bool" where
  "fresh_window E w nF nT t c \<longleftrightarrow>
     ActiveWindow (Spec c) = Some w \<and>
     ActiveWindowHash (Status c) \<noteq> calculateActiveWindowHash (Some w) \<and>
     schedules E w nF nT \<and>
     few_missed E (From w) (CreationTimestamp c) t \<and> few_missed E (To w) (CreationTimestamp c) t"

lemma fresh_window_first:
  assumes "alternating F nF T nT" "fresh_window E w nF nT t c"
  shows "handleAutomaticPauseUnPause E t c = set_paused True
    (c\<lparr>Status := (Status c)\<lparr>NextUnpause := Some (nF t), NextPause := Some (nT t),
       ActiveWindowHash := calculateActiveWindowHash (Some w)\<rparr>\<rparr>)"
proof -
  note a = alternatingD [OF assms(1)]
  note f = assms(2) [unfolded fresh_window_def]
  let ?c = "set_paused True (reset_times c)"
  from f obtain cF cT where "cron_ParseStandard E (From w) = Inr cF" "cron_ParseStandard E (To w) = Inr cT"
    "nF = cF UTC" "nT = cT UTC" by (blast elim: schedulesE)
  with f have g: "getNextScheduleTime E (From w) (Some (LocalZone, CreationTimestamp c)) (UTC, t) = Inr (nF t)"
    "getNextScheduleTime E (To w) (Some (LocalZone, CreationTimestamp c)) (UTC, t) = Inr (nT t)"
    by (simp_all add: few_missed_next)
  have "handleAutomaticPauseUnPause E t c = recalculate_window E t (calculateActiveWindowHash (Some w)) ?c"
    using f by (intro handle_new_window) auto
  also have "\<dots> = ?c\<lparr>Status := (Status ?c)\<lparr>NextUnpause := Some (nF t), NextPause := Some (nT t),
      ActiveWindowHash := calculateActiveWindowHash (Some w)\<rparr>\<rparr>"
    using f g by (intro recalculate_window_both) simp_all
  finally show ?thesis by simp
qed

lemma on_track_run:
  assumes "alternating F nF T nT"
    and "schedules E w nF nT"
    and "on_track w F nF nT t c" "attentive T nF t ts" "ts \<noteq> []" "last ts \<notin> F"
  shows "Paused (Spec (window_run E c ts)) \<longleftrightarrow> \<not> window_open nF nT (last ts)"
  using assms(3-6)
proof (induction ts arbitrary: t c)
  case (Cons t' ts)
  then have "on_track w F nF nT t' (handleAutomaticPauseUnPause E t' c) \<and>
      (t' \<notin> F \<longrightarrow> (Paused (Spec (handleAutomaticPauseUnPause E t' c)) \<longleftrightarrow> \<not> window_open nF nT t'))"
    by (intro on_track_step [OF assms(1,2)]) auto
  with Cons show ?case by (cases "ts = []") auto
qed simp

lemma off_track_run:
  assumes "alternating F nF T nT"
    and "schedules E w nF nT"
    and "off_track w T nF t c" "attentive F nT t ts" "ts \<noteq> []"
  shows "Paused (Spec (window_run E c ts))"
  using assms(3-5)
proof (induction ts arbitrary: t c)
  case (Cons t' ts)
  then have "off_track w T nF t' (handleAutomaticPauseUnPause E t' c) \<and>
      Paused (Spec (handleAutomaticPauseUnPause E t' c))"
    by (intro off_track_step [OF assms(1,2)]) auto
  with Cons show ?case by (cases "ts = []") auto
qed simp

text \<open>
  C4: take a window whose two schedules parse, fire as the cron library documents, and have openings and
  closings that strictly alternate, each
  schedule having fired at most 100 times, in local time, between the creation of the cluster and
  the first run of the pause handler with this window (its hash is not stored yet), and let that first run
  fall outside the window. Then the window is followed exactly: after every run of the handler, however
  long the sequence, the cluster is unpaused if the run fell inside the window and paused if it fell
  outside. The runs are in the order of time, none after the first falls on a closing time, none jumps
  from before a closing to the next opening or beyond, and the run looked at does not fall on an
  opening time.
\<close>

theorem pause_follows_window:
  assumes "alternating F nF T nT" and "fresh_window E w nF nT t c"
    and "\<not> window_open nF nT t"
    and "attentive T nF t ts" and "last (t # ts) \<notin> F"
  shows "Paused (Spec (window_run E c (t # ts))) \<longleftrightarrow> \<not> window_open nF nT (last (t # ts))"
proof -
  note a = alternatingD [OF assms(1)]
  let ?c = "handleAutomaticPauseUnPause E t c"
  have lt: "nF t < nT t"
    using assms(3) alternating_neq [OF assms(1), of t] by (simp add: window_open_def)
  have eq: "nT (nF t) = nT t"
    using lt firesD(2) [OF a(1), of t] by (intro fires_next_eq [OF a(2)]) auto
  have "on_track w F nF nT t ?c"
    using lt eq firesD(1,2) [OF a(1), of t] assms(2)
    by (auto simp: fresh_window_first [OF assms(1,2)] on_track_def window_ready_def fresh_window_def)
  moreover have "Paused (Spec ?c)" by (simp add: fresh_window_first [OF assms(1,2)])
  ultimately show ?thesis
    using assms on_track_run [OF assms(1)] by (cases "ts = []") (auto simp: fresh_window_def)
qed

text \<open>
  C11: take a window whose two schedules parse, fire as the cron library documents, and have openings and
  closings that strictly alternate, each
  schedule having fired at most 100 times, in local time, between the creation of the cluster and
  the first run of the pause handler with this window (its hash is not stored yet), and let that first run
  fall inside the window. Then the window is never entered: the closing time is computed before the opening
  time, and the cluster is paused after every run of the handler, inside later windows too. The runs
  are in the order of time, none after the first falls on an opening time, and none jumps from before an
  opening to the next closing or beyond.
\<close>

theorem open_window_never_entered:
  assumes "alternating F nF T nT" and "fresh_window E w nF nT t c"
    and "window_open nF nT t" and "attentive F nT t ts"
  shows "Paused (Spec (window_run E c (t # ts)))"
proof -
  note a = alternatingD [OF assms(1)]
  let ?c = "handleAutomaticPauseUnPause E t c"
  have lt: "nT t < nF t" using assms(3) by (simp add: window_open_def)
  have eq: "nF (nT t) = nF t"
    using lt firesD(2) [OF a(2), of t] by (intro fires_next_eq [OF a(1)]) auto
  have "off_track w T nF t ?c"
    using lt eq firesD(1,2) [OF a(2), of t] assms(2)
    by (auto simp: fresh_window_first [OF assms(1,2)] off_track_def window_ready_def fresh_window_def)
  moreover have "Paused (Spec ?c)" by (simp add: fresh_window_first [OF assms(1,2)])
  ultimately show ?thesis
    using assms off_track_run [OF assms(1)] by (cases "ts = []") (auto simp: fresh_window_def)
qed

text \<open>Until the stored closing time a cluster whose hash matches keeps its times and its hash.\<close>

lemma window_ready_kept:
  assumes "window_ready w c" "NextUnpause (Status c) = Some u" "NextPause (Status c) = Some p" "t < p"
  shows "handleAutomaticPauseUnPause E t c = (if t = u then c else set_paused (t < u) c)"
  using assms by (auto simp: handleAutomaticPauseUnPause_def decide_pause_def window_ready_def Let_def)

lemma window_run_ready:
  assumes "window_ready w c" "NextUnpause (Status c) = Some u" "NextPause (Status c) = Some p"
    and "\<forall>t\<in>set ts. t < p"
  shows "window_run E c ts = foldl (\<lambda>c t. if t = u then c else set_paused (t < u) c) c ts"
  using assms
proof (induction ts arbitrary: c)
  case (Cons t ts)
  let ?c = "if t = u then c else set_paused (t < u) c"
  have "window_ready w ?c" "NextUnpause (Status ?c) = Some u" "NextPause (Status ?c) = Some p"
    using Cons.prems by (simp_all add: window_ready_def)
  with Cons show ?case by (simp add: window_ready_kept)
qed simp

text \<open>
  C27: the hash that tells whether the window was edited is taken over the two schedules without
  a separator, so an edit that moves the border between them is not seen: until the closing time
  stored for the old window, every reconciliation pauses and unpauses the cluster at the times of the
  old window, exactly as if it had not been edited.
\<close>

theorem moved_border_not_seen:
  fixes c :: sveltos_cluster and w' :: active_window
  assumes "window_ready w c" "NextUnpause (Status c) = Some u" "NextPause (Status c) = Some p"
    and "From w' @ To w' = From w @ To w" "\<forall>t\<in>set ts. t < p"
  defines "edit \<equiv> upd_spec (ActiveWindow_update (\<lambda>_. Some w'))"
  shows "window_run E (edit c) ts = edit (window_run E c ts)"
proof -
  have "calculateActiveWindowHash (Some w') = calculateActiveWindowHash (Some w)"
    using assms(4) by (simp add: calculateActiveWindowHash_def)
  then have "window_ready w' (edit c)" "NextUnpause (Status (edit c)) = Some u" "NextPause (Status (edit c)) = Some p"
    using assms(1-3) by (simp_all add: window_ready_def edit_def)
  note runs = window_run_ready [OF this assms(5)] window_run_ready [OF assms(1-3,5)]
  have step: "(if t = u then edit c else set_paused (t < u) (edit c)) = edit (if t = u then c else set_paused (t < u) c)"
    for t c by (simp add: edit_def)
  have "foldl (\<lambda>c t. if t = u then c else set_paused (t < u) c) (edit c) ts =
      edit (foldl (\<lambda>c t. if t = u then c else set_paused (t < u) c) c ts)" for c
    by (induction ts arbitrary: c) (simp_all add: step)
  then show ?thesis unfolding runs .
qed

lemma old_cluster_step:
  assumes "ActiveWindow (Spec c) = Some w" "ActiveWindowHash (Status c) \<noteq> calculateActiveWindowHash (Some w)"
    and "cron_ParseStandard E (From w) = Inr cF" "fires F (cF LocalZone)"
    and "infinite {u \<in> F. CreationTimestamp c < u \<and> u < t} \<or> 100 < card {u \<in> F. CreationTimestamp c < u \<and> u < t}"
  shows "handleAutomaticPauseUnPause E t c = set_paused True (reset_times c)"
proof -
  let ?c = "set_paused True (reset_times c)"
  have "getNextScheduleTime E (From w) (Some (LocalZone, CreationTimestamp c)) (UTC, t) = Inl too_many_missed"
    using getNextScheduleTime_eq [OF assms(3,4)] assms(5) by auto
  then have "recalculate_window E t h ?c = ?c" for h
    using assms(1) by (simp add: recalculate_window_def recalculateNextUnpause_def)
  then show ?thesis using handle_new_window [OF assms(1,2)] by simp
qed

text \<open>
  C26: a window given to a cluster after its opening schedule, which parses and fires as the cron library
  documents, has fired more than 100 times, in local time, since the cluster was created is never
  entered. Each run of the handler fails with the too-many-missed-start-times error, leaves the
  cluster paused and stores no time to start from, so the next one fails in the same way.
\<close>

theorem old_cluster_stays_paused:
  assumes "ActiveWindow (Spec c) = Some w" "ActiveWindowHash (Status c) \<noteq> calculateActiveWindowHash (Some w)"
    and "cron_ParseStandard E (From w) = Inr cF" "fires F (cF LocalZone)"
    and "100 < card {u \<in> F. CreationTimestamp c < u \<and> u < t}"
    and "ts \<noteq> []" "\<forall>t'\<in>set ts. t \<le> t'"
  shows "window_run E c ts = set_paused True (reset_times c)"
proof -
  have grow: "infinite {u \<in> F. CreationTimestamp c < u \<and> u < t'} \<or>
      100 < card {u \<in> F. CreationTimestamp c < u \<and> u < t'}" if "t \<le> t'" for t'
    using assms(5) card_mono [of "{u \<in> F. CreationTimestamp c < u \<and> u < t'}"
      "{u \<in> F. CreationTimestamp c < u \<and> u < t}"] that by (fastforce intro: less_le_trans)
  have stays: "window_run E (set_paused True (reset_times c)) ts = set_paused True (reset_times c)"
    if "\<forall>t'\<in>set ts. t \<le> t'" for ts
    using that
  proof (induction ts)
    case (Cons t' ts)
    have "handleAutomaticPauseUnPause E t' (set_paused True (reset_times c)) =
        set_paused True (reset_times (set_paused True (reset_times c)))"
      using assms Cons.prems grow by (intro old_cluster_step [of _ w _ cF F]) simp_all
    with Cons show ?case by simp
  qed simp
  from assms(6) obtain t' rest where ts: "ts = t' # rest" by (cases ts) auto
  have "handleAutomaticPauseUnPause E t' c = set_paused True (reset_times c)"
    using assms grow ts by (intro old_cluster_step [of _ w _ cF F]) simp_all
  with stays [of rest] assms(7) ts show ?thesis by simp
qed

section \<open>Witnesses: a window open every day from 8 to 17\<close>

definition daily :: "gotime \<Rightarrow> gotime \<Rightarrow> gotime \<Rightarrow> gotime" where
  "daily day off t = ((t - off) div day + 1) * day + off"

lemma fires_daily: "0 < day \<Longrightarrow> fires (range (\<lambda>k. k * day + off)) (daily day off)"
  unfolding fires_def
proof (intro allI conjI ballI impI)
  fix t u assume d: "0 < day"
  show "daily day off t \<in> range (\<lambda>k. k * day + off)" unfolding daily_def by (rule rangeI)
  have m: "(t - off) div day * day + (t - off) mod day = t - off" by simp
  show "t < daily day off t"
    using m pos_mod_bound [OF d, of "t - off"] unfolding daily_def ring_distribs mult_1 by linarith
  assume "u \<in> range (\<lambda>k. k * day + off)" "t < u"
  then obtain k where u: "u = k * day + off" "t - off < k * day" by auto
  have "(t - off) div day < k"
  proof (rule ccontr)
    assume "\<not> (t - off) div day < k"
    then have "k * day \<le> (t - off) div day * day" using d by (intro mult_right_mono) auto
    then show False using u(2) m pos_mod_sign [OF d, of "t - off"] by linarith
  qed
  then have "((t - off) div day + 1) * day \<le> k * day" using d by (intro mult_right_mono) auto
  then show "daily day off t \<le> u" by (simp add: daily_def u)
qed

lemma daily_cross:
  assumes "0 \<le> a" "a < b" "b < day"
  shows "daily day b (k * day + a) = k * day + b" "daily day a (k * day + b) = k * day + day + a"
    "daily day a (k * day + a) = k * day + day + a" "daily day b (k * day + b) = k * day + day + b"
proof -
  have "(k * day + a - b) div day = k - 1"
    using assms by (intro int_div_pos_eq [where r = "day + a - b"]) (simp_all add: algebra_simps)
  moreover have "(k * day + b - a) div day = k"
    using assms by (intro int_div_pos_eq [where r = "b - a"]) (simp_all add: mult.commute)
  ultimately show "daily day b (k * day + a) = k * day + b" "daily day a (k * day + b) = k * day + day + a"
    "daily day a (k * day + a) = k * day + day + a" "daily day b (k * day + b) = k * day + day + b"
    using assms by (simp_all add: daily_def ring_distribs)
qed

lemma alternating_daily:
  assumes "0 \<le> a" "a < b" "b < day"
  shows "alternating (range (\<lambda>k. k * day + a)) (daily day a) (range (\<lambda>k. k * day + b)) (daily day b)"
  using assms fires_daily [of day a] fires_daily [of day b]
  by (auto simp: alternating_def daily_cross)

definition hour :: duration where "hour = 3600 * Second"

abbreviation "opens \<equiv> daily (24 * hour) (8 * hour)"
abbreviation "closes \<equiv> daily (24 * hour) (17 * hour)"

lemma alternating_sample:
  "alternating (range (\<lambda>k. k * (24 * hour) + 8 * hour)) opens
     (range (\<lambda>k. k * (24 * hour) + 17 * hour)) closes"
  by (rule alternating_daily) (simp_all add: hour_def)

lemma in_daily: "(x :: int) \<in> range (\<lambda>k. k * d + off) \<longleftrightarrow> d dvd x - off"
  by (auto simp: dvd_def algebra_simps)

lemma sample_cross [simp]:
  "closes (k * (24 * hour) + 8 * hour) = k * (24 * hour) + 17 * hour"
  "opens (k * (24 * hour) + 17 * hour) = k * (24 * hour) + 32 * hour"
  using daily_cross [of "8 * hour" "17 * hour" "24 * hour" k] by (simp_all add: hour_def)

text \<open>Two times in a row are attentive to the closed, respectively the open, periods.\<close>

lemma attentive_sample:
  "attentive (range (\<lambda>k. k * (24 * hour) + 17 * hour)) opens t (t' # ts) \<longleftrightarrow>
     t \<le> t' \<and> \<not> 24 * hour dvd t' - 17 * hour \<and>
     (\<forall>k. t \<le> k * (24 * hour) + 17 * hour \<longrightarrow> t' < k * (24 * hour) + 32 * hour) \<and>
     attentive (range (\<lambda>k. k * (24 * hour) + 17 * hour)) opens t' ts"
  "attentive (range (\<lambda>k. k * (24 * hour) + 8 * hour)) closes t (t' # ts) \<longleftrightarrow>
     t \<le> t' \<and> \<not> 24 * hour dvd t' - 8 * hour \<and>
     (\<forall>k. t \<le> k * (24 * hour) + 8 * hour \<longrightarrow> t' < k * (24 * hour) + 17 * hour) \<and>
     attentive (range (\<lambda>k. k * (24 * hour) + 8 * hour)) closes t' ts"
  by (simp_all add: in_daily)

definition window0 :: active_window where
  "window0 = \<lparr>From = ''0 8 * * *'', To = ''0 17 * * *''\<rparr>"

definition cron_env :: env where
  "cron_env = env0\<lparr>cron_ParseStandard := (\<lambda>s.
     if s = ''0 8 * * *'' then Inr (\<lambda>_. opens) else if s = ''0 17 * * *'' then Inr (\<lambda>_. closes)
     else Inl (errorf ''expected exactly 5 fields''))\<rparr>"

definition window_cluster :: sveltos_cluster where
  "window_cluster = upd_spec (ActiveWindow_update (\<lambda>_. Some window0)) cluster0"

lemma fresh_sample:
  "0 \<le> t \<Longrightarrow> t < 24 * hour \<Longrightarrow> fresh_window cron_env window0 opens closes t window_cluster"
proof -
  assume t: "0 \<le> t" "t < 24 * hour"
  have "calculateActiveWindowHash (Some window0) \<noteq> []"
    using length_sha256_sum [of "From window0 @ To window0"]
    by (auto simp: calculateActiveWindowHash_def simp del: length_sha256_sum)
  moreover have "\<not> (n ^^ 100) (n 0) < t" if "fires S n" "t \<le> n (n 0)" for S n
  proof -
    have "\<not> (n ^^ 99) (n (n 0)) < t" using that by (intro fires_funpow_ge [OF that(1)]) simp
    moreover have "(n ^^ 99) (n (n 0)) = (n ^^ Suc 99) (n 0)" by (simp only: funpow_Suc_right o_apply)
    ultimately show ?thesis by simp
  qed
  moreover have "t \<le> opens (opens 0)" "t \<le> closes (closes 0)" using t by (simp_all add: daily_def hour_def)
  ultimately show ?thesis
    using fires_daily [of "24 * hour"]
    by (auto simp: fresh_window_def schedules_def few_missed_def window_cluster_def cron_env_def window0_def
        sample_defs hour_def)
qed

theorem getNextScheduleTime_spec_witness:
  "getNextScheduleTime cron_env ''0 8 * * *'' (Some (LocalZone, 0)) (UTC, 9 * hour) = Inr (32 * hour)"
proof -
  have "{u \<in> range (\<lambda>k. k * (24 * hour) + 8 * hour). 0 < u \<and> u < 9 * hour} = {8 * hour}"
    by (auto simp: hour_def)
  then show ?thesis
    using getNextScheduleTime_spec [of cron_env "''0 8 * * *''" "\<lambda>_. opens" _ LocalZone 0 UTC "9 * hour", OF _ fires_daily]
    by (simp add: cron_env_def daily_def hour_def)
qed

theorem old_cluster_stays_paused_witness:
  "Paused (Spec (window_run cron_env window_cluster [24 * hour * 200, 24 * hour * 200 + 9 * hour]))"
proof -
  let ?S = "{u \<in> range (\<lambda>k. k * (24 * hour) + 8 * hour). CreationTimestamp window_cluster < u \<and> u < 24 * hour * 200}"
  have "(\<lambda>k. k * (24 * hour) + 8 * hour) ` {0..<101} \<subseteq> ?S"
    by (auto simp: hour_def window_cluster_def sample_defs)
  moreover have "finite ?S" by (rule finite_subset [of _ "{0..<24 * hour * 200}"])
      (auto simp: window_cluster_def sample_defs hour_def)
  ultimately have "card ((\<lambda>k. k * (24 * hour) + 8 * hour) ` {0..<101 :: int}) \<le> card ?S" by (simp only: card_mono)
  moreover have "card ((\<lambda>k. k * (24 * hour) + 8 * hour) ` {0..<101 :: int}) = 101"
    by (subst card_image) (auto simp: inj_on_def hour_def)
  ultimately have "100 < card ?S" by linarith
  moreover have "ActiveWindowHash (Status window_cluster) \<noteq> calculateActiveWindowHash (Some window0)"
    using fresh_sample [of 0] by (simp add: fresh_window_def hour_def)
  moreover have "fires (range (\<lambda>k. k * (24 * hour) + 8 * hour)) opens"
    by (rule fires_daily) (simp add: hour_def)
  ultimately show ?thesis
    using old_cluster_stays_paused [of window_cluster window0 cron_env "\<lambda>_. opens" _ "24 * hour * 200"
        "[24 * hour * 200, 24 * hour * 200 + 9 * hour]"]
    by (simp add: window_cluster_def cron_env_def window0_def hour_def)
qed

theorem pause_follows_window_witness:
  "\<not> Paused (Spec (window_run cron_env window_cluster [7 * hour, 8 * hour, 9 * hour])) \<and>
   Paused (Spec (window_run cron_env window_cluster [7 * hour, 8 * hour, 9 * hour, 18 * hour]))"
proof -
  have "attentive (range (\<lambda>k. k * (24 * hour) + 17 * hour)) opens (7 * hour) [8 * hour, 9 * hour, 18 * hour]"
    "attentive (range (\<lambda>k. k * (24 * hour) + 17 * hour)) opens (7 * hour) [8 * hour, 9 * hour]"
    unfolding attentive_sample by (simp_all add: hour_def)
  moreover have "window_open opens closes (9 * hour)" "\<not> window_open opens closes (7 * hour)"
    "\<not> window_open opens closes (18 * hour)"
    by (simp_all add: window_open_def daily_def hour_def)
  moreover have "0 \<le> 7 * hour" "7 * hour < 24 * hour" "\<not> 24 * hour dvd 18 * hour - 8 * hour"
    "\<not> 24 * hour dvd 9 * hour - 8 * hour" by (simp_all add: hour_def)
  ultimately show ?thesis
    using pause_follows_window [OF alternating_sample fresh_sample, of "7 * hour" "[8 * hour, 9 * hour]"]
      pause_follows_window [OF alternating_sample fresh_sample, of "7 * hour" "[8 * hour, 9 * hour, 18 * hour]"]
    by (simp add: in_daily)
qed

theorem open_window_never_entered_witness:
  "Paused (Spec (window_run cron_env window_cluster [9 * hour, 18 * hour, 33 * hour])) \<and>
   window_open opens closes (33 * hour)"
proof -
  have "attentive (range (\<lambda>k. k * (24 * hour) + 8 * hour)) closes (9 * hour) [18 * hour, 33 * hour]"
    unfolding attentive_sample by (simp add: hour_def) presburger
  moreover have "window_open opens closes (9 * hour)" "window_open opens closes (33 * hour)"
    by (simp_all add: window_open_def daily_def hour_def)
  moreover have "0 \<le> 9 * hour" "9 * hour < 24 * hour" by (simp_all add: hour_def)
  ultimately show ?thesis
    using open_window_never_entered [OF alternating_sample fresh_sample, of "9 * hour" "[18 * hour, 33 * hour]"]
    by simp
qed

text \<open>A window on Sundays until 20:15, edited into one on Mondays until 20:05.\<close>

definition edited_cluster :: sveltos_cluster where
  "edited_cluster = cluster0\<lparr>Spec := spec0\<lparr>ActiveWindow := Some \<lparr>From = ''0 8 * * 01'', To = ''5 20 * * *''\<rparr>\<rparr>,
     Status := status0\<lparr>NextUnpause := Some (8 * hour), NextPause := Some (20 * hour + 15 * Minute),
       ActiveWindowHash := calculateActiveWindowHash (Some \<lparr>From = ''0 8 * * 0'', To = ''15 20 * * *''\<rparr>)\<rparr>\<rparr>"

theorem moved_border_not_seen_witness:
  "\<not> Paused (Spec (window_run cron_env edited_cluster [7 * hour, 9 * hour]))"
proof -
  let ?w = "\<lparr>From = ''0 8 * * 0'', To = ''15 20 * * *''\<rparr>"
  let ?c = "upd_spec (ActiveWindow_update (\<lambda>_. Some ?w)) edited_cluster"
  have c: "window_ready ?w ?c" "NextUnpause (Status ?c) = Some (8 * hour)" "NextPause (Status ?c) = Some (20 * hour + 15 * Minute)"
    by (simp_all add: window_ready_def edited_cluster_def)
  have ts: "\<forall>t\<in>set [7 * hour, 9 * hour]. t < 20 * hour + 15 * Minute" by (simp add: hour_def)
  have edit: "upd_spec (ActiveWindow_update (\<lambda>_. Some \<lparr>From = ''0 8 * * 01'', To = ''5 20 * * *''\<rparr>)) ?c = edited_cluster"
    by (simp add: edited_cluster_def)
  have run: "window_run cron_env edited_cluster [7 * hour, 9 * hour] =
      upd_spec (ActiveWindow_update (\<lambda>_. Some \<lparr>From = ''0 8 * * 01'', To = ''5 20 * * *''\<rparr>))
        (window_run cron_env ?c [7 * hour, 9 * hour])"
    using moved_border_not_seen [OF c, of "\<lparr>From = ''0 8 * * 01'', To = ''5 20 * * *''\<rparr>", OF _ ts, of cron_env]
    unfolding edit by simp
  show ?thesis
    unfolding run window_run_ready [OF c ts] by (simp add: hour_def edited_cluster_def)
qed

end
