(* ===== verification/Token_Renewal.thy ===== *)
theory Token_Renewal
  imports Sample Go_Json Scope
begin

text \<open>
  Renewal of the ServiceAccount token of a push-mode SveltosCluster
  (\<open>controllers/sveltoscluster_controller.go\<close>): when a token is due (\<open>shouldRenewTokenRequest\<close>),
  for how long it is requested, how its expiration is read from the JWT, the kubeconfig that
  carries it, and the loop that stores it in the cluster's Secret.
\<close>

section \<open>When a token is due\<close>

definition lastRenewal :: "sveltos_cluster \<Rightarrow> gotime" where
  "lastRenewal c =
     (if LastReconciledTokenRequestAt (Status c) = [] then CreationTimestamp c
      else case parseRFC3339 (LastReconciledTokenRequestAt (Status c)) of
        None \<Rightarrow> CreationTimestamp c | Some parsedTime \<Rightarrow> parsedTime)"

text \<open>\<open>time.Duration(x) * time.Second\<close>.\<close>

definition seconds_to_duration :: "env \<Rightarrow> rat \<Rightarrow> duration" where
  "seconds_to_duration E x = wrap64 (int64_of_float E x * Second)"

definition renewalThreshold :: "env \<Rightarrow> duration \<Rightarrow> duration" where
  "renewalThreshold E interval =
     (let renewalInterval = Seconds interval
      in if renewalInterval > 600 then seconds_to_duration E (fl64 (renewalInterval - 600))
         else seconds_to_duration E renewalInterval)"

definition shouldRenewTokenRequest :: "env \<Rightarrow> (sveltos_cluster, bool) act" where
  "shouldRenewTokenRequest E = do {
     c \<leftarrow> gets (\<lambda>c. c);
     case TokenRequestRenewalOption (Spec c) of
       None \<Rightarrow> ret False
     | Some opt \<Rightarrow> do {
         currentTime \<leftarrow> time_Now E;
         ret (Seconds (time_Sub currentTime (lastRenewal c)) >
              Seconds (renewalThreshold E (RenewTokenRequestInterval opt)))
       }
   }"

section \<open>Lifetime of a token\<close>

definition getEffectiveTokenDurationInSecond :: "token_option \<Rightarrow> rat" where
  "getEffectiveTokenDurationInSecond opt =
     (if TokenDuration opt = 0 then fl64 (Seconds (RenewTokenRequestInterval opt) + 1800)
      else Seconds (TokenDuration opt))"

datatype token_error = InvalidFormat | DecodeFailed | UnmarshalFailed | ExpirationNotFound

definition getTokenExpiration :: "env \<Rightarrow> string \<Rightarrow> token_error + gotime" where
  "getTokenExpiration E jwt =
     (let parts = Split (CHR ''.'') jwt in
      if length parts \<noteq> 3 then Inl InvalidFormat
      else case RawURLEncoding_DecodeString (parts ! 1) of
        None \<Rightarrow> Inl DecodeFailed
      | Some payloadBytes \<Rightarrow>
          (case json_Unmarshal_map payloadBytes of
             None \<Rightarrow> Inl UnmarshalFailed
           | Some payload \<Rightarrow>
               (case lookup payload ''exp'' of
                  Some (JNumber x) \<Rightarrow> Inr (int64_of_float E x * Second)
                | _ \<Rightarrow> Inl ExpirationNotFound)))"

text \<open>The interval to use from now on: the actual lifetime when the token was cut short.\<close>

definition adjustTokenRequestRenewalOption :: "env \<Rightarrow> token_option \<Rightarrow> string \<Rightarrow> ('o, duration) act" where
  "adjustTokenRequestRenewalOption E opt jwt =
     (case getTokenExpiration E jwt of
        Inl _ \<Rightarrow> ret (RenewTokenRequestInterval opt)
      | Inr expirationTime \<Rightarrow> do {
          let requestedDuration = seconds_to_duration E (getEffectiveTokenDurationInSecond opt);
          actualLifetime \<leftarrow> time_Until E expirationTime;
          if actualLifetime < wrap64 (requestedDuration - 5 * Second) then ret actualLifetime
          else ret (RenewTokenRequestInterval opt)
        })"

section \<open>The ServiceAccount\<close>

definition serviceAccountPrefix :: string where
  "serviceAccountPrefix = ''system:serviceaccount:''"

definition ParseServiceAccountUsername :: "string \<Rightarrow> (string \<times> string) option" where
  "ParseServiceAccountUsername username =
     (if \<not> HasPrefix username serviceAccountPrefix then None
      else let parts = SplitN2 (CHR '':'') (TrimPrefix username serviceAccountPrefix)
           in if length parts \<noteq> 2 then None else Some (parts ! 0, parts ! 1))"

definition whoami :: "env \<Rightarrow> rest_config \<Rightarrow> ('o, goerr + (string \<times> string) option) act" where
  "whoami E config = do {
     err \<leftarrow> external (\<lambda>h. NewForConfig E h config) (Call_NewForConfig config);
     case err of
       Some e \<Rightarrow> ret (Inl (e\<lparr>Error := ''error creating clientset: '' @ Error e\<rparr>))
     | None \<Rightarrow> do {
         r \<leftarrow> external (\<lambda>h. SelfSubjectReview E h config) (Call_SelfSubjectReview config);
         case r of
           Inl e \<Rightarrow> ret (Inl (e\<lparr>Error := ''error creating SelfSubjectReview: '' @ Error e\<rparr>))
         | Inr username \<Rightarrow> ret (Inr (ParseServiceAccountUsername username))
       }
   }"

definition getServiceAccountDetails ::
    "env \<Rightarrow> rest_config \<Rightarrow> (sveltos_cluster, goerr + string \<times> string) act" where
  "getServiceAccountDetails E config = do {
     c \<leftarrow> gets (\<lambda>c. c);
     let configured = (case TokenRequestRenewalOption (Spec c) of
           None \<Rightarrow> None
         | Some opt \<Rightarrow> if SANamespace opt \<noteq> [] \<and> SAName opt \<noteq> [] then Some (SANamespace opt, SAName opt) else None);
     case configured of
       Some sa \<Rightarrow> ret (Inr sa)
     | None \<Rightarrow> do {
         saInfo \<leftarrow> whoami E config;
         case saInfo of
           Inl e \<Rightarrow> ret (Inl e)
         | Inr (Some sa) \<Rightarrow> ret (Inr sa)
         | Inr None \<Rightarrow> ret (Inr ([], []))
       }
   }"

definition getServiceAccountTokenRequest ::
    "env \<Rightarrow> rest_config \<Rightarrow> string \<Rightarrow> string \<Rightarrow> rat \<Rightarrow> ('o, goerr + string) act" where
  "getServiceAccountTokenRequest E config namespace name saExpirationInSecond = (
     let expiration = int64_of_float E saExpirationInSecond in do {
     err \<leftarrow> external (\<lambda>h. NewForConfig E h config) (Call_NewForConfig config);
     case err of
       Some e \<Rightarrow> ret (Inl e)
     | None \<Rightarrow> external (\<lambda>h. CreateToken E h config namespace name expiration)
         (Call_CreateToken config namespace name expiration)
   })"

section \<open>The kubeconfig\<close>

definition newline :: char where "newline = CHR 10"

fun join_lines :: "string list \<Rightarrow> string" where
  "join_lines [] = []"
| "join_lines [l] = l"
| "join_lines (l # ls) = l @ newline # join_lines ls"

definition kubeconfig_lines :: "string \<Rightarrow> string \<Rightarrow> string \<Rightarrow> string \<Rightarrow> rest_config \<Rightarrow> string list" where
  "kubeconfig_lines namespace serviceAccountName token tlsServerName config =
     [''apiVersion: v1'', ''kind: Config'', ''clusters:'', ''- name: local'', ''  cluster:''] @
     (if tlsServerName \<noteq> [] then [''    tls-server-name: '' @ tlsServerName] else []) @
     [''    server: '' @ Host config,
      ''    certificate-authority-data: '' @ quote (StdEncoding_EncodeToString (CAData config)),
      ''users:'', ''- name: '' @ serviceAccountName, ''  user:'', ''    token: '' @ token,
      ''contexts:'', ''- name: sveltos-context'', ''  context:'', ''    cluster: local'',
      ''    namespace: '' @ namespace, ''    user: '' @ serviceAccountName,
      ''current-context: sveltos-context'']"

definition getKubeconfigFromToken ::
    "string \<Rightarrow> string \<Rightarrow> string \<Rightarrow> string \<Rightarrow> rest_config \<Rightarrow> string" where
  "getKubeconfigFromToken namespace serviceAccountName token tlsServerName config =
     join_lines (kubeconfig_lines namespace serviceAccountName token tlsServerName config)"

definition getKubeconfigKey :: "sveltos_cluster \<Rightarrow> string" where
  "getKubeconfigKey c =
     (case TokenRequestRenewalOption (Spec c) of
        None \<Rightarrow> ''re-kubeconfig''
      | Some opt \<Rightarrow>
          (case OptKubeconfigKeyName opt of
             None \<Rightarrow> ''re-kubeconfig''
           | Some key \<Rightarrow> if key \<noteq> [] then key else ''re-kubeconfig''))"

section \<open>Renewal\<close>

definition set_interval :: "duration \<Rightarrow> (sveltos_cluster, unit) act" where
  "set_interval d = mod_spec (TokenRequestRenewalOption_update
     (map_option (RenewTokenRequestInterval_update (\<lambda>_. d))))"

definition stamp_renewal :: "env \<Rightarrow> (sveltos_cluster, unit) act" where
  "stamp_renewal E = do {
     t \<leftarrow> now_RFC3339 E;
     mod_status (LastReconciledTokenRequestAt_update (\<lambda>_. t))
   }"

text \<open>Writing the new kubeconfig to the cluster's Secret and, if that succeeds, recording it.\<close>

definition store_kubeconfig ::
    "env \<Rightarrow> sveltos_cluster \<Rightarrow> string \<Rightarrow> string \<Rightarrow> (sveltos_cluster, unit) act" where
  "store_kubeconfig E c data key = do {
     err \<leftarrow> external (\<lambda>h. UpdateSveltosSecretData E h (Namespace c) (Name c) data key)
              (Call_UpdateSecretData (Namespace c) (Name c) data key);
     case err of
       Some _ \<Rightarrow> skip
     | None \<Rightarrow> do {
         (if KubeconfigKeyName (Spec c) \<noteq> key then mod_spec (KubeconfigKeyName_update (\<lambda>_. key)) else skip);
         stamp_renewal E
       }
   }"

text \<open>
  One round of the loop over the contexts, once the ServiceAccount is known. The option is
  read through its pointer; the caller has checked that it is set and nothing unsets it.
\<close>

definition renew_once :: "env \<Rightarrow> rest_config \<Rightarrow> rat \<Rightarrow> string \<Rightarrow> string \<Rightarrow> (sveltos_cluster, unit) act" where
  "renew_once E config saExpirationInSecond saNamespace saName = do {
     tokenRequest \<leftarrow> getServiceAccountTokenRequest E config saNamespace saName saExpirationInSecond;
     case tokenRequest of
       Inl _ \<Rightarrow> skip
     | Inr token \<Rightarrow> do {
         c \<leftarrow> gets (\<lambda>c. c);
         (case TokenRequestRenewalOption (Spec c) of
            None \<Rightarrow> skip
          | Some opt \<Rightarrow> do {
              interval \<leftarrow> adjustTokenRequestRenewalOption E opt token;
              set_interval interval
            });
         c \<leftarrow> gets (\<lambda>c. c);
         let key = getKubeconfigKey c;
         let data = getKubeconfigFromToken saNamespace saName token [] config;
         store_kubeconfig E c data key
       }
   }"

text \<open>The loop; \<open>saNamespace\<close> and \<open>saName\<close> are declared outside it and carry over.\<close>

fun renew_contexts ::
    "env \<Rightarrow> rest_config \<Rightarrow> rat \<Rightarrow> kube_context list \<Rightarrow> string \<Rightarrow> string \<Rightarrow> (sveltos_cluster, unit) act" where
  "renew_contexts E config secs [] saNamespace saName = skip"
| "renew_contexts E config secs (cc # ccs) saNamespace saName =
     (let ns = (if saName = [] then CtxNamespace cc else saNamespace);
          name = (if saName = [] then CtxAuthInfo cc else saName)
      in if ns = [] \<or> name = [] then renew_contexts E config secs ccs ns name
         else do {
           renew_once E config secs ns name;
           renew_contexts E config secs ccs ns name
         })"

definition handleTokenRequestRenewal :: "env \<Rightarrow> rest_config \<Rightarrow> (sveltos_cluster, goerr option) act" where
  "handleTokenRequestRenewal E remoteConfig = do {
     c \<leftarrow> gets (\<lambda>c. c);
     case TokenRequestRenewalOption (Spec c) of
       None \<Rightarrow> ret None
     | Some opt \<Rightarrow> do {
         let saExpirationInSecond = getEffectiveTokenDurationInSecond opt;
         data \<leftarrow> external (\<lambda>h. GetSveltosSecretData E h (Namespace c) (Name c))
                   (Call_GetSecretData (Namespace c) (Name c));
         case data of
           Inl e \<Rightarrow> ret (Some e)
         | Inr bytes \<Rightarrow>
             (case yaml_Contexts E bytes of
                Inl e \<Rightarrow> ret (Some e)
              | Inr contexts \<Rightarrow> do {
                  sa \<leftarrow> getServiceAccountDetails E remoteConfig;
                  case sa of
                    Inl e \<Rightarrow> ret (Some e)
                  | Inr sa \<Rightarrow> do {
                      renew_contexts E remoteConfig saExpirationInSecond contexts (fst sa) (snd sa);
                      ret None
                    }
                })
       }
   }"

section \<open>A token is renewed ten minutes before its interval is over\<close>

definition due_after :: "int \<Rightarrow> int" where
  "due_after n = (if n > 600 then n - 600 else n)"

lemma int64_seconds: "is_int64 (n * Second) \<Longrightarrow> \<bar>n\<bar> \<le> 2 ^ 53 - 600 \<and> is_int64 n"
  by (auto simp: is_int64_def)

lemma is_int64_le: "is_int64 b \<Longrightarrow> 0 \<le> a \<Longrightarrow> a \<le> b \<Longrightarrow> is_int64 a"
  by (simp add: is_int64_def)

lemma seconds_to_duration_int: "is_int64 (n * Second) \<Longrightarrow> seconds_to_duration E (of_int n) = n * Second"
  using int64_seconds [of n] by (simp add: seconds_to_duration_def)

lemma renewalThreshold_whole:
  assumes "0 \<le> n" "is_int64 (n * Second)"
  shows "renewalThreshold E (n * Second) = due_after n * Second"
proof (cases "n > 600")
  case True
  then have k: "is_int64 ((n - 600) * Second)"
    by (intro is_int64_le [OF assms(2)]) simp_all
  have "\<bar>n - 600\<bar> \<le> 2 ^ 53" using int64_seconds [OF assms(2)] True by auto
  then have "fl64 (of_int n - 600) = of_int (n - 600)" using f64.fl_int [of "n - 600"] by simp
  then show ?thesis
    using True seconds_to_duration_int [OF k, of E]
    by (simp add: renewalThreshold_def Seconds_whole [OF assms(2)] due_after_def)
next
  case False
  then show ?thesis
    using seconds_to_duration_int [OF assms(2), of E]
    by (simp add: renewalThreshold_def Seconds_whole [OF assms(2)] due_after_def)
qed

lemma Seconds_elapsed_le: "is_int64 d \<Longrightarrow> t - u \<le> d \<Longrightarrow> Seconds (time_Sub t u) \<le> Seconds d"
  by (rule Seconds_mono) (auto simp: time_Sub_def is_int64_def Let_def)

lemma Seconds_elapsed_ge: "is_int64 d \<Longrightarrow> d \<le> t - u \<Longrightarrow> Seconds d \<le> Seconds (time_Sub t u)"
  by (rule Seconds_mono) (auto simp: time_Sub_def is_int64_def Let_def)

text \<open>
  C10: with a renewal interval of \<open>n\<close> whole seconds, \<open>n + 1\<close> of which still fit a duration, the token is not
  renewed while no more than \<open>n - 600\<close> seconds (\<open>n\<close> seconds, for an interval of up to ten minutes) have
  passed since the last renewal, and it is renewed from one second later on: the float64
  arithmetic in between loses no second.
\<close>

theorem shouldRenewTokenRequest_due:
  assumes "TokenRequestRenewalOption (Spec (obj s)) = Some opt"
    and "RenewTokenRequestInterval opt = n * Second" "0 \<le> n" "is_int64 ((n + 1) * Second)"
  shows "(clock E (calls s) - lastRenewal (obj s) \<le> due_after n * Second \<longrightarrow>
      \<not> result (shouldRenewTokenRequest E) s) \<and>
    ((due_after n + 1) * Second \<le> clock E (calls s) - lastRenewal (obj s) \<longrightarrow>
      result (shouldRenewTokenRequest E) s)"
proof (intro conjI impI)
  let ?k = "due_after n" and ?e = "time_Sub (clock E (calls s)) (lastRenewal (obj s))"
  have k: "0 \<le> ?k" "?k \<le> n" using assms(3) by (simp_all add: due_after_def)
  have i: "is_int64 (n * Second)" "is_int64 (?k * Second)" "is_int64 ((?k + 1) * Second)"
    using assms(3) k by (auto intro!: is_int64_le [OF assms(4)])
  have r: "result (shouldRenewTokenRequest E) s \<longleftrightarrow> Seconds ?e > of_int ?k"
    using assms by (simp add: shouldRenewTokenRequest_def time_Now_def renewalThreshold_whole [OF assms(3) i(1)]
      Seconds_whole [OF i(2)])
  show "\<not> result (shouldRenewTokenRequest E) s"
    if "clock E (calls s) - lastRenewal (obj s) \<le> ?k * Second"
    using Seconds_elapsed_le [OF i(2) that] by (simp add: r Seconds_whole [OF i(2)])
  show "result (shouldRenewTokenRequest E) s"
    if "(?k + 1) * Second \<le> clock E (calls s) - lastRenewal (obj s)"
  proof -
    have "of_int (?k + 1) \<le> Seconds ?e"
      using Seconds_elapsed_ge [OF i(3) that] Seconds_whole [OF i(3)] by (simp only:)
    then show ?thesis unfolding r by simp
  qed
qed

text \<open>
  C25: the time a renewal stores in the status as a string is read back by a later reconciliation as the
  same instant, cut to the second, whatever the local time zone, as long as its offset is a whole number of
  minutes, at most a day, and the local year has at most four digits.
\<close>

theorem lastRenewal_stored:
  assumes "local_offset E t mod 60 = 0" "\<bar>local_offset E t\<bar> \<le> 86400"
    and "- 62167219200 \<le> t div Second + local_offset E t" "t div Second + local_offset E t < 253402300800"
    and "clock E (calls s) = t"
  shows "lastRenewal (obj (final (stamp_renewal E) s)) = t div Second * Second"
proof -
  have p: "parseRFC3339 (formatRFC3339 (local_offset E t) t) = Some (t div Second * Second)"
    using assms(1-4) by (rule parse_formatRFC3339)
  moreover have "formatRFC3339 (local_offset E t) t \<noteq> []"
  proof
    assume "formatRFC3339 (local_offset E t) t = []"
    with p show False by (simp add: parseRFC3339_def)
  qed
  ultimately show ?thesis
    by (simp add: stamp_renewal_def now_RFC3339_def time_Now_def lastRenewal_def assms(5))
qed

section \<open>What a token and a user name say\<close>

lemma url64_no_dot: "CHR ''.'' \<notin> set (b64_encode url_alphabet s)"
  using url64.encode_plain [of "CHR ''.''" s] by (auto simp: plain_char_def)

lemma claims_expiration:
  assumes "CHR ''.'' \<notin> set header" "CHR ''.'' \<notin> set signature" and "printable claims"
  shows "getTokenExpiration E
      (header @ ''.'' @ b64_encode url_alphabet (print_object claims) @ ''.'' @ signature) =
    (case map_of (rev claims) ''exp'' of None \<Rightarrow> Inl ExpirationNotFound | Some n \<Rightarrow> Inr (int n * Second))"
proof -
  let ?p = "b64_encode url_alphabet (print_object claims)"
  have parts: "Split (CHR ''.'') (header @ ''.'' @ ?p @ ''.'' @ signature) = [header, ?p, signature]"
    using Split_append [OF assms(1), of "?p @ ''.'' @ signature"]
      Split_append [OF url64_no_dot, of "print_object claims" signature] Split_no_sep [OF assms(2)] by simp
  have lookup: "map_of (rev (number_members claims)) ''exp'' =
      map_option (\<lambda>n. JNumber (of_nat n)) (map_of (rev claims) ''exp'')"
    by (induction claims rule: rev_induct) auto
  have "int64_of_float E (of_nat n) = int n" if "map_of (rev claims) ''exp'' = Some n" for n
  proof -
    from that assms(3) have "n \<le> 2 ^ 53" by (auto dest!: map_of_SomeD simp: printable_def list_all_iff)
    then have "is_int64 (int n)" by (simp add: is_int64_def)
    then show ?thesis using int64_of_float_int [of "int n" E] by simp
  qed
  then show ?thesis
    unfolding getTokenExpiration_def parts Let_def
    by (auto simp: RawURLEncoding_DecodeString_def url64.decode_encode
        Unmarshal_print [OF assms(3)] lookup split: option.split)
qed

text \<open>
  C24: the expiration of a JWT is read correctly: for a token of three parts whose payload is a JSON
  object of numeric claims (printable ASCII names without quote or backslash, whole values up to
  \<open>2^53\<close>), the result is the instant the last \<open>exp\<close> claim stands for, in whole seconds since the
  epoch, and a payload without \<open>exp\<close> is reported.
\<close>

theorem getTokenExpiration_claims:
  assumes "CHR ''.'' \<notin> set header" "CHR ''.'' \<notin> set signature" and "printable claims"
  shows "getTokenExpiration E
      (header @ ''.'' @ b64_encode url_alphabet (print_object claims) @ ''.'' @ signature) =
    (case map_of (rev claims) ''exp'' of None \<Rightarrow> Inl ExpirationNotFound | Some n \<Rightarrow> Inr (int n * Second))"
  by (rule claims_expiration [OF assms])

text \<open>
  C36: a user name stands for the ServiceAccount \<open>name\<close> of \<open>namespace\<close> exactly when it is
  \<open>system:serviceaccount:namespace:name\<close>, split at the first colon of the rest.
\<close>

theorem ParseServiceAccountUsername_iff:
  "ParseServiceAccountUsername username = Some (namespace, name) \<longleftrightarrow>
    username = ''system:serviceaccount:'' @ namespace @ '':'' @ name \<and> CHR '':'' \<notin> set namespace"
proof -
  have two: "length ps = 2 \<and> (ps ! 0, ps ! 1) = (namespace, name) \<longleftrightarrow> ps = [namespace, name]" for ps :: "string list"
    by (auto simp: numeral_2_eq_2 length_Suc_conv)
  have "ParseServiceAccountUsername username = Some (namespace, name) \<longleftrightarrow>
      HasPrefix username serviceAccountPrefix \<and>
      SplitN2 (CHR '':'') (TrimPrefix username serviceAccountPrefix) = [namespace, name]"
    unfolding two [symmetric] by (auto simp: ParseServiceAccountUsername_def Let_def)
  also have "\<dots> \<longleftrightarrow> username = serviceAccountPrefix @ namespace @ '':'' @ name \<and> CHR '':'' \<notin> set namespace"
    unfolding SplitN2_two by (auto dest: HasPrefixD)
  finally show ?thesis by (simp add: serviceAccountPrefix_def)
qed

section \<open>The kubeconfig\<close>

lemma Split_join_lines:
  "list_all (\<lambda>l. newline \<notin> set l) ls \<Longrightarrow> ls \<noteq> [] \<Longrightarrow> Split newline (join_lines ls) = ls"
proof (induction ls rule: join_lines.induct)
  case (3 l l' ls)
  then show ?case using Split_append [of newline l] by simp
qed (simp_all add: Split_no_sep)

lemma Split_getKubeconfigFromToken:
  assumes "list_all (\<lambda>f. newline \<notin> set f) [namespace, sa, token, tls, Host config]"
  shows "Split newline (getKubeconfigFromToken namespace sa token tls config) =
    kubeconfig_lines namespace sa token tls config"
proof -
  have q: "quote (StdEncoding_EncodeToString x) = ''\"'' @ StdEncoding_EncodeToString x @ ''\"''" for x
    by (rule quote_plain) (rule EncodeToString_plain)+
  have nl: "newline \<notin> set (StdEncoding_EncodeToString x)" for x
    using std64.encode_plain [of newline x]
    by (auto simp: StdEncoding_EncodeToString_def Let_def plain_char_def newline_def)
  have "list_all (\<lambda>l. newline \<notin> set l) (kubeconfig_lines namespace sa token tls config)"
    using assms nl by (auto simp: kubeconfig_lines_def q newline_def)
  then show ?thesis
    unfolding getKubeconfigFromToken_def by (rule Split_join_lines) (simp add: kubeconfig_lines_def)
qed

text \<open>
  A reader of the file: the values of all the lines \<open>key: value\<close> that carry a key, whatever their
  indentation, and the bytes a quoted base64 value stands for.
\<close>

definition yaml_line :: "string \<Rightarrow> string \<Rightarrow> string option" where
  "yaml_line key line =
     (let field = dropWhile (\<lambda>c. c = CHR '' '' \<or> c = CHR ''-'') line
      in if HasPrefix field (key @ '': '') then Some (TrimPrefix field (key @ '': '')) else None)"

definition yaml_values :: "string \<Rightarrow> string \<Rightarrow> string list" where
  "yaml_values key text = List.map_filter (yaml_line key) (Split newline text)"

definition decode_quoted :: "string \<Rightarrow> string option" where
  "decode_quoted v = b64_decode std_alphabet (takeWhile (\<lambda>c. c \<noteq> CHR ''='') (takeWhile (\<lambda>c. c \<noteq> CHR ''\"'') (tl v)))"

lemma decode_quote: "decode_quoted (quote (StdEncoding_EncodeToString x)) = Some x"
proof -
  have "takeWhile (\<lambda>c. c \<noteq> CHR ''\"'') (StdEncoding_EncodeToString x @ ''\"'') = StdEncoding_EncodeToString x"
    using EncodeToString_plain(1) [of x] by (subst takeWhile_append2) auto
  then show ?thesis
    unfolding decode_quoted_def quote_plain [OF EncodeToString_plain]
    by (simp add: EncodeToString_takeWhile std64.decode_encode)
qed

text \<open>
  C35: the kubeconfig that is stored can be read back. When none of the namespace, the ServiceAccount,
  the token, the TLS server name and the server address contains a line break, reading the
  \<open>key: value\<close> lines of the file gives one server, one token, one namespace and one user, and they are
  the ones it was built from; the user is the one the file defines; the CA data decodes to the bytes
  of the configuration; and a TLS server name is there exactly when one was given.
\<close>

theorem getKubeconfigFromToken_read_back:
  assumes "list_all (\<lambda>f. newline \<notin> set f) [namespace, sa, token, tls, Host config]"
  defines "file \<equiv> getKubeconfigFromToken namespace sa token tls config"
  shows "yaml_values ''server'' file = [Host config] \<and>
    yaml_values ''token'' file = [token] \<and>
    yaml_values ''namespace'' file = [namespace] \<and>
    yaml_values ''user'' file = [sa] \<and> yaml_values ''name'' file = [''local'', sa, ''sveltos-context''] \<and>
    yaml_values ''cluster'' file = [''local''] \<and> yaml_values ''current-context'' file = [''sveltos-context''] \<and>
    map decode_quoted (yaml_values ''certificate-authority-data'' file) = [Some (CAData config)] \<and>
    yaml_values ''tls-server-name'' file = (if tls = [] then [] else [tls])"
  unfolding yaml_values_def file_def Split_getKubeconfigFromToken [OF assms(1)]
  by (simp add: kubeconfig_lines_def yaml_line_def HasPrefix_def TrimPrefix_def List.map_filter_def decode_quote)

section \<open>Adjusting the interval\<close>

text \<open>
  The number of whole seconds a token is requested for: the configured duration or, when none is
  configured, the renewal interval and 30 minutes.
\<close>

definition requested_for :: "token_option \<Rightarrow> int \<Rightarrow> bool" where
  "requested_for opt n \<longleftrightarrow> 0 \<le> n \<and> is_int64 (n * Second) \<and>
     (if TokenDuration opt = 0 then 1800 \<le> n \<and> RenewTokenRequestInterval opt = (n - 1800) * Second
      else TokenDuration opt = n * Second)"

lemma requested_for_seconds:
  assumes "requested_for opt n"
  shows "getEffectiveTokenDurationInSecond opt = of_int n"
proof (cases "TokenDuration opt = 0")
  case True
  have "is_int64 ((n - 1800) * Second)"
    using assms True by (simp add: requested_for_def is_int64_def)
  then have "Seconds (RenewTokenRequestInterval opt) = of_int (n - 1800)"
    using assms True unfolding requested_for_def by (simp only: Seconds_whole if_True)
  moreover have "\<bar>n\<bar> \<le> 2 ^ 53" using assms by (auto simp: requested_for_def is_int64_def)
  then have "fl64 (of_int n) = of_int n" by (rule f64.fl_int)
  ultimately show ?thesis using True by (simp add: getEffectiveTokenDurationInSecond_def)
next
  case False
  then show ?thesis
    using assms by (simp add: requested_for_def getEffectiveTokenDurationInSecond_def Seconds_whole)
qed

text \<open>
  C33: a token is requested for its configured duration or, when none is configured, for the renewal
  interval plus 30 minutes. When that is a whole non-negative number \<open>n\<close> of seconds that a
  duration can hold and the expiration of the token can be read, the renewal interval stays as it is
  when the remaining lifetime of the token is at least \<open>n - 5\<close> seconds, and otherwise becomes
  that lifetime. It does so too when the configured interval was shorter than the lifetime, and then
  the token is renewed less often than configured.
\<close>

theorem adjustTokenRequestRenewalOption_interval:
  assumes "getTokenExpiration E jwt = Inr expiration" and "requested_for opt n"
  shows "result (adjustTokenRequestRenewalOption E opt jwt) s =
      (if (n - 5) * Second \<le> expiration - clock E (calls s) then RenewTokenRequestInterval opt
       else time_Sub expiration (clock E (calls s))) \<and>
    (RenewTokenRequestInterval opt < expiration - clock E (calls s) \<and>
       expiration - clock E (calls s) < (n - 5) * Second \<longrightarrow>
     RenewTokenRequestInterval opt < result (adjustTokenRequestRenewalOption E opt jwt) s)"
proof -
  have n: "0 \<le> n" "is_int64 (n * Second)" using assms(2) by (simp_all add: requested_for_def)
  have longer: "d < time_Sub t u" if "d < t - u" "t - u < (n - 5) * Second" for d t u
  proof -
    have "t - u < 2 ^ 63" using that(2) n by (simp add: is_int64_def)
    then have "t - u \<le> time_Sub t u" by (simp add: time_Sub_def Let_def)
    with that(1) show ?thesis by simp
  qed
  have i: "is_int64 ((n - 5) * Second)" using n by (simp add: is_int64_def)
  moreover have "n * Second - 5 * Second = (n - 5) * Second" by simp
  moreover have "time_Sub expiration (clock E (calls s)) < (n - 5) * Second \<longleftrightarrow>
      \<not> (n - 5) * Second \<le> expiration - clock E (calls s)"
    using i n(1) by (subst not_le [symmetric], subst time_Sub_ge_iff) (auto simp: is_int64_def)
  ultimately show ?thesis
    using assms(1) seconds_to_duration_int [OF n(2), of E] requested_for_seconds [OF assms(2)]
    by (simp add: adjustTokenRequestRenewalOption_def time_Until_def time_Now_def longer)
qed

text \<open>
  C34: when no token duration is configured and the renewal interval is a whole non-negative number of
  seconds, the token is requested, once a client could be made, for the renewal interval plus 30
  minutes, exactly, in whole seconds.
\<close>

theorem token_requested_for:
  assumes "TokenDuration opt = 0" "RenewTokenRequestInterval opt = n * Second"
    and "0 \<le> n" "is_int64 (n * Second)" "NewForConfig E (calls s) config = None"
  shows "calls (final (getServiceAccountTokenRequest E config ns name (getEffectiveTokenDurationInSecond opt)) s) =
    calls s @ [Call_NewForConfig config, Call_CreateToken config ns name (n + 1800)]"
proof -
  have "\<bar>n + 1800\<bar> \<le> 2 ^ 53" "is_int64 (n + 1800)" using assms(3,4) by (auto simp: is_int64_def)
  then have "fl64 (of_int n + 1800) = of_int (n + 1800)" "is_int64 (n + 1800)"
    using f64.fl_int [of "n + 1800"] by simp_all
  then have "int64_of_float E (getEffectiveTokenDurationInSecond opt) = n + 1800"
    using assms by (simp add: getEffectiveTokenDurationInSecond_def Seconds_whole del: of_int_add)
  then show ?thesis using assms(5) by (simp add: getServiceAccountTokenRequest_def Let_def)
qed

section \<open>Frame and call rules\<close>

text \<open>What a renewal can change of the cluster: the interval, the kubeconfig key and the time.\<close>

definition renewal_frame :: "sveltos_cluster \<Rightarrow> sveltos_cluster" where
  "renewal_frame c = c\<lparr>
     Spec := (Spec c)\<lparr>KubeconfigKeyName := [],
       TokenRequestRenewalOption := map_option (RenewTokenRequestInterval_update (\<lambda>_. 0)) (TokenRequestRenewalOption (Spec c))\<rparr>,
     Status := (Status c)\<lparr>LastReconciledTokenRequestAt := []\<rparr>\<rparr>"

text \<open>
  What no step of a reconciliation changes, apart from the finalizer update at its start and
  the pause handler at its end.
\<close>

definition steady :: "sveltos_cluster \<Rightarrow>
    string \<times> string \<times> string \<times> string list \<times> gotime \<times> gotime option \<times> cluster_spec \<times>
    gotime option \<times> gotime option \<times> string \<times> gotime option" where
  "steady c = (Namespace c, Name c, UID c, Finalizers c, CreationTimestamp c, DeletionTimestamp c,
     Spec (renewal_frame c), NextPause (Status c), NextUnpause (Status c), ActiveWindowHash (Status c),
     AgentLastReportTime (Status c))"

lemma keeps_coarser: "keeps v m \<Longrightarrow> (\<And>s. w s = g (v s)) \<Longrightarrow> keeps w m"
  by (simp add: keeps_def)

lemma renewal_frame_idem [simp]: "renewal_frame (renewal_frame c) = renewal_frame c"
  by (simp add: renewal_frame_def option.map_comp o_def)

lemma renewal_frame_fields [simp]:
  "Namespace (renewal_frame c) = Namespace c" "Name (renewal_frame c) = Name c"
  "UID (renewal_frame c) = UID c" "Finalizers (renewal_frame c) = Finalizers c"
  "CreationTimestamp (renewal_frame c) = CreationTimestamp c"
  "DeletionTimestamp (renewal_frame c) = DeletionTimestamp c"
  "NextPause (Status (renewal_frame c)) = NextPause (Status c)"
  "NextUnpause (Status (renewal_frame c)) = NextUnpause (Status c)"
  "ActiveWindowHash (Status (renewal_frame c)) = ActiveWindowHash (Status c)"
  "AgentLastReportTime (Status (renewal_frame c)) = AgentLastReportTime (Status c)"
  "Ready (Status (renewal_frame c)) = Ready (Status c)"
  "ConnectionStatus (Status (renewal_frame c)) = ConnectionStatus (Status c)"
  "ConnectionFailures (Status (renewal_frame c)) = ConnectionFailures (Status c)"
  "FailureMessage (Status (renewal_frame c)) = FailureMessage (Status c)"
  "Annotations (renewal_frame c) = Annotations c" "Labels (renewal_frame c) = Labels c"
  "PullMode (Spec (renewal_frame c)) = PullMode (Spec c)"
  "ConsecutiveFailureThreshold (Spec (renewal_frame c)) = ConsecutiveFailureThreshold (Spec c)"
  "Version (Status (renewal_frame c)) = Version (Status c)"
  by (simp_all add: renewal_frame_def)

lemma steady_renewal_frame: "steady c = steady (renewal_frame c)"
  by (simp add: steady_def)

lemma keeps_frame_view:
  "keeps (\<lambda>s. renewal_frame (obj s)) m \<Longrightarrow> (\<And>c. view c = view (renewal_frame c)) \<Longrightarrow>
   keeps (\<lambda>s. view (obj s)) m"
  by (rule keeps_coarser [where g = view])

lemma keeps_set_interval: "keeps (\<lambda>s. renewal_frame (obj s)) (set_interval d)"
  unfolding set_interval_def
  by (intro keeps_rules) (simp add: renewal_frame_def option.map_comp o_def)

lemma keeps_stamp_renewal: "keeps (\<lambda>s. renewal_frame (obj s)) (stamp_renewal E)"
  unfolding stamp_renewal_def by (intro keeps_rules) (simp add: renewal_frame_def)

lemma keeps_adjust [keeps_rules]: "keeps (\<lambda>s. view (obj s)) (adjustTokenRequestRenewalOption E opt jwt)"
  unfolding adjustTokenRequestRenewalOption_def Let_def by (intro keeps_rules)

lemma keeps_token_request [keeps_rules]:
  "keeps (\<lambda>s. view (obj s)) (getServiceAccountTokenRequest E cfg ns n secs)"
  unfolding getServiceAccountTokenRequest_def Let_def by (intro keeps_rules)

lemma keeps_sa_details [keeps_rules]: "keeps (\<lambda>s. view (obj s)) (getServiceAccountDetails E cfg)"
  unfolding getServiceAccountDetails_def whoami_def Let_def by (intro keeps_rules)

lemma keeps_shouldRenew [keeps_rules]: "keeps (\<lambda>s. view (obj s)) (shouldRenewTokenRequest E)"
  unfolding shouldRenewTokenRequest_def by (intro keeps_rules)

lemma keeps_renew_once: "keeps (\<lambda>s. renewal_frame (obj s)) (renew_once E cfg secs ns n)"
  unfolding renew_once_def store_kubeconfig_def Let_def
  by (intro keeps_rules keeps_set_interval keeps_stamp_renewal) (simp add: renewal_frame_def)

lemma keeps_renew_contexts: "keeps (\<lambda>s. renewal_frame (obj s)) (renew_contexts E cfg secs ccs ns n)"
  by (induction ccs arbitrary: ns n) (auto simp: Let_def intro!: keeps_rules keeps_renew_once)

lemma keeps_handleTokenRequestRenewal:
  "keeps (\<lambda>s. renewal_frame (obj s)) (handleTokenRequestRenewal E cfg)"
  unfolding handleTokenRequestRenewal_def Let_def by (intro keeps_rules keeps_renew_contexts)

definition token_call :: "call \<Rightarrow> bool" where
  "token_call c = (case c of
     Call_Now \<Rightarrow> True | Call_NewForConfig _ \<Rightarrow> True | Call_CreateToken _ _ _ _ \<Rightarrow> True
   | Call_SelfSubjectReview _ \<Rightarrow> True | Call_GetSecretData _ _ \<Rightarrow> True
   | Call_UpdateSecretData _ _ _ _ \<Rightarrow> True | _ \<Rightarrow> False)"

lemma token_call_simps [simp]:
  "token_call Call_Now" "token_call (Call_NewForConfig g)" "token_call (Call_CreateToken g a b i)"
  "token_call (Call_SelfSubjectReview g)" "token_call (Call_GetSecretData a b)"
  "token_call (Call_UpdateSecretData a b d e)"
  by (simp_all add: token_call_def)

lemma only_calls_clock [calls_rules]:
  "P Call_Now \<Longrightarrow> only_calls P (time_Now E)"
  "P Call_Now \<Longrightarrow> only_calls P (time_Until E t)"
  "P Call_Now \<Longrightarrow> only_calls P (time_Since E t)"
  "P Call_Now \<Longrightarrow> only_calls P (now_RFC3339 E)"
  unfolding time_Until_def time_Since_def now_RFC3339_def time_Now_def by (intro calls_rules; simp)+

lemma only_calls_shouldRenew [calls_rules]: "only_calls token_call (shouldRenewTokenRequest E)"
  unfolding shouldRenewTokenRequest_def by (intro calls_rules) simp

lemma only_calls_token_request [calls_rules]:
  "only_calls token_call (getServiceAccountTokenRequest E cfg ns n secs)"
  unfolding getServiceAccountTokenRequest_def Let_def by (intro calls_rules) simp_all

lemma only_calls_adjust [calls_rules]: "only_calls token_call (adjustTokenRequestRenewalOption E opt jwt)"
  unfolding adjustTokenRequestRenewalOption_def Let_def by (intro calls_rules) simp_all

lemma only_calls_stamp [calls_rules]: "only_calls token_call (stamp_renewal E)"
  unfolding stamp_renewal_def by (intro calls_rules) simp

lemma only_calls_renew_once [calls_rules]: "only_calls token_call (renew_once E cfg secs ns n)"
  unfolding renew_once_def store_kubeconfig_def set_interval_def Let_def by (intro calls_rules) simp_all

lemma only_calls_renew_contexts [calls_rules]: "only_calls token_call (renew_contexts E cfg secs ccs ns n)"
  by (induction ccs arbitrary: ns n) (auto simp: Let_def intro!: calls_rules)

lemma only_calls_handleTokenRequestRenewal [calls_rules]:
  "only_calls token_call (handleTokenRequestRenewal E cfg)"
  unfolding handleTokenRequestRenewal_def getServiceAccountDetails_def whoami_def Let_def
  by (intro calls_rules) simp_all

section \<open>The renewal time is stamped only when the Secret was written\<close>

lemma run_adjust:
  "\<exists>d cs. run_state (adjustTokenRequestRenewalOption E opt jwt) s = (d, s\<lparr>calls := calls s @ cs\<rparr>) \<and>
    list_all (\<lambda>c. c = Call_Now) cs"
proof (cases "getTokenExpiration E jwt")
  case (Inl e)
  then show ?thesis by (intro exI [of _ "RenewTokenRequestInterval opt"] exI [of _ "[]"])
      (simp add: adjustTokenRequestRenewalOption_def)
next
  case (Inr t)
  then show ?thesis
    by (intro exI [of _ "result (adjustTokenRequestRenewalOption E opt jwt) s"] exI [of _ "[Call_Now]"])
      (simp add: adjustTokenRequestRenewalOption_def time_Until_def time_Now_def Let_def)
qed

text \<open>
  Among the calls between two histories, a token was created and then the kubeconfig that carries it
  was written to the cluster's Secret, under the key the cluster asks for, both successfully.
\<close>

definition token_stored :: "env \<Rightarrow> rest_config \<Rightarrow> sveltos_cluster \<Rightarrow> call list \<Rightarrow> call list \<Rightarrow> bool" where
  "token_stored E cfg c h0 h' \<longleftrightarrow>
     (\<exists>pre ns n expiration token between rest.
        let create = Call_CreateToken cfg ns n expiration;
            data = getKubeconfigFromToken ns n token [] cfg;
            update = Call_UpdateSecretData (Namespace c) (Name c) data (getKubeconfigKey c)
        in h' = h0 @ pre @ create # between @ update # rest \<and>
           CreateToken E (h0 @ pre) cfg ns n expiration = Inr token \<and>
           UpdateSveltosSecretData E (h0 @ pre @ create # between) (Namespace c) (Name c) data (getKubeconfigKey c) = None)"

text \<open>What identifies the Secret of a cluster; no step of a renewal changes it.\<close>

definition secret_id :: "sveltos_cluster \<Rightarrow> string \<times> string \<times> string" where
  "secret_id c = (Namespace c, Name c, getKubeconfigKey c)"

lemma secret_id_frame: "secret_id c = secret_id (renewal_frame c)"
  by (simp add: secret_id_def getKubeconfigKey_def renewal_frame_def split: option.split)

lemma token_stored_id: "secret_id c = secret_id d \<Longrightarrow> token_stored E cfg c h h' = token_stored E cfg d h h'"
  by (simp add: token_stored_def secret_id_def)

lemma token_stored_append: "token_stored E cfg c h h' \<Longrightarrow> token_stored E cfg c h (h' @ cs)"
  unfolding token_stored_def Let_def by (metis append.assoc append_Cons)

lemma token_stored_prefix: "token_stored E cfg c (h @ cs) h' \<Longrightarrow> token_stored E cfg c h h'"
  unfolding token_stored_def Let_def by (metis append.assoc)

definition stamps_after_write :: "env \<Rightarrow> rest_config \<Rightarrow> (sveltos_cluster, 'a) act \<Rightarrow> bool" where
  "stamps_after_write E cfg m \<longleftrightarrow>
     (\<forall>s. (\<exists>cs. calls (final m s) = calls s @ cs) \<and> secret_id (obj (final m s)) = secret_id (obj s) \<and>
       (LastReconciledTokenRequestAt (Status (obj (final m s))) =
          LastReconciledTokenRequestAt (Status (obj s)) \<or>
        token_stored E cfg (obj s) (calls s) (calls (final m s))))"

lemma stamps_simple:
  "stamps_after_write E cfg (State_Monad.return a)" "stamps_after_write E cfg (gets g)"
  "stamps_after_write E cfg (external ans cl)"
  by (simp_all add: stamps_after_write_def)

lemma stamps_bind:
  assumes "stamps_after_write E cfg m" "\<And>a. stamps_after_write E cfg (f a)"
  shows "stamps_after_write E cfg (State_Monad.bind m f)"
  unfolding stamps_after_write_def
proof
  fix s
  let ?s1 = "final m s" and ?s2 = "final (f (result m s)) (final m s)"
  obtain cs where cs: "calls ?s1 = calls s @ cs" "secret_id (obj ?s1) = secret_id (obj s)"
      "LastReconciledTokenRequestAt (Status (obj ?s1)) = LastReconciledTokenRequestAt (Status (obj s)) \<or>
       token_stored E cfg (obj s) (calls s) (calls ?s1)"
    using assms(1) unfolding stamps_after_write_def by blast
  obtain ds where ds: "calls ?s2 = calls ?s1 @ ds" "secret_id (obj ?s2) = secret_id (obj ?s1)"
      "LastReconciledTokenRequestAt (Status (obj ?s2)) = LastReconciledTokenRequestAt (Status (obj ?s1)) \<or>
       token_stored E cfg (obj ?s1) (calls ?s1) (calls ?s2)"
    using assms(2) unfolding stamps_after_write_def by blast
  have fin: "final (State_Monad.bind m f) s = ?s2" by (simp add: run_bind_pair del: run_state_bind)
  show "(\<exists>cs. calls (final (State_Monad.bind m f) s) = calls s @ cs) \<and>
      secret_id (obj (final (State_Monad.bind m f) s)) = secret_id (obj s) \<and>
      (LastReconciledTokenRequestAt (Status (obj (final (State_Monad.bind m f) s))) =
         LastReconciledTokenRequestAt (Status (obj s)) \<or>
       token_stored E cfg (obj s) (calls s) (calls (final (State_Monad.bind m f) s)))"
    unfolding fin using cs ds token_stored_append [of E cfg "obj s" "calls s" "calls ?s1" ds]
      token_stored_prefix [of E cfg "obj s" "calls s" cs "calls ?s2"] token_stored_id [OF cs(2)] by auto
qed

lemma stamps_case:
  "(b \<Longrightarrow> stamps_after_write E cfg m) \<Longrightarrow> (\<not> b \<Longrightarrow> stamps_after_write E cfg n) \<Longrightarrow>
   stamps_after_write E cfg (if b then m else n)"
  "stamps_after_write E cfg m' \<Longrightarrow> (\<And>a. stamps_after_write E cfg (f a)) \<Longrightarrow>
   stamps_after_write E cfg (case x of None \<Rightarrow> m' | Some a \<Rightarrow> f a)"
  "(\<And>a. stamps_after_write E cfg (g a)) \<Longrightarrow> (\<And>a. stamps_after_write E cfg (k a)) \<Longrightarrow>
   stamps_after_write E cfg (case z of Inl a \<Rightarrow> g a | Inr a \<Rightarrow> k a)"
  by (auto split: option.split sum.split)

text \<open>One round from the moment the token is there: a write and, when it succeeds, the stamp.\<close>

lemma store_kubeconfig_stamp:
  fixes E key data and u :: "(sveltos_cluster, call) st"
  defines "u' \<equiv> final (store_kubeconfig E (obj u) data key) u"
  shows "LastReconciledTokenRequestAt (Status (obj u')) = LastReconciledTokenRequestAt (Status (obj u)) \<or>
    UpdateSveltosSecretData E (calls u) (Namespace (obj u)) (Name (obj u)) data key = None \<and>
    (\<exists>rest. calls u' = calls u @ Call_UpdateSecretData (Namespace (obj u)) (Name (obj u)) data key # rest)"
  by (auto simp: u'_def store_kubeconfig_def stamp_renewal_def now_RFC3339_def time_Now_def split: option.split)

lemma stamps_renew_once: "stamps_after_write E cfg (renew_once E cfg secs ns n)"
  unfolding stamps_after_write_def
proof (intro allI conjI)
  fix s :: "(sveltos_cluster, call) st"
  let ?m = "renew_once E cfg secs ns n" and ?x = "int64_of_float E secs"
  let ?h = "calls s @ [Call_NewForConfig cfg]"
  let ?create = "Call_CreateToken cfg ns n ?x"
  show "\<exists>cs. calls (final ?m s) = calls s @ cs"
    using only_callsD [OF only_calls_renew_once] by blast
  have "keeps (\<lambda>s. secret_id (obj s)) ?m"
    by (intro keeps_frame_view [OF keeps_renew_once] secret_id_frame)
  then show "secret_id (obj (final ?m s)) = secret_id (obj s)" by (rule keepsD)
  show "LastReconciledTokenRequestAt (Status (obj (final ?m s))) = LastReconciledTokenRequestAt (Status (obj s)) \<or>
      token_stored E cfg (obj s) (calls s) (calls (final ?m s))"
  proof (cases "NewForConfig E (calls s) cfg = None \<and> (\<exists>token. CreateToken E ?h cfg ns n ?x = Inr token)")
    case False
    then show ?thesis
      by (auto simp: renew_once_def getServiceAccountTokenRequest_def Let_def split: sum.splits option.splits)
  next
    case True
    then obtain token where token: "NewForConfig E (calls s) cfg = None" "CreateToken E ?h cfg ns n ?x = Inr token"
      by blast
    define u where "u = final (case TokenRequestRenewalOption (Spec (obj s)) of
         None \<Rightarrow> skip
       | Some opt \<Rightarrow> do { interval \<leftarrow> adjustTokenRequestRenewalOption E opt token; set_interval interval })
      (s\<lparr>calls := ?h @ [?create]\<rparr>)"
    let ?data = "getKubeconfigFromToken ns n token [] cfg"
    have fin: "final ?m s = final (store_kubeconfig E (obj u) ?data (getKubeconfigKey (obj u))) u"
      by (simp add: renew_once_def getServiceAccountTokenRequest_def Let_def token run_bind_pair u_def del: run_state_bind)
    obtain cs where u: "calls u = (?h @ [?create]) @ cs" "secret_id (obj u) = secret_id (obj s)"
      "Status (obj u) = Status (obj s)"
    proof (cases "TokenRequestRenewalOption (Spec (obj s))")
      case None
      then show ?thesis by (intro that [of "[]"]) (simp_all add: u_def)
    next
      case (Some opt)
      obtain d cs where "run_state (adjustTokenRequestRenewalOption E opt token) (s\<lparr>calls := ?h @ [?create]\<rparr>) =
          (d, s\<lparr>calls := (?h @ [?create]) @ cs\<rparr>)"
        using run_adjust [of E opt token "s\<lparr>calls := ?h @ [?create]\<rparr>"] by auto
      then show ?thesis
        by (intro that [of cs]) (simp_all add: u_def Some set_interval_def secret_id_def getKubeconfigKey_def)
    qed
    then have id: "Namespace (obj u) = Namespace (obj s)" "Name (obj u) = Name (obj s)"
      "getKubeconfigKey (obj u) = getKubeconfigKey (obj s)" by (simp_all add: secret_id_def)
    from store_kubeconfig_stamp [of E u ?data "getKubeconfigKey (obj u)"] show ?thesis
    proof (elim disjE conjE exE)
      fix rest
      assume w: "UpdateSveltosSecretData E (calls u) (Namespace (obj u)) (Name (obj u)) ?data (getKubeconfigKey (obj u)) = None"
        "calls (final (store_kubeconfig E (obj u) ?data (getKubeconfigKey (obj u))) u) =
          calls u @ Call_UpdateSecretData (Namespace (obj u)) (Name (obj u)) ?data (getKubeconfigKey (obj u)) # rest"
      have "token_stored E cfg (obj s) (calls s) (calls (final ?m s))"
        unfolding token_stored_def Let_def fin w(2) using w(1) token u(1) id
        by (intro exI [of _ "[Call_NewForConfig cfg]"] exI [of _ ns] exI [of _ n] exI [of _ ?x] exI [of _ token]
            exI [of _ cs] exI [of _ rest]) simp
      then show ?thesis by blast
    qed (simp add: fin u(3))
  qed
qed

lemma stamps_renew_contexts: "stamps_after_write E cfg (renew_contexts E cfg secs ccs ns n)"
  by (induction ccs arbitrary: ns n)
    (auto simp: Let_def intro!: stamps_bind stamps_simple stamps_renew_once)

text \<open>
  C5: the status records a renewal only if, during that very renewal, a token was created and the
  kubeconfig that carries it was written to the cluster's own Secret, under the key the cluster asks
  for, both successfully. A renewal that fails anywhere leaves the recorded time alone, so the token
  stays due.
\<close>

theorem renewal_recorded_after_write:
  assumes "LastReconciledTokenRequestAt (Status (obj (final (handleTokenRequestRenewal E cfg) s))) \<noteq>
    LastReconciledTokenRequestAt (Status (obj s))"
  shows "token_stored E cfg (obj s) (calls s) (calls (final (handleTokenRequestRenewal E cfg) s))"
proof -
  have "stamps_after_write E cfg (getServiceAccountDetails E cfg)"
    unfolding getServiceAccountDetails_def whoami_def Let_def
    by (intro stamps_bind stamps_case stamps_simple)
  then have "stamps_after_write E cfg (handleTokenRequestRenewal E cfg)"
    unfolding handleTokenRequestRenewal_def Let_def
    by (intro stamps_bind stamps_case stamps_simple stamps_renew_contexts)
  with assms show ?thesis unfolding stamps_after_write_def by blast
qed

section \<open>The first context that names a user decides for all\<close>

fun rounds :: "nat \<Rightarrow> (sveltos_cluster, unit) act \<Rightarrow> (sveltos_cluster, unit) act" where
  "rounds 0 m = skip"
| "rounds (Suc n) m = do { m; rounds n m }"

lemma renew_contexts_named:
  "name \<noteq> [] \<Longrightarrow> renew_contexts E cfg secs ccs ns name =
    rounds (if ns = [] then 0 else length ccs) (renew_once E cfg secs ns name)"
  by (cases "ns = []"; induction ccs) simp_all

lemma renew_contexts_first_named:
  assumes "list_all (\<lambda>c. CtxAuthInfo c = []) pre" "CtxAuthInfo cc \<noteq> []"
  shows "renew_contexts E cfg secs (pre @ cc # post) ns [] =
    rounds (if CtxNamespace cc = [] then 0 else Suc (length post))
      (renew_once E cfg secs (CtxNamespace cc) (CtxAuthInfo cc))"
  using assms by (induction pre arbitrary: ns) (simp_all add: renew_contexts_named Let_def)

text \<open>
  C28: when no ServiceAccount is configured and the credentials are not those of one, the first context
  of the kubeconfig that names a user decides for all of them: the contexts before it are skipped,
  and the user and the namespace found in it are kept for every context behind it, whatever that
  context names. So a context with a namespace is renewed, for the same user and namespace, once for
  itself and once for each context behind it, while a context without one stops the renewal: no
  token is requested for any context, although those behind it may name a namespace and a user. No
  error is reported in either case.
\<close>

theorem first_named_context_decides:
  fixes s :: "(sveltos_cluster, call) st"
  defines "c \<equiv> obj s" and "s1 \<equiv> s\<lparr>calls := calls s @ [Call_GetSecretData (Namespace (obj s)) (Name (obj s))]\<rparr>"
  assumes "TokenRequestRenewalOption (Spec c) = Some opt"
    and "GetSveltosSecretData E (calls s) (Namespace c) (Name c) = Inr bytes"
    and "yaml_Contexts E bytes = Inr (pre @ cc # post)"
    and "list_all (\<lambda>c. CtxAuthInfo c = []) pre" "CtxAuthInfo cc \<noteq> []"
    and "result (getServiceAccountDetails E cfg) s1 = Inr (ns, [])"
  shows "run_state (handleTokenRequestRenewal E cfg) s =
    (None, final (rounds (if CtxNamespace cc = [] then 0 else Suc (length post))
       (renew_once E cfg (getEffectiveTokenDurationInSecond opt) (CtxNamespace cc) (CtxAuthInfo cc)))
      (final (getServiceAccountDetails E cfg) s1))"
  using assms(3-8) renew_contexts_first_named [OF assms(6,7)]
  by (simp add: handleTokenRequestRenewal_def run_bind_pair c_def s1_def Let_def del: run_state_bind)

section \<open>Witnesses\<close>

definition token_option0 :: token_option where
  "token_option0 = \<lparr>RenewTokenRequestInterval = 3600 * Second, TokenDuration = 0, SANamespace = [],
     SAName = [], OptKubeconfigKeyName = None\<rparr>"

definition token_cluster :: sveltos_cluster where
  "token_cluster = cluster0\<lparr>Spec := spec0\<lparr>TokenRequestRenewalOption := Some token_option0\<rparr>\<rparr>"

definition token_st :: "(sveltos_cluster, call) st" where
  "token_st = \<lparr>obj = token_cluster, calls = []\<rparr>"

lemmas token_defs = token_option0_def token_cluster_def token_st_def

text \<open>An hour's interval: not due after 3000 seconds, due after 3001.\<close>

definition at_time :: "gotime \<Rightarrow> env" where
  "at_time t = env0\<lparr>clock := (\<lambda>_. t)\<rparr>"

lemma at_time_fields [simp]: "clock (at_time t) = (\<lambda>_. t)" "local_offset (at_time t) = (\<lambda>_. 0)"
  by (simp_all add: at_time_def env0_def)

lemma token_st_fields [simp]:
  "TokenRequestRenewalOption (Spec (obj token_st)) = Some token_option0" "calls token_st = []"
  "CreationTimestamp (obj token_st) = 0" "LastReconciledTokenRequestAt (Status (obj token_st)) = []"
  "lastRenewal (obj token_st) = 0" "Namespace (obj token_st) = ''ns''" "Name (obj token_st) = ''c1''"
  by (simp_all add: token_defs sample_defs lastRenewal_def)

theorem shouldRenewTokenRequest_due_witness:
  "\<not> result (shouldRenewTokenRequest (at_time (3000 * Second))) token_st \<and>
   result (shouldRenewTokenRequest (at_time (3001 * Second))) token_st"
  using shouldRenewTokenRequest_due [of token_st token_option0 3600 "at_time (3000 * Second)"]
    shouldRenewTokenRequest_due [of token_st token_option0 3600 "at_time (3001 * Second)"]
  by (simp add: token_option0_def is_int64_def due_after_def)

theorem lastRenewal_stored_witness:
  "lastRenewal (obj (final (stamp_renewal (at_time (1700000000 * Second + 5))) token_st)) = 1700000000 * Second"
proof -
  have "(1700000000 * Second + 5) div Second = 1700000000" by (rule int_div_pos_eq [where r = 5]) simp_all
  then show ?thesis
    using lastRenewal_stored [of "at_time (1700000000 * Second + 5)" "1700000000 * Second + 5" token_st]
    by simp
qed

theorem getTokenExpiration_claims_witness:
  "getTokenExpiration env0 (''h'' @ ''.'' @ b64_encode url_alphabet (print_object [(''iat'', 10), (''exp'', 3610)]) @
     ''.'' @ ''sig'') = Inr (3610 * Second)"
  using getTokenExpiration_claims [of "''h''" "''sig''" "[(''iat'', 10), (''exp'', 3610)]" env0]
  by (simp add: printable_def plain_string_def code_def)

theorem getKubeconfigFromToken_read_back_witness:
  "yaml_values ''token'' (getKubeconfigFromToken ''kube-system'' ''admin'' ''tok'' [] config0) = [''tok''] \<and>
   yaml_values ''server'' (getKubeconfigFromToken ''kube-system'' ''admin'' ''tok'' [] config0) = [''https://10.0.0.1:6443'']"
  using getKubeconfigFromToken_read_back [of "''kube-system''" "''admin''" "''tok''" "[]" config0]
  by (simp add: config0_def newline_def)

theorem adjustTokenRequestRenewalOption_interval_witness:
  "result (adjustTokenRequestRenewalOption (at_time 0) (token_option0\<lparr>TokenDuration := 7200 * Second\<rparr>)
     (''h'' @ ''.'' @ b64_encode url_alphabet (print_object [(''exp'', 3600)]) @ ''.'' @ ''s'')) token_st =
    3600 * Second"
proof -
  have "getTokenExpiration (at_time 0)
      (''h'' @ ''.'' @ b64_encode url_alphabet (print_object [(''exp'', 3600)]) @ ''.'' @ ''s'') = Inr (3600 * Second)"
    using claims_expiration [of "''h''" "''s''" "[(''exp'', 3600)]" "at_time 0"]
    by (simp add: printable_def plain_string_def code_def)
  from adjustTokenRequestRenewalOption_interval [OF this,
      of "token_option0\<lparr>TokenDuration := 7200 * Second\<rparr>" 7200 token_st]
  show ?thesis by (simp add: requested_for_def is_int64_def token_option0_def)
qed

theorem token_requested_for_witness:
  "calls (final (getServiceAccountTokenRequest env0 config0 ''kube-system'' ''admin''
      (getEffectiveTokenDurationInSecond token_option0)) token_st) =
    [Call_NewForConfig config0, Call_CreateToken config0 ''kube-system'' ''admin'' 5400]"
  using token_requested_for [of token_option0 3600 env0 token_st config0 "''kube-system''" "''admin''"]
  by (simp add: token_option0_def is_int64_def env0_def)

theorem renewal_recorded_after_write_witness:
  "token_stored env0 config0 (obj token_st) [] (calls (final (handleTokenRequestRenewal env0 config0) token_st))"
proof -
  have "formatRFC3339 off t \<noteq> []" for off t by (simp add: formatRFC3339_def Let_def case_prod_beta)
  then have "LastReconciledTokenRequestAt (Status (obj (final (handleTokenRequestRenewal env0 config0) token_st))) \<noteq> []"
    by (simp add: handleTokenRequestRenewal_def getServiceAccountDetails_def whoami_def token_defs sample_defs
        ParseServiceAccountUsername_def serviceAccountPrefix_def HasPrefix_def TrimPrefix_def SplitN2_def
        renew_once_def getServiceAccountTokenRequest_def store_kubeconfig_def stamp_renewal_def now_RFC3339_def
        time_Now_def adjustTokenRequestRenewalOption_def getTokenExpiration_def set_interval_def Let_def)
  then show ?thesis
    using renewal_recorded_after_write [of env0 config0 token_st] by simp
qed

text \<open>Two contexts, of which the first names a user without a namespace.\<close>

definition contexts_env :: env where
  "contexts_env = env0\<lparr>SelfSubjectReview := (\<lambda>_ _. Inr ''admin''),
     yaml_Contexts := (\<lambda>_. Inr [\<lparr>CtxNamespace = [], CtxAuthInfo = ''a''\<rparr>, \<lparr>CtxNamespace = ''default'', CtxAuthInfo = ''b''\<rparr>])\<rparr>"

theorem first_named_context_decides_witness:
  "filter (\<lambda>c. case c of Call_CreateToken _ _ _ _ \<Rightarrow> True | _ \<Rightarrow> False)
     (calls (final (handleTokenRequestRenewal contexts_env config0) token_st)) = []"
proof -
  let ?s1 = "token_st\<lparr>calls := calls token_st @ [Call_GetSecretData (Namespace (obj token_st)) (Name (obj token_st))]\<rparr>"
  have sa: "run_state (getServiceAccountDetails contexts_env config0) ?s1 =
      (Inr ([], []), ?s1\<lparr>calls := calls ?s1 @ [Call_NewForConfig config0, Call_SelfSubjectReview config0]\<rparr>)"
    by (simp add: getServiceAccountDetails_def whoami_def contexts_env_def env0_def token_option0_def
        ParseServiceAccountUsername_def serviceAccountPrefix_def HasPrefix_def Let_def)
  show ?thesis
    using first_named_context_decides [of token_st token_option0 contexts_env "[]" "[]" "\<lparr>CtxNamespace = [], CtxAuthInfo = ''a''\<rparr>"
        "[\<lparr>CtxNamespace = ''default'', CtxAuthInfo = ''b''\<rparr>]" config0 "[]"] sa
    by (simp add: contexts_env_def env0_def)
qed

end
