(* ===== verification/License_Relay.thy ===== *)
theory License_Relay
  imports Scope Sample
begin

text \<open>
  \<open>updateLicenseAnnotations\<close> of \<open>controllers/sveltoscluster_controller.go\<close>: the payload and the
  signature of the license Secret, base64-encoded, as annotations of a pull-mode cluster.
  \<open>relay_annotations\<close> is what it does to the annotations, the comparisons that avoid a needless
  write included: reading a missing annotation gives the empty string.
\<close>

definition relay_annotations ::
    "env \<Rightarrow> verification_result \<Rightarrow> (string, string) gomap \<Rightarrow> (string, string) gomap" where
  "relay_annotations E res annotations =
     (case PayloadData res of
        None \<Rightarrow>
          (case annotations of
             None \<Rightarrow> None
           | Some m \<Rightarrow>
               if m (LicensePayloadAnnotation E) = None \<and> m (LicenseSignatureAnnotation E) = None then Some m
               else Some (m(LicensePayloadAnnotation E := None, LicenseSignatureAnnotation E := None)))
      | Some payload \<Rightarrow>
          let payloadAnnotation = StdEncoding_EncodeToString payload;
              signatureAnnotation = StdEncoding_EncodeToString (SignatureData res)
          in if annotations \<noteq> None \<and>
                lookup_str annotations (LicensePayloadAnnotation E) = payloadAnnotation \<and>
                lookup_str annotations (LicenseSignatureAnnotation E) = signatureAnnotation
             then annotations
             else let m = (case annotations of None \<Rightarrow> Map.empty | Some m \<Rightarrow> m)
                  in Some (m(LicensePayloadAnnotation E \<mapsto> payloadAnnotation,
                             LicenseSignatureAnnotation E \<mapsto> signatureAnnotation)))"

definition updateLicenseAnnotations :: "env \<Rightarrow> reconciler \<Rightarrow> (sveltos_cluster, unit) act" where
  "updateLicenseAnnotations E r = do {
     publicKey \<leftarrow> external (GetPublicKey E) Call_GetPublicKey;
     case publicKey of
       Inl _ \<Rightarrow> skip
     | Inr key \<Rightarrow> do {
         res \<leftarrow> external (\<lambda>h. VerifyLicenseSecret E h (SveltosNamespace r) key)
                     (Call_VerifyLicenseSecret (SveltosNamespace r) key);
         modify (Annotations_update (relay_annotations E res))
       }
   }"

section \<open>Frame and call rules\<close>

definition license_call :: "call \<Rightarrow> bool" where
  "license_call c = (case c of Call_GetPublicKey \<Rightarrow> True | Call_VerifyLicenseSecret _ _ \<Rightarrow> True | _ \<Rightarrow> False)"

lemma keeps_updateLicenseAnnotations [keeps_rules]:
  "(\<And>f c. view (Annotations_update f c) = view c) \<Longrightarrow>
   keeps (\<lambda>s. view (obj s)) (updateLicenseAnnotations E r)"
  unfolding updateLicenseAnnotations_def by (intro keeps_rules)

lemma only_calls_updateLicenseAnnotations [calls_rules]:
  "only_calls license_call (updateLicenseAnnotations E r)"
  unfolding updateLicenseAnnotations_def by (intro calls_rules) (simp_all add: license_call_def)

section \<open>What is relayed\<close>

lemma decode_std: "b64_decode std_alphabet (takeWhile (\<lambda>c. c \<noteq> CHR ''='') (StdEncoding_EncodeToString d)) = Some d"
  by (simp add: EncodeToString_takeWhile std64.decode_encode)

lemma EncodeToString_Nil: "StdEncoding_EncodeToString [] = []"
  by (simp add: StdEncoding_EncodeToString_def b64_encode_def)

text \<open>With a verified payload: the two annotations carry it and its signature, the others stay.\<close>

lemma relay_result:
  assumes "LicensePayloadAnnotation E \<noteq> LicenseSignatureAnnotation E" and "PayloadData res = Some payload"
  shows "b64_decode std_alphabet (takeWhile (\<lambda>c. c \<noteq> CHR ''='')
        (lookup_str (relay_annotations E res annotations) (LicensePayloadAnnotation E))) = Some payload \<and>
    b64_decode std_alphabet (takeWhile (\<lambda>c. c \<noteq> CHR ''='')
        (lookup_str (relay_annotations E res annotations) (LicenseSignatureAnnotation E))) = Some (SignatureData res) \<and>
    (k \<noteq> LicensePayloadAnnotation E \<and> k \<noteq> LicenseSignatureAnnotation E \<longrightarrow>
      lookup (relay_annotations E res annotations) k = lookup annotations k)"
proof -
  let ?a = "relay_annotations E res annotations"
  have "lookup_str ?a (LicensePayloadAnnotation E) = StdEncoding_EncodeToString payload"
    "lookup_str ?a (LicenseSignatureAnnotation E) = StdEncoding_EncodeToString (SignatureData res)"
    using assms by (auto simp: relay_annotations_def Let_def lookup_str_def)
  then show ?thesis
    using assms by (auto simp: decode_std relay_annotations_def Let_def split: option.split)
qed

text \<open>
  Without a verified payload both license annotations are gone after a reconciliation and
  every other annotation is as it was.
\<close>

lemma relay_clears:
  assumes "PayloadData res = None"
  shows "lookup (relay_annotations E res annotations) k =
    (if k = LicensePayloadAnnotation E \<or> k = LicenseSignatureAnnotation E then None else lookup annotations k)"
  using assms by (auto simp: relay_annotations_def split: option.split)

text \<open>
  Relaying an unchanged license changes nothing, not even a nil map into an empty one, so the
  patch at the end of a reconciliation finds no difference in the annotations.
\<close>

lemma relay_idempotent:
  assumes "LicensePayloadAnnotation E \<noteq> LicenseSignatureAnnotation E"
  shows "relay_annotations E res (relay_annotations E res annotations) = relay_annotations E res annotations"
  using assms
  by (auto simp: relay_annotations_def Let_def lookup_str_def split: option.split)

section \<open>A sample\<close>

definition license_result :: verification_result where
  "license_result = verification0\<lparr>PayloadData := Some ''payload'', SignatureData := ''sig''\<rparr>"

end
