(* ===== verification/Events.thy ===== *)
theory Events
  imports World
begin

text \<open>
  \<open>controllers/events.go\<close>: Kubernetes events on a SveltosCluster when its connection goes down
  or recovers.
\<close>

definition recordEventf ::
    "env \<Rightarrow> reconciler \<Rightarrow> string \<Rightarrow> string \<Rightarrow> string \<Rightarrow> string \<Rightarrow> ('o, unit) act" where
  "recordEventf E r eventType reason action message =
     (if \<not> HasEventRecorder r then skip
      else external (\<lambda>_. ()) (Call_Event eventType reason action (TruncateNote E message)))"

definition getFailureMessage :: "env \<Rightarrow> sveltos_cluster \<Rightarrow> string" where
  "getFailureMessage E c =
     (case FailureMessage (Status c) of
        None \<Rightarrow> ''unknown failure''
      | Some m \<Rightarrow>
          if IsAgentTimeoutError E c
          then ''agent has not reported for longer than the maximum allowed time''
          else m)"

definition event_note :: "sveltos_cluster \<Rightarrow> string \<Rightarrow> string" where
  "event_note c m = ''cluster '' @ Namespace c @ ''/'' @ Name c @ '': '' @ m"

definition recordConnectionTransition ::
    "env \<Rightarrow> reconciler \<Rightarrow> connection_status \<Rightarrow> (sveltos_cluster, unit) act" where
  "recordConnectionTransition E r previousStatus = do {
     c \<leftarrow> gets (\<lambda>c. c);
     let currentStatus = ConnectionStatus (Status c);
     if previousStatus \<noteq> ConnectionDown \<and> currentStatus = ConnectionDown then
       recordEventf E r ''Warning''
         (if PullMode (Spec c) then AgentUnhealthy E else ClusterUnreachable E) (ActionConnecting E)
         (event_note c (getFailureMessage E c))
     else if previousStatus = ConnectionDown \<and> currentStatus \<noteq> ConnectionDown then
       recordEventf E r ''Normal'' (ClusterRecovered E) (ActionConnecting E)
         (event_note c
           (if PullMode (Spec c) then ''agent is reporting again'' else ''connection is healthy again''))
     else skip
   }"

lemmas event_defs = recordEventf_def recordConnectionTransition_def

lemma keeps_events [keeps_rules]:
  "keeps (\<lambda>s. view (obj s)) (recordEventf E r a b c d)"
  "keeps (\<lambda>s. view (obj s)) (recordConnectionTransition E r p)"
  unfolding event_defs Let_def by (intro keeps_rules)+

lemma only_calls_events:
  "only_calls event_call (recordEventf E r a b c d)"
  "only_calls event_call (recordConnectionTransition E r p)"
  unfolding event_defs Let_def by (intro calls_rules; simp add: event_call_def)+

text \<open>One event per change of status, none while it stays the same or with no recorder.\<close>

definition transition_events :: "reconciler \<Rightarrow> connection_status \<Rightarrow> connection_status \<Rightarrow> nat" where
  "transition_events r p q =
     (if HasEventRecorder r \<and> (p = ConnectionDown) \<noteq> (q = ConnectionDown) then 1 else 0)"

lemma recordConnectionTransition_count:
  "length (filter event_call (calls (final (recordConnectionTransition E r p) s))) =
     length (filter event_call (calls s)) +
     transition_events r p (ConnectionStatus (Status (obj s)))"
  by (simp add: event_defs Let_def transition_events_def event_call_def)

end
