(* ===== verification/Metrics.thy ===== *)
theory Metrics
  imports World
begin

text \<open>
  \<open>controllers/metrics.go\<close>. Each function is the sequence of calls it makes on the four gauge
  vectors. What a gauge vector does with them is Prometheus code, so the theorems take the
  registry's observable content after a history as a parameter \<open>val\<close>, with the documented
  behaviour of \<open>With(l).Set(v)\<close>, \<open>Delete(l)\<close> and \<open>DeletePartialMatch(l)\<close> as the hypothesis
  \<open>registry_laws\<close>; \<open>replay\<close> is a registry that satisfies it.
\<close>

definition StatusHealthy :: rat where "StatusHealthy = 0"
definition StatusDisconnected :: rat where "StatusDisconnected = 1"

definition labelClusterType :: string where "labelClusterType = ''cluster_type''"
definition labelClusterNamespace :: string where "labelClusterNamespace = ''cluster_namespace''"
definition labelClusterName :: string where "labelClusterName = ''cluster_name''"
definition labelKubernetesVersion :: string where "labelKubernetesVersion = ''kubernetes_version''"

lemmas label_defs =
  labelClusterType_def labelClusterNamespace_def labelClusterName_def labelKubernetesVersion_def

text \<open>The declared gauge vectors: the name a vector is exported under and the names of its labels.\<close>

definition metricNamespace :: string where "metricNamespace = ''projectsveltos''"

fun gauge_Name :: "gauge \<Rightarrow> string" where
  "gauge_Name clusterConnectivityGauge = ''cluster_connectivity_status''"
| "gauge_Name kubernetesVersionGauge = ''kubernetes_version_info''"
| "gauge_Name connectionFailuresGauge = ''connection_failures''"
| "gauge_Name agentLastHeartbeatTimestampGauge = ''agent_last_heartbeat_timestamp_seconds''"

definition gauge_fqName :: "gauge \<Rightarrow> string" where
  "gauge_fqName g = metricNamespace @ ''_'' @ gauge_Name g"

fun gauge_labelNames :: "gauge \<Rightarrow> string list" where
  "gauge_labelNames kubernetesVersionGauge =
     [labelClusterType, labelClusterNamespace, labelClusterName, labelKubernetesVersion]"
| "gauge_labelNames _ = [labelClusterType, labelClusterNamespace, labelClusterName]"

text \<open>What \<open>init\<close> registers.\<close>

definition registered_gauges :: "gauge list" where
  "registered_gauges = [clusterConnectivityGauge, kubernetesVersionGauge, connectionFailuresGauge,
     agentLastHeartbeatTimestampGauge]"

definition cluster_labels :: "string \<Rightarrow> string \<Rightarrow> string \<Rightarrow> labels" where
  "cluster_labels clusterType namespace name =
     [(labelClusterType, clusterType), (labelClusterNamespace, namespace), (labelClusterName, name)]"

definition version_labels :: "string \<Rightarrow> string \<Rightarrow> string \<Rightarrow> string \<Rightarrow> labels" where
  "version_labels clusterType namespace name version =
     cluster_labels clusterType namespace name @ [(labelKubernetesVersion, version)]"

definition gauge_Set :: "gauge \<Rightarrow> labels \<Rightarrow> rat \<Rightarrow> ('o, unit) act" where
  "gauge_Set g l v = external (\<lambda>_. ()) (Call_GaugeSet g l v)"

definition gauge_Delete :: "gauge \<Rightarrow> labels \<Rightarrow> ('o, unit) act" where
  "gauge_Delete g l = external (\<lambda>_. ()) (Call_GaugeDelete g l)"

definition gauge_DeletePartialMatch :: "gauge \<Rightarrow> labels \<Rightarrow> ('o, unit) act" where
  "gauge_DeletePartialMatch g l = external (\<lambda>_. ()) (Call_GaugeDeletePartialMatch g l)"

lemmas gauge_defs = gauge_Set_def gauge_Delete_def gauge_DeletePartialMatch_def

definition updateClusterConnectionStatusMetric ::
    "string \<Rightarrow> string \<Rightarrow> string \<Rightarrow> connection_status \<Rightarrow> ('o, unit) act" where
  "updateClusterConnectionStatusMetric clusterType namespace name status =
     (let v = (if status = ConnectionHealthy then StatusHealthy else StatusDisconnected)
      in gauge_Set clusterConnectivityGauge (cluster_labels clusterType namespace name) v)"

definition updateKubernetesVersionMetric ::
    "string \<Rightarrow> string \<Rightarrow> string \<Rightarrow> string \<Rightarrow> ('o, unit) act" where
  "updateKubernetesVersionMetric clusterType namespace name version = do {
     gauge_DeletePartialMatch kubernetesVersionGauge (cluster_labels clusterType namespace name);
     gauge_Set kubernetesVersionGauge (version_labels clusterType namespace name version) 1
   }"

definition updateConnectionFailuresMetric ::
    "string \<Rightarrow> string \<Rightarrow> string \<Rightarrow> int \<Rightarrow> ('o, unit) act" where
  "updateConnectionFailuresMetric clusterType namespace name failures =
     gauge_Set connectionFailuresGauge (cluster_labels clusterType namespace name)
       (fl64 (of_int failures))"

text \<open>\<open>lastReportTime.Unix()\<close> rounds down to the second.\<close>

definition updateAgentLastHeartbeatMetric ::
    "string \<Rightarrow> string \<Rightarrow> string \<Rightarrow> gotime \<Rightarrow> ('o, unit) act" where
  "updateAgentLastHeartbeatMetric clusterType namespace name lastReportTime =
     gauge_Set agentLastHeartbeatTimestampGauge (cluster_labels clusterType namespace name)
       (fl64 (of_int (lastReportTime div Second)))"

definition deleteClusterMetrics :: "string \<Rightarrow> string \<Rightarrow> string \<Rightarrow> ('o, unit) act" where
  "deleteClusterMetrics clusterType namespace name = (
     let labels = cluster_labels clusterType namespace name in do {
     gauge_Delete clusterConnectivityGauge labels;
     gauge_DeletePartialMatch kubernetesVersionGauge labels;
     gauge_Delete connectionFailuresGauge labels;
     gauge_Delete agentLastHeartbeatTimestampGauge labels
   })"

lemmas metric_defs =
  updateClusterConnectionStatusMetric_def updateKubernetesVersionMetric_def
  updateConnectionFailuresMetric_def updateAgentLastHeartbeatMetric_def deleteClusterMetrics_def

section \<open>Frame and call rules\<close>

lemma keeps_metrics [keeps_rules]:
  "keeps (\<lambda>s. view (obj s)) (updateClusterConnectionStatusMetric t ns n st)"
  "keeps (\<lambda>s. view (obj s)) (updateKubernetesVersionMetric t ns n v)"
  "keeps (\<lambda>s. view (obj s)) (updateConnectionFailuresMetric t ns n k)"
  "keeps (\<lambda>s. view (obj s)) (updateAgentLastHeartbeatMetric t ns n lr)"
  "keeps (\<lambda>s. view (obj s)) (deleteClusterMetrics t ns n)"
  unfolding metric_defs gauge_defs Let_def by (intro keeps_rules)+

lemma only_calls_metrics:
  "only_calls gauge_call (updateClusterConnectionStatusMetric t ns n st)"
  "only_calls gauge_call (updateKubernetesVersionMetric t ns n v)"
  "only_calls gauge_call (updateConnectionFailuresMetric t ns n k)"
  "only_calls gauge_call (updateAgentLastHeartbeatMetric t ns n lr)"
  "only_calls gauge_call (deleteClusterMetrics t ns n)"
  unfolding metric_defs gauge_defs Let_def by (intro calls_rules; simp add: gauge_call_def)+

text \<open>
  \<open>With\<close> panics and \<open>Delete\<close> finds nothing when the labels given are not those the vector was
  declared with.
\<close>

definition well_labelled :: "call \<Rightarrow> bool" where
  "well_labelled c = (case c of
     Call_GaugeSet g l _ \<Rightarrow> map fst l = gauge_labelNames g
   | Call_GaugeDelete g l \<Rightarrow> map fst l = gauge_labelNames g
   | Call_GaugeDeletePartialMatch g l \<Rightarrow> set (map fst l) \<subseteq> set (gauge_labelNames g)
   | _ \<Rightarrow> True)"

lemma well_labelled_other: "\<not> gauge_call c \<Longrightarrow> well_labelled c"
  by (cases c) (simp_all add: well_labelled_def gauge_call_def)

lemma well_labelled_metrics:
  "only_calls well_labelled (updateClusterConnectionStatusMetric t ns n st)"
  "only_calls well_labelled (updateKubernetesVersionMetric t ns n v)"
  "only_calls well_labelled (updateConnectionFailuresMetric t ns n k)"
  "only_calls well_labelled (updateAgentLastHeartbeatMetric t ns n lr)"
  "only_calls well_labelled (deleteClusterMetrics t ns n)"
  unfolding metric_defs gauge_defs Let_def
  by (intro calls_rules; simp add: well_labelled_def cluster_labels_def version_labels_def)+

section \<open>The registry\<close>

type_synonym registry = "call list \<Rightarrow> gauge \<Rightarrow> labels \<Rightarrow> rat option"

definition registry_laws :: "registry \<Rightarrow> bool" where
  "registry_laws val \<longleftrightarrow>
     (\<forall>h g l v g' l'. val (h @ [Call_GaugeSet g l v]) g' l' =
        (if g' = g \<and> l' = l then Some v else val h g' l')) \<and>
     (\<forall>h g l g' l'. val (h @ [Call_GaugeDelete g l]) g' l' =
        (if g' = g \<and> l' = l then None else val h g' l')) \<and>
     (\<forall>h g l g' l'. val (h @ [Call_GaugeDeletePartialMatch g l]) g' l' =
        (if g' = g \<and> set l \<subseteq> set l' then None else val h g' l')) \<and>
     (\<forall>h c. \<not> gauge_call c \<longrightarrow> val (h @ [c]) = val h)"

fun gauge_step :: "(gauge \<Rightarrow> labels \<Rightarrow> rat option) \<Rightarrow> call \<Rightarrow> gauge \<Rightarrow> labels \<Rightarrow> rat option" where
  "gauge_step m (Call_GaugeSet g l v) = (\<lambda>g' l'. if g' = g \<and> l' = l then Some v else m g' l')"
| "gauge_step m (Call_GaugeDelete g l) = (\<lambda>g' l'. if g' = g \<and> l' = l then None else m g' l')"
| "gauge_step m (Call_GaugeDeletePartialMatch g l) =
     (\<lambda>g' l'. if g' = g \<and> set l \<subseteq> set l' then None else m g' l')"
| "gauge_step m _ = m"

definition replay :: registry where
  "replay h = foldl gauge_step (\<lambda>_ _. None) h"

lemma registry_laws_replay: "registry_laws replay"
  unfolding registry_laws_def
proof (intro conjI allI impI)
  fix h c
  assume "\<not> gauge_call c"
  then show "replay (h @ [c]) = replay h"
    by (cases c) (simp_all add: replay_def gauge_call_def)
qed (simp_all add: replay_def)

lemma registry_lawsD:
  assumes "registry_laws val"
  shows "val (h @ [Call_GaugeSet g l v]) g' l' = (if g' = g \<and> l' = l then Some v else val h g' l')"
    and "val (h @ [Call_GaugeDelete g l]) g' l' = (if g' = g \<and> l' = l then None else val h g' l')"
    and "val (h @ [Call_GaugeDeletePartialMatch g l]) g' l' =
      (if g' = g \<and> set l \<subseteq> set l' then None else val h g' l')"
    and "\<not> gauge_call c \<Longrightarrow> val (h @ [c]) = val h"
  using assms by (auto simp: registry_laws_def)

text \<open>The laws determine the registry's content after any further calls.\<close>

lemma registry_step: "registry_laws val \<Longrightarrow> val (h @ [c]) = gauge_step (val h) c"
  by (cases c) (auto simp: registry_lawsD fun_eq_iff gauge_call_def)

lemma registry_fold: "registry_laws val \<Longrightarrow> val (h @ cs) = foldl gauge_step (val h) cs"
proof (induction cs arbitrary: h)
  case (Cons c cs)
  from Cons.IH [OF Cons.prems, of "h @ [c]"] show ?case
    by (simp add: registry_step [OF Cons.prems])
qed simp

lemma gauge_step_other: "\<not> gauge_call c \<Longrightarrow> gauge_step m c = m"
  by (cases c) (simp_all add: gauge_call_def)

lemma registry_only_calls:
  assumes "registry_laws val" "list_all (\<lambda>c. \<not> gauge_call c) cs"
  shows "val (h @ cs) = val h"
proof -
  have "foldl gauge_step m cs = m" for m
    using assms(2) by (induction cs) (simp_all add: gauge_step_other)
  then show ?thesis by (simp add: registry_fold [OF assms(1)])
qed

lemma cluster_labels_inj [simp]:
  "cluster_labels t ns n = cluster_labels t' ns' n' \<longleftrightarrow> t = t' \<and> ns = ns' \<and> n = n'"
  by (simp add: cluster_labels_def)

lemma version_labels_inj [simp]:
  "version_labels t ns n v = version_labels t' ns' n' v' \<longleftrightarrow> t = t' \<and> ns = ns' \<and> n = n' \<and> v = v'"
  by (simp add: version_labels_def)

lemma cluster_labels_subset [simp]:
  "set (cluster_labels t ns n) \<subseteq> set (version_labels t' ns' n' v) \<longleftrightarrow> t = t' \<and> ns = ns' \<and> n = n'"
  by (auto simp: version_labels_def cluster_labels_def label_defs)

lemma cluster_labels_prefix [simp]:
  "set (cluster_labels t ns n) \<subseteq> set (cluster_labels t' ns' n') \<longleftrightarrow> t = t' \<and> ns = ns' \<and> n = n'"
  by (auto simp: cluster_labels_def label_defs)

text \<open>The value a single gauge update leaves.\<close>

lemma connection_metric_value:
  assumes "registry_laws val"
  shows "val (calls (final (updateClusterConnectionStatusMetric t ns n st) s))
      clusterConnectivityGauge (cluster_labels t ns n) =
    Some (if st = ConnectionHealthy then StatusHealthy else StatusDisconnected)"
  by (simp add: updateClusterConnectionStatusMetric_def gauge_defs Let_def registry_fold [OF assms])

end
