(* ===== verification/Connection.thy ===== *)
theory Connection
  imports Scope Events Metrics Sample
begin

text \<open>
  The connection status of a SveltosCluster (\<open>updateConnectionStatus\<close> of
  \<open>controllers/sveltoscluster_controller.go\<close>): failures are counted, the cluster is down once
  the count reaches the threshold of its spec, one success brings it back.

  \<open>conn_step\<close> is the abstract automaton, and \<open>updateConnectionStatus_refines\<close> shows that the
  code implements it. The locale \<open>connection_tracker\<close> is the contract of a step that follows
  the automaton, however the step decides whether the cluster failed; what follows for whole
  runs is proved once in it. It is interpreted on a whole push-mode reconciliation in the
  theory of the controller.
\<close>

definition updateConnectionStatus :: "env \<Rightarrow> reconciler \<Rightarrow> (sveltos_cluster, unit) act" where
  "updateConnectionStatus E r = do {
     c \<leftarrow> gets (\<lambda>c. c);
     let previousStatus = ConnectionStatus (Status c);
     (if FailureMessage (Status c) \<noteq> None then do {
        mod_status (ConnectionFailures_update (\<lambda>n. wrap64 (n + 1)));
        c \<leftarrow> gets (\<lambda>c. c);
        if ConnectionFailures (Status c) \<ge> ConsecutiveFailureThreshold (Spec c)
        then mod_status (ConnectionStatus_update (\<lambda>_. ConnectionDown))
        else skip
      }
      else do {
        mod_status (ConnectionStatus_update (\<lambda>_. ConnectionHealthy));
        mod_status (ConnectionFailures_update (\<lambda>_. 0))
      });
     recordConnectionTransition E r previousStatus
   }"

section \<open>The abstract automaton\<close>

record conn =
  status_of :: connection_status
  failures_of :: int

definition conn_abs :: "sveltos_cluster \<Rightarrow> conn" where
  "conn_abs c = \<lparr>status_of = ConnectionStatus (Status c), failures_of = ConnectionFailures (Status c)\<rparr>"

definition conn_step :: "int \<Rightarrow> bool \<Rightarrow> conn \<Rightarrow> conn" where
  "conn_step threshold failed a =
     (if failed then
        let n = wrap64 (failures_of a + 1)
        in \<lparr>status_of = (if n \<ge> threshold then ConnectionDown else status_of a), failures_of = n\<rparr>
      else \<lparr>status_of = ConnectionHealthy, failures_of = 0\<rparr>)"

text \<open>The rest of the cluster is left alone.\<close>

definition conn_frame :: "sveltos_cluster \<Rightarrow> sveltos_cluster" where
  "conn_frame c = c\<lparr>Status := (Status c)\<lparr>ConnectionStatus := ConnectionHealthy, ConnectionFailures := 0\<rparr>\<rparr>"

lemma obj_recordConnectionTransition [simp]:
  "obj (final (recordConnectionTransition E r p) s) = obj s"
  using keepsD [OF keeps_events(2) [of "\<lambda>x. x"]] .

lemma conn_frame_updateConnectionStatus:
  "conn_frame (obj (final (updateConnectionStatus E r) s)) = conn_frame (obj s)"
  by (simp add: updateConnectionStatus_def Let_def run_bind_pair conn_frame_def del: run_state_bind)

lemma only_calls_updateConnectionStatus: "only_calls event_call (updateConnectionStatus E r)"
  unfolding updateConnectionStatus_def Let_def by (intro calls_rules only_calls_events)

lemma conn_abs_updateConnectionStatus:
  "conn_abs (obj (final (updateConnectionStatus E r) s)) =
    conn_step (ConsecutiveFailureThreshold (Spec (obj s))) (FailureMessage (Status (obj s)) \<noteq> None) (conn_abs (obj s))"
  by (simp add: updateConnectionStatus_def Let_def run_bind_pair conn_abs_def conn_step_def del: run_state_bind)

lemma updateConnectionStatus_events:
  "length (filter event_call (calls (final (updateConnectionStatus E r) s))) =
    length (filter event_call (calls s)) +
    transition_events r (ConnectionStatus (Status (obj s)))
      (ConnectionStatus (Status (obj (final (updateConnectionStatus E r) s))))"
  by (simp add: updateConnectionStatus_def Let_def run_bind_pair recordConnectionTransition_count
      del: run_state_bind)

text \<open>
  C6: \<open>updateConnectionStatus\<close> implements the abstract automaton: the new status and count
  are those of \<open>conn_step\<close> for whether a failure is recorded, nothing else of the cluster
  changes, and the only calls are events: with an event recorder exactly one when the cluster goes
  down or recovers and none otherwise, without a recorder none.
\<close>

theorem updateConnectionStatus_refines:
  "conn_abs (obj (final (updateConnectionStatus E r) s)) =
      conn_step (ConsecutiveFailureThreshold (Spec (obj s))) (FailureMessage (Status (obj s)) \<noteq> None) (conn_abs (obj s)) \<and>
    conn_frame (obj (final (updateConnectionStatus E r) s)) = conn_frame (obj s) \<and>
    (\<exists>cs. calls (final (updateConnectionStatus E r) s) = calls s @ cs \<and> list_all event_call cs \<and>
      length cs = transition_events r (ConnectionStatus (Status (obj s)))
        (ConnectionStatus (Status (obj (final (updateConnectionStatus E r) s)))))"
proof -
  obtain cs where cs: "calls (final (updateConnectionStatus E r) s) = calls s @ cs" "list_all event_call cs"
    using only_callsD [OF only_calls_updateConnectionStatus] by blast
  then have "filter event_call cs = cs" by (simp add: list_all_iff filter_id_conv)
  with cs updateConnectionStatus_events [of E r s] show ?thesis
    by (auto simp: conn_abs_updateConnectionStatus conn_frame_updateConnectionStatus)
qed

section \<open>Runs\<close>

text \<open>The states after each step of a run.\<close>

fun trace :: "('i \<Rightarrow> 's \<Rightarrow> 's) \<Rightarrow> 'i list \<Rightarrow> 's \<Rightarrow> 's list" where
  "trace step [] s = []"
| "trace step (i # is) s = step i s # trace step is (step i s)"

definition run_steps :: "('i \<Rightarrow> 's \<Rightarrow> 's) \<Rightarrow> 'i list \<Rightarrow> 's \<Rightarrow> 's" where
  "run_steps step is s = foldl (\<lambda>s i. step i s) s is"

lemma run_steps_simps [simp]:
  "run_steps step [] s = s"
  "run_steps step (is @ [i]) s = step i (run_steps step is s)"
  by (simp_all add: run_steps_def)

lemma trace_snoc [simp]: "trace step (is @ [i]) s = trace step is s @ [step i (run_steps step is s)]"
  by (induction "is" arbitrary: s) (simp_all add: run_steps_def)

text \<open>The length of the run of failures at the end.\<close>

definition trailing :: "bool list \<Rightarrow> nat" where
  "trailing bs = length (takeWhile (\<lambda>b. b) (rev bs))"

lemma trailing_snoc [simp]: "trailing (bs @ [b]) = (if b then Suc (trailing bs) else 0)"
  by (simp add: trailing_def)

lemma trailing_Nil [simp]: "trailing [] = 0"
  by (simp add: trailing_def)

lemma trailing_le: "trailing bs \<le> length bs"
  unfolding trailing_def using length_takeWhile_le [of "\<lambda>b. b" "rev bs"] by simp

text \<open>How often a property changes its value along a list of states.\<close>

fun changes :: "('s \<Rightarrow> bool) \<Rightarrow> 's list \<Rightarrow> nat" where
  "changes P (s # t # ss) = (if P s = P t then 0 else 1) + changes P (t # ss)"
| "changes P _ = 0"

lemma changes_snoc: "ss \<noteq> [] \<Longrightarrow> changes P (ss @ [t]) = changes P ss + (if P (last ss) = P t then 0 else 1)"
  by (induction P ss rule: changes.induct) auto

locale connection_tracker =
  fixes step :: "'i \<Rightarrow> 's \<Rightarrow> 's" and ok :: "'i \<Rightarrow> bool" and inv :: "'s \<Rightarrow> bool"
    and failing :: "'s \<Rightarrow> bool" and threshold :: "'s \<Rightarrow> int" and conn :: "'s \<Rightarrow> conn"
  assumes inv_step: "ok i \<Longrightarrow> inv s \<Longrightarrow> inv (step i s)"
    and threshold_step: "ok i \<Longrightarrow> inv s \<Longrightarrow> threshold (step i s) = threshold s"
    and conn_follows: "ok i \<Longrightarrow> inv s \<Longrightarrow>
      conn (step i s) = conn_step (threshold s) (failing (step i s)) (conn s)"
begin

lemma run_inv: "list_all ok is \<Longrightarrow> inv s \<Longrightarrow> inv (run_steps step is s)"
  by (induction "is" rule: rev_induct) (simp_all add: inv_step)

lemma run_threshold: "list_all ok is \<Longrightarrow> inv s \<Longrightarrow> threshold (run_steps step is s) = threshold s"
  by (induction "is" rule: rev_induct) (simp_all add: threshold_step run_inv)

lemma run_down_iff:
  assumes "list_all ok is" "inv s" "failures_of (conn s) = 0" "status_of (conn s) \<noteq> ConnectionDown"
    and "int (length is) < 2 ^ 63"
  shows "failures_of (conn (run_steps step is s)) = int (trailing (map failing (trace step is s))) \<and>
    (status_of (conn (run_steps step is s)) = ConnectionDown \<longleftrightarrow>
       1 \<le> trailing (map failing (trace step is s)) \<and>
       threshold s \<le> int (trailing (map failing (trace step is s))))"
  using assms(1,5)
proof (induction "is" rule: rev_induct)
  case Nil
  then show ?case using assms(3,4) by simp
next
  case (snoc i "is")
  let ?s = "run_steps step is s" and ?t = "trailing (map failing (trace step is s))"
  have len: "length (trace step is s) = length is" for "is" s by (induction "is" arbitrary: s) simp_all
  have t: "int ?t < 2 ^ 63 - 1"
    using trailing_le [of "map failing (trace step is s)"] snoc.prems(2) by (simp add: len)
  then have w: "wrap64 (int ?t + 1) = int ?t + 1" by (intro wrap64_id) (simp add: is_int64_def)
  from snoc have IH: "failures_of (conn ?s) = int ?t"
      "status_of (conn ?s) = ConnectionDown \<longleftrightarrow> 1 \<le> ?t \<and> threshold s \<le> int ?t" by auto
  have "conn (step i ?s) = conn_step (threshold s) (failing (step i ?s)) (conn ?s)"
    using snoc.prems(1) assms(2) by (simp add: conn_follows run_inv run_threshold)
  then show ?case using IH w by (auto simp: conn_step_def Let_def)
qed

end

text \<open>A tracker that also records an event for every change.\<close>

locale connection_events = connection_tracker +
  fixes events :: "'b \<Rightarrow> nat"
  assumes event_step: "ok i \<Longrightarrow> inv s \<Longrightarrow>
      events (step i s) = events s +
        (if (status_of (conn s) = ConnectionDown) = (status_of (conn (step i s)) = ConnectionDown) then 0 else 1)"
begin

lemma run_events:
  assumes "list_all ok is" "inv s"
  shows "events (run_steps step is s) =
    events s + changes (\<lambda>t. status_of (conn t) = ConnectionDown) (s # trace step is s)"
  using assms(1)
proof (induction "is" rule: rev_induct)
  case (snoc i "is")
  let ?D = "\<lambda>t. status_of (conn t) = ConnectionDown"
  have last: "last (s # trace step is s) = run_steps step is s" for "is"
    by (induction "is" rule: rev_induct) simp_all
  have "changes ?D (s # trace step (is @ [i]) s) =
      changes ?D (s # trace step is s) + (if ?D (run_steps step is s) = ?D (step i (run_steps step is s)) then 0 else 1)"
    using changes_snoc [of "s # trace step is s" ?D] last by (simp del: last.simps)
  then show ?case
    using snoc by (simp add: event_step [OF _ run_inv [OF _ assms(2)]])
qed simp

end

end
