(* ===== verification/Pull_Mode.thy ===== *)
theory Pull_Mode
  imports Token_Renewal License_Relay Connection
begin

text \<open>
  Pull-mode clusters (\<open>controllers/sveltoscluster_controller.go\<close>): they are not reachable, so
  their state is what the agent reports, and a renewed kubeconfig is delivered by staging and
  committing a Secret for the agent to pick up. Of the arguments of the \<open>pullmode\<close> calls only those
  that vary are kept: the requestor is always the SveltosCluster itself, the feature always token
  renewal.
\<close>

definition pullModeKubeconfigSecretNamePostfix :: string where
  "pullModeKubeconfigSecretNamePostfix = ''-sveltos-kubeconfig''"
definition pullModeKubeconfigSecretKey :: string where
  "pullModeKubeconfigSecretKey = ''kubeconfig''"
definition pullModeKubeconfigResourceKey :: string where
  "pullModeKubeconfigResourceKey = ''kubeconfig-secret''"
definition pullModeManagementClusterURLConfigMapKey :: string where
  "pullModeManagementClusterURLConfigMapKey = ''server''"
definition pullModeManagementClusterCAConfigMapKey :: string where
  "pullModeManagementClusterCAConfigMapKey = ''ca.crt''"
definition pullModeManagementClusterTLSServerNameConfigMapKey :: string where
  "pullModeManagementClusterTLSServerNameConfigMapKey = ''tls-server-name''"

lemmas pull_keys =
  pullModeKubeconfigSecretNamePostfix_def pullModeKubeconfigSecretKey_def
  pullModeKubeconfigResourceKey_def pullModeManagementClusterURLConfigMapKey_def
  pullModeManagementClusterCAConfigMapKey_def pullModeManagementClusterTLSServerNameConfigMapKey_def

section \<open>Delivering a renewed kubeconfig\<close>

record endpoint =
  server :: string
  caData :: string
  tlsServerName :: string

definition missing_key :: "string \<Rightarrow> string \<Rightarrow> string \<Rightarrow> goerr" where
  "missing_key namespace name key =
     errorf (''configmap '' @ namespace @ ''/'' @ name @ '' does not contain a '' @ quote key @ '' key'')"

definition endpoint_of_data ::
    "string \<Rightarrow> string \<Rightarrow> (string, string) gomap \<Rightarrow> goerr + endpoint" where
  "endpoint_of_data namespace name data =
     (if lookup_str data pullModeManagementClusterURLConfigMapKey = [] then
        Inl (missing_key namespace name pullModeManagementClusterURLConfigMapKey)
      else if lookup_str data pullModeManagementClusterCAConfigMapKey = [] then
        Inl (missing_key namespace name pullModeManagementClusterCAConfigMapKey)
      else Inr \<lparr>server = lookup_str data pullModeManagementClusterURLConfigMapKey,
                caData = lookup_str data pullModeManagementClusterCAConfigMapKey,
                tlsServerName = lookup_str data pullModeManagementClusterTLSServerNameConfigMapKey\<rparr>)"

definition getPullModeManagementClusterEndpoint ::
    "env \<Rightarrow> string \<Rightarrow> string \<Rightarrow> ('o, goerr + endpoint) act" where
  "getPullModeManagementClusterEndpoint E namespace name = do {
     configMap \<leftarrow> external (\<lambda>h. client_GetConfigMap E h namespace name) (Call_GetConfigMap namespace name);
     case configMap of
       Inl e \<Rightarrow> ret (Inl e)
     | Inr data \<Rightarrow> ret (endpoint_of_data namespace name data)
   }"

definition getPullModeKubeconfigSecret :: "string \<Rightarrow> string \<Rightarrow> string \<Rightarrow> secret" where
  "getPullModeKubeconfigSecret sveltosNamespace clusterName kubeconfigData =
     \<lparr>SecretNamespace = sveltosNamespace,
      SecretName = clusterName @ pullModeKubeconfigSecretNamePostfix,
      SecretData = [(pullModeKubeconfigSecretKey, kubeconfigData)]\<rparr>"

definition source_ref :: "env \<Rightarrow> sveltos_cluster \<Rightarrow> object_reference" where
  "source_ref E c =
     \<lparr>RefAPIVersion = GroupVersion E, RefKind = SveltosClusterKind E,
      RefNamespace = Namespace c, RefName = Name c, RefUID = UID c\<rparr>"

text \<open>From the kubeconfig to the committed Secret.\<close>

definition deliver_kubeconfig :: "env \<Rightarrow> reconciler \<Rightarrow> string \<Rightarrow> (sveltos_cluster, goerr option) act" where
  "deliver_kubeconfig E r kubeconfigData = do {
     c \<leftarrow> gets (\<lambda>c. c);
     case ToUnstructured E (getPullModeKubeconfigSecret (SveltosNamespace r) (Name c) kubeconfigData) of
       Inl e \<Rightarrow> ret (Some e)
     | Inr uSecret \<Rightarrow> do {
         let resources = [(pullModeKubeconfigResourceKey, [uSecret])];
         err \<leftarrow> external (\<lambda>h. StageResourcesForDeployment E h (Namespace c) (Name c) resources True)
                  (Call_Stage (Namespace c) (Name c) resources True);
         case err of
           Some e \<Rightarrow> ret (Some e)
         | None \<Rightarrow> do {
             err \<leftarrow> external (\<lambda>h. CommitStagedResourcesForDeployment E h (Namespace c) (Name c) (source_ref E c))
                      (Call_Commit (Namespace c) (Name c) (source_ref E c));
             case err of
               Some e \<Rightarrow> ret (Some e)
             | None \<Rightarrow> do { stamp_renewal E; ret None }
           }
       }
   }"

definition handlePullModeTokenRequestRenewal :: "env \<Rightarrow> reconciler \<Rightarrow> (sveltos_cluster, goerr option) act" where
  "handlePullModeTokenRequestRenewal E r = do {
     c \<leftarrow> gets (\<lambda>c. c);
     case TokenRequestRenewalOption (Spec c) of
       None \<Rightarrow> ret None
     | Some opt \<Rightarrow>
         if SAName opt = [] \<or> SANamespace opt = [] then ret None
         else do {
           let saExpirationInSecond = getEffectiveTokenDurationInSecond opt;
           ep \<leftarrow> getPullModeManagementClusterEndpoint E (SANamespace opt) (SAName opt);
           case ep of
             Inl e \<Rightarrow> ret (Some e)
           | Inr ep \<Rightarrow> do {
               tokenRequest \<leftarrow> getServiceAccountTokenRequest E (RConfig r) (SANamespace opt) (SAName opt)
                                saExpirationInSecond;
               case tokenRequest of
                 Inl e \<Rightarrow> ret (Some e)
               | Inr token \<Rightarrow> do {
                   interval \<leftarrow> adjustTokenRequestRenewalOption E opt token;
                   set_interval interval;
                   let kubeconfigServerConfig = (RConfig r)\<lparr>Host := server ep, CAData := caData ep\<rparr>;
                   deliver_kubeconfig E r (getKubeconfigFromToken (SANamespace opt) (SAName opt) token
                     (tlsServerName ep) kubeconfigServerConfig)
                 }
             }
         }
   }"

definition terminatePullModeTokenRenewalTrackingIfProvisioned :: "env \<Rightarrow> (sveltos_cluster, unit) act" where
  "terminatePullModeTokenRenewalTrackingIfProvisioned E = do {
     c \<leftarrow> gets (\<lambda>c. c);
     status \<leftarrow> external (\<lambda>h. GetDeploymentStatus E h (Namespace c) (Name c))
                 (Call_GetDeploymentStatus (Namespace c) (Name c));
     case status of
       Inr (Some (Some deploymentStatus)) \<Rightarrow>
         if deploymentStatus \<noteq> FeatureStatusProvisioned then skip
         else do {
           err \<leftarrow> external (\<lambda>h. TerminateDeploymentTracking E h (Namespace c) (Name c))
                    (Call_TerminateDeploymentTracking (Namespace c) (Name c));
           skip
         }
     | _ \<Rightarrow> skip
   }"

section \<open>Reconciling a pull-mode cluster\<close>

definition set_failure :: "string option \<Rightarrow> (sveltos_cluster, unit) act" where
  "set_failure m = mod_status (FailureMessage_update (\<lambda>_. m))"

definition connection_metrics :: "env \<Rightarrow> (sveltos_cluster, unit) act" where
  "connection_metrics E = do {
     c \<leftarrow> gets (\<lambda>c. c);
     updateClusterConnectionStatusMetric (ClusterTypeSveltos E) (Namespace c) (Name c) (ConnectionStatus (Status c));
     updateConnectionFailuresMetric (ClusterTypeSveltos E) (Namespace c) (Name c) (ConnectionFailures (Status c))
   }"

definition maxAllowedAge :: duration where "maxAllowedAge = 10 * Minute"

text \<open>The renewal step, whose error becomes the failure message.\<close>

definition pull_renewal :: "env \<Rightarrow> reconciler \<Rightarrow> (sveltos_cluster, unit) act" where
  "pull_renewal E r = do {
     due \<leftarrow> shouldRenewTokenRequest E;
     if due then do {
       err \<leftarrow> handlePullModeTokenRequestRenewal E r;
       case err of Some e \<Rightarrow> set_failure (Some (Error e)) | None \<Rightarrow> skip
     } else skip
   }"

text \<open>The heartbeat of an agent that has reported before.\<close>

definition check_heartbeat :: "env \<Rightarrow> reconciler \<Rightarrow> gotime \<Rightarrow> (sveltos_cluster, unit) act" where
  "check_heartbeat E r lastReport = do {
     lastReportAge \<leftarrow> time_Since E lastReport;
     (if lastReportAge > maxAllowedAge then set_failure (Some (AgentHeartbeatTimeoutError E)) else skip);
     c \<leftarrow> gets (\<lambda>c. c);
     updateAgentLastHeartbeatMetric (ClusterTypeSveltos E) (Namespace c) (Name c) lastReport;
     updateConnectionStatus E r;
     connection_metrics E
   }"

definition reconcilePullModeCluster :: "env \<Rightarrow> reconciler \<Rightarrow> (sveltos_cluster, unit) act" where
  "reconcilePullModeCluster E r = do {
     set_failure None;
     updateLicenseAnnotations E r;
     pull_renewal E r;
     terminatePullModeTokenRenewalTrackingIfProvisioned E;
     c \<leftarrow> gets (\<lambda>c. c);
     if \<not> Ready (Status c) then skip
     else case AgentLastReportTime (Status c) of
       None \<Rightarrow> skip
     | Some lastReport \<Rightarrow> check_heartbeat E r lastReport
   }"

section \<open>Frame rules\<close>

lemma identity_set_interval:
  "Namespace (obj (final (set_interval d) s)) = Namespace (obj s)"
  "Name (obj (final (set_interval d) s)) = Name (obj s)"
  "UID (obj (final (set_interval d) s)) = UID (obj s)"
  "calls (final (set_interval d) s) = calls s"
  "Status (obj (final (set_interval d) s)) = Status (obj s)"
  by (simp_all add: set_interval_def)

lemma source_ref_cong:
  "Namespace c = Namespace d \<Longrightarrow> Name c = Name d \<Longrightarrow> UID c = UID d \<Longrightarrow> source_ref E c = source_ref E d"
  by (simp add: source_ref_def)

lemma keeps_set_failure [keeps_rules]:
  "(\<And>c m. view (c\<lparr>Status := (Status c)\<lparr>FailureMessage := m\<rparr>\<rparr>) = view c) \<Longrightarrow>
   keeps (\<lambda>s. view (obj s)) (set_failure m)"
  unfolding set_failure_def by (intro keeps_rules) simp

lemma keeps_connection_metrics [keeps_rules]: "keeps (\<lambda>s. view (obj s)) (connection_metrics E)"
  unfolding connection_metrics_def by (intro keeps_rules)

lemma keeps_terminate [keeps_rules]:
  "keeps (\<lambda>s. view (obj s)) (terminatePullModeTokenRenewalTrackingIfProvisioned E)"
  unfolding terminatePullModeTokenRenewalTrackingIfProvisioned_def by (intro keeps_rules)

lemma keeps_endpoint [keeps_rules]:
  "keeps (\<lambda>s. view (obj s)) (getPullModeManagementClusterEndpoint E ns n)"
  unfolding getPullModeManagementClusterEndpoint_def by (intro keeps_rules)

lemma keeps_deliver: "keeps (\<lambda>s. renewal_frame (obj s)) (deliver_kubeconfig E r k)"
  unfolding deliver_kubeconfig_def Let_def by (intro keeps_rules keeps_stamp_renewal)

lemma keeps_handlePull: "keeps (\<lambda>s. renewal_frame (obj s)) (handlePullModeTokenRequestRenewal E r)"
  unfolding handlePullModeTokenRequestRenewal_def Let_def
  by (intro keeps_rules keeps_set_interval keeps_deliver)

lemma keeps_pull_renewal:
  assumes "\<And>c. view c = view (renewal_frame c)"
    and "\<And>c m. view (c\<lparr>Status := (Status c)\<lparr>FailureMessage := m\<rparr>\<rparr>) = view c"
  shows "keeps (\<lambda>s. view (obj s)) (pull_renewal E r)"
  unfolding pull_renewal_def
  by (intro keeps_rules keeps_frame_view [OF keeps_handlePull] assms)

lemma keeps_updateConnectionStatus:
  assumes "\<And>c. view c = view (conn_frame c)"
  shows "keeps (\<lambda>s. view (obj s)) (updateConnectionStatus E r)"
  by (rule keepsI) (metis assms conn_frame_updateConnectionStatus)

lemma steady_simps [simp]:
  "steady (c\<lparr>Status := (Status c)\<lparr>FailureMessage := m\<rparr>\<rparr>) = steady c"
  "steady (Annotations_update f c) = steady c"
  by (simp_all add: steady_def renewal_frame_def)

lemma steady_conn_frame: "steady c = steady (conn_frame c)"
  by (simp add: steady_def conn_frame_def renewal_frame_def)

lemma keeps_check_heartbeat_steady: "keeps (\<lambda>s. steady (obj s)) (check_heartbeat E r t)"
  unfolding check_heartbeat_def
  by (intro keeps_rules keeps_updateConnectionStatus steady_conn_frame) simp

lemma keeps_reconcilePullModeCluster_steady:
  "keeps (\<lambda>s. steady (obj s)) (reconcilePullModeCluster E r)"
  unfolding reconcilePullModeCluster_def
  by (intro keeps_rules keeps_pull_renewal keeps_check_heartbeat_steady steady_renewal_frame) simp_all

lemma keeps_reconcilePullModeCluster_Ready:
  "keeps (\<lambda>s. Ready (Status (obj s))) (reconcilePullModeCluster E r)"
  unfolding reconcilePullModeCluster_def check_heartbeat_def
  by (intro keeps_rules keeps_pull_renewal keeps_updateConnectionStatus) (simp_all add: conn_frame_def)

section \<open>Which calls are made\<close>

definition pull_call :: "call \<Rightarrow> bool" where
  "pull_call c \<longleftrightarrow> token_call c \<or> license_call c \<or> event_call c \<or> gauge_call c \<or>
     (case c of Call_GetConfigMap _ _ \<Rightarrow> True | Call_Stage _ _ _ _ \<Rightarrow> True | Call_Commit _ _ _ \<Rightarrow> True
      | Call_GetDeploymentStatus _ _ \<Rightarrow> True | Call_TerminateDeploymentTracking _ _ \<Rightarrow> True | _ \<Rightarrow> False)"

lemma pull_call_simps [simp]:
  "pull_call (Call_GetConfigMap a b)" "pull_call (Call_Stage a b d e)" "pull_call (Call_Commit a b ref)"
  "pull_call (Call_GetDeploymentStatus a b)" "pull_call (Call_TerminateDeploymentTracking a b)" "pull_call Call_Now"
  by (simp_all add: pull_call_def)

lemma only_calls_pull_parts:
  "only_calls token_call m \<Longrightarrow> only_calls pull_call m" "only_calls license_call m' \<Longrightarrow> only_calls pull_call m'"
  "only_calls event_call m'' \<Longrightarrow> only_calls pull_call m''" "only_calls gauge_call m3 \<Longrightarrow> only_calls pull_call m3"
  by (auto elim!: only_calls_mono simp: pull_call_def)

lemma only_calls_set_failure [calls_rules]: "only_calls P (set_failure m)"
  unfolding set_failure_def by (rule calls_rules)

lemma only_calls_connection_metrics: "only_calls gauge_call (connection_metrics E)"
  unfolding connection_metrics_def by (intro calls_rules only_calls_metrics)

lemma only_calls_handlePull: "only_calls pull_call (handlePullModeTokenRequestRenewal E r)"
proof -
  have "only_calls pull_call (set_interval d)" for d unfolding set_interval_def by (rule calls_rules)
  moreover have "only_calls pull_call (deliver_kubeconfig E r k)" for k
    unfolding deliver_kubeconfig_def Let_def
    by (intro calls_rules only_calls_pull_parts(1) [OF only_calls_stamp]) simp_all
  ultimately show ?thesis
    unfolding handlePullModeTokenRequestRenewal_def getPullModeManagementClusterEndpoint_def Let_def
    by (intro calls_rules only_calls_pull_parts(1) [OF only_calls_token_request]
        only_calls_pull_parts(1) [OF only_calls_adjust]) simp_all
qed

lemma only_calls_reconcilePullModeCluster: "only_calls pull_call (reconcilePullModeCluster E r)"
  unfolding reconcilePullModeCluster_def check_heartbeat_def pull_renewal_def
    terminatePullModeTokenRenewalTrackingIfProvisioned_def
  by (intro calls_rules only_calls_handlePull only_calls_pull_parts(1) [OF only_calls_shouldRenew]
      only_calls_pull_parts(2) [OF only_calls_updateLicenseAnnotations]
      only_calls_pull_parts(3) [OF only_calls_updateConnectionStatus]
      only_calls_pull_parts(4) [OF only_calls_connection_metrics]
      only_calls_pull_parts(4) [OF only_calls_metrics(4)]) simp_all

section \<open>Delivery\<close>

text \<open>What a delivery that succeeds has done, call by call.\<close>

definition delivered ::
    "env \<Rightarrow> reconciler \<Rightarrow> sveltos_cluster \<Rightarrow> string \<Rightarrow> call list \<Rightarrow> call list \<Rightarrow> bool" where
  "delivered E r c kubeconfig h h' \<longleftrightarrow>
     (\<exists>u. let resources = [(pullModeKubeconfigResourceKey, [u])];
              stage = Call_Stage (Namespace c) (Name c) resources True;
              commit = Call_Commit (Namespace c) (Name c) (source_ref E c)
      in ToUnstructured E (getPullModeKubeconfigSecret (SveltosNamespace r) (Name c) kubeconfig) = Inr u \<and>
         StageResourcesForDeployment E h (Namespace c) (Name c) resources True = None \<and>
         CommitStagedResourcesForDeployment E (h @ [stage]) (Namespace c) (Name c) (source_ref E c) = None \<and>
         h' = h @ [stage, commit, Call_Now])"

lemma deliver_success:
  assumes "result (deliver_kubeconfig E r k) s = None"
  shows "delivered E r (obj s) k (calls s) (calls (final (deliver_kubeconfig E r k) s))"
  using assms
  by (auto simp: deliver_kubeconfig_def delivered_def Let_def stamp_renewal_def now_RFC3339_def time_Now_def
      split: sum.splits option.splits)

lemma deliver_failure:
  assumes "result (deliver_kubeconfig E r k) s = Some e"
  shows "Status (obj (final (deliver_kubeconfig E r k) s)) = Status (obj s)"
  using assms
  by (auto simp: deliver_kubeconfig_def Let_def case_prod_beta split: sum.splits option.splits)

text \<open>
  C8: a pull-mode renewal for an option that names a ServiceAccount and its namespace, when it reports
  success, has requested a token from the management cluster, put it into a kubeconfig whose server,
  CA and TLS server name are those of the registration ConfigMap (never the controller's own
  address), staged the Secret with that kubeconfig and then committed it, both successfully and in
  this order, as its last acts before it takes the time.
\<close>

theorem pull_renewal_delivers:
  assumes "TokenRequestRenewalOption (Spec (obj s)) = Some opt" "SAName opt \<noteq> []" "SANamespace opt \<noteq> []"
    and "result (handlePullModeTokenRequestRenewal E r) s = None"
  shows "\<exists>data token pre.
    client_GetConfigMap E (calls s) (SANamespace opt) (SAName opt) = Inr data \<and>
    lookup_str data ''server'' \<noteq> [] \<and> lookup_str data ''ca.crt'' \<noteq> [] \<and>
    CreateToken E (calls s @ [Call_GetConfigMap (SANamespace opt) (SAName opt), Call_NewForConfig (RConfig r)])
      (RConfig r) (SANamespace opt) (SAName opt) (int64_of_float E (getEffectiveTokenDurationInSecond opt)) = Inr token \<and>
    delivered E r (obj s) (getKubeconfigFromToken (SANamespace opt) (SAName opt) token
        (lookup_str data ''tls-server-name'')
        ((RConfig r)\<lparr>Host := lookup_str data ''server'', CAData := lookup_str data ''ca.crt''\<rparr>))
      (calls s @ pre) (calls (final (handlePullModeTokenRequestRenewal E r) s))"
proof -
  note run = assms(4) [unfolded handlePullModeTokenRequestRenewal_def]
  obtain data where data: "client_GetConfigMap E (calls s) (SANamespace opt) (SAName opt) = Inr data"
      "lookup_str data ''server'' \<noteq> []" "lookup_str data ''ca.crt'' \<noteq> []"
    using run assms(1-3)
    by (auto simp: getPullModeManagementClusterEndpoint_def endpoint_of_data_def pull_keys split: sum.splits if_splits)
  let ?h = "calls s @ [Call_GetConfigMap (SANamespace opt) (SAName opt)]"
  let ?n = "int64_of_float E (getEffectiveTokenDurationInSecond opt)"
  let ?t = "Call_CreateToken (RConfig r) (SANamespace opt) (SAName opt) ?n"
  obtain token where token: "NewForConfig E ?h (RConfig r) = None"
      "CreateToken E (?h @ [Call_NewForConfig (RConfig r)]) (RConfig r) (SANamespace opt) (SAName opt) ?n = Inr token"
    using run assms(1-3) data
    by (auto simp: getPullModeManagementClusterEndpoint_def endpoint_of_data_def pull_keys
        getServiceAccountTokenRequest_def Let_def split: option.splits sum.splits)
  let ?s1 = "s\<lparr>calls := ?h @ [Call_NewForConfig (RConfig r), ?t]\<rparr>"
  obtain d cs where adj: "run_state (adjustTokenRequestRenewalOption E opt token) ?s1 = (d, ?s1\<lparr>calls := calls ?s1 @ cs\<rparr>)"
    using run_adjust by blast
  let ?s2 = "final (set_interval d) (?s1\<lparr>calls := calls ?s1 @ cs\<rparr>)"
  let ?k = "getKubeconfigFromToken (SANamespace opt) (SAName opt) token (lookup_str data ''tls-server-name'')
    ((RConfig r)\<lparr>Host := lookup_str data ''server'', CAData := lookup_str data ''ca.crt''\<rparr>)"
  have whole: "run_state (handlePullModeTokenRequestRenewal E r) s = run_state (deliver_kubeconfig E r ?k) ?s2"
    using assms(1-3) data token adj
    by (simp add: handlePullModeTokenRequestRenewal_def getPullModeManagementClusterEndpoint_def
        endpoint_of_data_def pull_keys getServiceAccountTokenRequest_def Let_def case_prod_beta)
  with assms(4) have "delivered E r (obj ?s2) ?k (calls ?s2) (calls (final (deliver_kubeconfig E r ?k) ?s2))"
    by (intro deliver_success) simp
  moreover have "source_ref E (obj ?s2) = source_ref E (obj s)" by (rule source_ref_cong) (simp_all add: identity_set_interval)
  ultimately have "delivered E r (obj s) ?k (calls s @ ([Call_GetConfigMap (SANamespace opt) (SAName opt),
      Call_NewForConfig (RConfig r), ?t] @ cs)) (calls (final (handlePullModeTokenRequestRenewal E r) s))"
    unfolding whole by (simp add: delivered_def identity_set_interval)
  with data token show ?thesis by auto
qed

text \<open>
  A pull-mode renewal that reports an error has not recorded a renewal, so the token stays
  due and the next reconciliation tries again.
\<close>

lemma pull_renewal_error_keeps_time:
  assumes "result (handlePullModeTokenRequestRenewal E r) s = Some e"
  shows "LastReconciledTokenRequestAt (Status (obj (final (handlePullModeTokenRequestRenewal E r) s))) =
    LastReconciledTokenRequestAt (Status (obj s))"
proof -
  note frame = keepsD [OF keeps_endpoint [where view = "\<lambda>x. x"]]
    keepsD [OF keeps_token_request [where view = "\<lambda>x. x"]] keepsD [OF keeps_adjust [where view = "\<lambda>x. x"]]
  show ?thesis
    using assms
    by (auto simp: handlePullModeTokenRequestRenewal_def Let_def run_bind_pair identity_set_interval
        frame dest!: deliver_failure
        simp del: run_state_bind split: option.splits sum.splits if_splits)
qed

section \<open>The heartbeat\<close>

lemma run_set_failure [simp]:
  "run_state (set_failure m) s = ((), s\<lparr>obj := (obj s)\<lparr>Status := (Status (obj s))\<lparr>FailureMessage := m\<rparr>\<rparr>\<rparr>)"
  by (simp add: set_failure_def)

lemma obj_metrics [simp]:
  "obj (final (updateAgentLastHeartbeatMetric t ns n lr) s) = obj s"
  "obj (final (connection_metrics E) s) = obj s"
  using keepsD [OF keeps_metrics(4) [where view = "\<lambda>x. x"]]
    keepsD [OF keeps_connection_metrics [where view = "\<lambda>x. x"]] by simp_all

text \<open>
  The check as the update of the connection in a state with the failure message set: an agent
  whose last report is more than ten minutes old counts as a failure, otherwise only a failed
  renewal does.
\<close>

lemma check_heartbeat_parts:
  fixes E r t s
  defines "m \<equiv> if 10 * Minute < clock E (calls s) - t then Some (AgentHeartbeatTimeoutError E)
    else FailureMessage (Status (obj s))"
  obtains s2 where "obj s2 = (obj s)\<lparr>Status := (Status (obj s))\<lparr>FailureMessage := m\<rparr>\<rparr>"
    "filter event_call (calls s2) = filter event_call (calls s)"
    "final (check_heartbeat E r t) s = final (connection_metrics E) (final (updateConnectionStatus E r) s2)"
proof -
  let ?late = "10 * Minute < clock E (calls s) - t"
  let ?c = "obj s"
  define s1 where "s1 = s\<lparr>calls := calls s @ [Call_Now], obj := ?c\<lparr>Status := (Status ?c)\<lparr>FailureMessage := m\<rparr>\<rparr>\<rparr>"
  define s2 where "s2 = final (updateAgentLastHeartbeatMetric (ClusterTypeSveltos E) (Namespace ?c) (Name ?c) t) s1"
  have "time_Sub (clock E (calls s)) t > maxAllowedAge \<longleftrightarrow> ?late"
    using time_Sub_le_iff [of maxAllowedAge "clock E (calls s)" t]
    by (simp add: maxAllowedAge_def is_int64_def flip: not_le)
  then have cond: "(if time_Sub (clock E (calls s)) t > maxAllowedAge
      then set_failure (Some (AgentHeartbeatTimeoutError E)) else skip) = (if ?late then set_failure m else skip)"
    by (simp add: m_def)
  have same: "s\<lparr>calls := calls s @ [Call_Now]\<rparr> = s1" if "\<not> ?late"
    using that by (simp add: s1_def m_def)
  have "final (check_heartbeat E r t) s = final (connection_metrics E) (final (updateConnectionStatus E r) s2)"
    unfolding check_heartbeat_def s2_def
    by (cases ?late)
      (simp_all add: run_bind_pair time_Since_def time_Now_def cond same s1_def [symmetric] del: run_state_bind,
       simp_all add: s1_def)
  moreover have "obj s2 = ?c\<lparr>Status := (Status ?c)\<lparr>FailureMessage := m\<rparr>\<rparr>" by (simp add: s2_def s1_def)
  moreover have "filter event_call (calls s2) = filter event_call (calls s1)"
    unfolding s2_def by (rule only_calls_filter [OF only_calls_metrics(4)])
      (auto simp: event_call_def gauge_call_def split: call.splits)
  then have "filter event_call (calls s2) = filter event_call (calls s)" by (simp add: s1_def event_call_def)
  ultimately show ?thesis using that by blast
qed

lemma events_connection_metrics:
  "filter event_call (calls (final (connection_metrics E) s)) = filter event_call (calls s)"
  by (rule only_calls_filter [OF only_calls_connection_metrics])
    (auto simp: event_call_def gauge_call_def split: call.splits)

lemma FailureMessage_updateConnectionStatus [simp]:
  "FailureMessage (Status (obj (final (updateConnectionStatus E r) s))) = FailureMessage (Status (obj s))"
  using arg_cong [OF conn_frame_updateConnectionStatus [of E r s], of "\<lambda>c. FailureMessage (Status c)"]
  by (simp add: conn_frame_def)

lemma check_heartbeat_connection:
  fixes E r t s
  defines "late \<equiv> 10 * Minute < clock E (calls s) - t" and "c \<equiv> obj s"
    and "c' \<equiv> obj (final (check_heartbeat E r t) s)"
  shows "FailureMessage (Status c') = (if late then Some (AgentHeartbeatTimeoutError E) else FailureMessage (Status c))"
    and "conn_abs c' = conn_step (ConsecutiveFailureThreshold (Spec c)) (FailureMessage (Status c') \<noteq> None) (conn_abs c)"
    and "length (filter event_call (calls (final (check_heartbeat E r t) s))) = length (filter event_call (calls s)) +
      transition_events r (ConnectionStatus (Status c)) (ConnectionStatus (Status c'))"
proof -
  obtain s2 where s2: "obj s2 = c\<lparr>Status := (Status c)\<lparr>FailureMessage :=
        if late then Some (AgentHeartbeatTimeoutError E) else FailureMessage (Status c)\<rparr>\<rparr>"
    "filter event_call (calls s2) = filter event_call (calls s)"
    "final (check_heartbeat E r t) s = final (connection_metrics E) (final (updateConnectionStatus E r) s2)"
    unfolding late_def c_def by (rule check_heartbeat_parts)
  then have c': "c' = obj (final (updateConnectionStatus E r) s2)" by (simp add: c'_def)
  show fm: "FailureMessage (Status c') = (if late then Some (AgentHeartbeatTimeoutError E) else FailureMessage (Status c))"
    by (simp add: c' s2(1))
  have "conn_abs (obj s2) = conn_abs c" by (simp add: s2(1) conn_abs_def)
  then show "conn_abs c' = conn_step (ConsecutiveFailureThreshold (Spec c)) (FailureMessage (Status c') \<noteq> None) (conn_abs c)"
    using conn_abs_updateConnectionStatus [of E r s2] fm by (simp add: c' s2(1))
  show "length (filter event_call (calls (final (check_heartbeat E r t) s))) = length (filter event_call (calls s)) +
      transition_events r (ConnectionStatus (Status c)) (ConnectionStatus (Status c'))"
    unfolding s2(3) events_connection_metrics updateConnectionStatus_events c' by (simp add: s2(1,2))
qed

text \<open>What comes before the heartbeat leaves the connection alone.\<close>

definition pull_prologue :: "env \<Rightarrow> reconciler \<Rightarrow> (sveltos_cluster, unit) act" where
  "pull_prologue E r = do {
     set_failure None;
     updateLicenseAnnotations E r;
     pull_renewal E r;
     terminatePullModeTokenRenewalTrackingIfProvisioned E
   }"

lemma final_reconcilePullModeCluster:
  "final (reconcilePullModeCluster E r) s =
    (let s1 = final (pull_prologue E r) s in
     if \<not> Ready (Status (obj s1)) then s1
     else case AgentLastReportTime (Status (obj s1)) of
       None \<Rightarrow> s1 | Some t \<Rightarrow> final (check_heartbeat E r t) s1)"
  by (simp add: reconcilePullModeCluster_def pull_prologue_def run_bind_pair Let_def
      del: run_state_bind run_set_failure split: option.split)

lemma keeps_pull_prologue:
  "keeps (\<lambda>s. (conn_abs (obj s), Ready (Status (obj s)), AgentLastReportTime (Status (obj s)),
     ConsecutiveFailureThreshold (Spec (obj s)))) (pull_prologue E r)"
proof -
  let ?v = "\<lambda>c. (conn_abs c, Ready (Status c), AgentLastReportTime (Status c), ConsecutiveFailureThreshold (Spec c))"
  have "keeps (\<lambda>s. ?v (obj s)) (pull_prologue E r)"
    unfolding pull_prologue_def by (intro keeps_rules keeps_pull_renewal) (simp_all add: conn_abs_def)
  then show ?thesis .
qed

lemma events_pull_prologue:
  "filter event_call (calls (final (pull_prologue E r) s)) = filter event_call (calls s)"
proof (rule only_calls_filter)
  show "only_calls (\<lambda>c. \<not> event_call c) (pull_prologue E r)"
    unfolding pull_prologue_def pull_renewal_def terminatePullModeTokenRenewalTrackingIfProvisioned_def
      handlePullModeTokenRequestRenewal_def getPullModeManagementClusterEndpoint_def deliver_kubeconfig_def
      set_interval_def Let_def
    by (intro calls_rules only_calls_mono [OF only_calls_shouldRenew] only_calls_mono [OF only_calls_token_request]
        only_calls_mono [OF only_calls_adjust] only_calls_mono [OF only_calls_stamp]
        only_calls_mono [OF only_calls_updateLicenseAnnotations])
      (auto simp: event_call_def token_call_def license_call_def split: call.splits)
qed simp

text \<open>
  A pull-mode cluster that is not ready, or whose agent has never reported, keeps its
  connection status and failure count, and no event is recorded for it.
\<close>

lemma pull_without_heartbeat:
  assumes "\<not> Ready (Status (obj s)) \<or> AgentLastReportTime (Status (obj s)) = None"
  shows "conn_abs (obj (final (reconcilePullModeCluster E r) s)) = conn_abs (obj s) \<and>
    filter event_call (calls (final (reconcilePullModeCluster E r) s)) = filter event_call (calls s)"
  using assms keepsD [OF keeps_pull_prologue, of E r s]
  by (auto simp: final_reconcilePullModeCluster events_pull_prologue Let_def)

text \<open>A cluster that is ready and whose agent has reported follows the automaton of the connection.\<close>

lemma pull_with_heartbeat:
  fixes E r s
  defines "c \<equiv> obj s" and "s' \<equiv> final (reconcilePullModeCluster E r) s"
  assumes "Ready (Status c)" "AgentLastReportTime (Status c) = Some t"
  shows "conn_abs (obj s') = conn_step (ConsecutiveFailureThreshold (Spec c))
      (FailureMessage (Status (obj s')) \<noteq> None) (conn_abs c)"
    and "length (filter event_call (calls s')) = length (filter event_call (calls s)) +
      transition_events r (ConnectionStatus (Status c)) (ConnectionStatus (Status (obj s')))"
    and "(\<And>h. 10 * Minute < clock E h - t) \<Longrightarrow> FailureMessage (Status (obj s')) = Some (AgentHeartbeatTimeoutError E)"
proof -
  let ?s1 = "final (pull_prologue E r) s"
  have v: "conn_abs (obj ?s1) = conn_abs c" "Ready (Status (obj ?s1))" "AgentLastReportTime (Status (obj ?s1)) = Some t"
    "ConsecutiveFailureThreshold (Spec (obj ?s1)) = ConsecutiveFailureThreshold (Spec c)"
    using keepsD [OF keeps_pull_prologue, of E r s] assms(3,4) by (simp_all add: c_def)
  have s': "s' = final (check_heartbeat E r t) ?s1"
    using v by (simp add: s'_def final_reconcilePullModeCluster Let_def)
  have st: "ConnectionStatus (Status (obj ?s1)) = ConnectionStatus (Status c)"
    using arg_cong [OF v(1), of status_of] by (simp add: conn_abs_def)
  note hb = check_heartbeat_connection [of E r t ?s1]
  show "conn_abs (obj s') = conn_step (ConsecutiveFailureThreshold (Spec c))
      (FailureMessage (Status (obj s')) \<noteq> None) (conn_abs c)"
    using hb(2) by (simp only: s' v)
  show "length (filter event_call (calls s')) = length (filter event_call (calls s)) +
      transition_events r (ConnectionStatus (Status c)) (ConnectionStatus (Status (obj s')))"
    using hb(3) by (simp only: s' st events_pull_prologue)
  show "FailureMessage (Status (obj s')) = Some (AgentHeartbeatTimeoutError E)" if "\<And>h. 10 * Minute < clock E h - t"
    using hb(1) that by (simp add: s')
qed

section \<open>The license annotations after a reconciliation\<close>

text \<open>
  C23: whatever annotations a pull-mode cluster has, after a reconciliation in which the public key and
  a signed payload are found (the two annotations having different names) they carry that payload and
  its signature: decoding the two annotations gives exactly those bytes back, and every other annotation
  is as it was, however the rest of the reconciliation goes.
\<close>

theorem license_relayed:
  fixes E :: env and r :: reconciler and s :: "(sveltos_cluster, call) st"
  assumes "GetPublicKey E (calls s) = Inr key"
  defines "res \<equiv> VerifyLicenseSecret E (calls s @ [Call_GetPublicKey]) (SveltosNamespace r) key"
    and "m \<equiv> Annotations (obj (final (reconcilePullModeCluster E r) s))"
  assumes "PayloadData res = Some payload" and "LicensePayloadAnnotation E \<noteq> LicenseSignatureAnnotation E"
  shows "b64_decode std_alphabet (takeWhile (\<lambda>c. c \<noteq> CHR ''='') (lookup_str m (LicensePayloadAnnotation E))) = Some payload \<and>
    b64_decode std_alphabet (takeWhile (\<lambda>c. c \<noteq> CHR ''='') (lookup_str m (LicenseSignatureAnnotation E))) =
      Some (SignatureData res) \<and>
    (k \<noteq> LicensePayloadAnnotation E \<and> k \<noteq> LicenseSignatureAnnotation E \<longrightarrow>
      lookup m k = lookup (Annotations (obj s)) k)"
proof -
  let ?rest = "do {
     pull_renewal E r;
     terminatePullModeTokenRenewalTrackingIfProvisioned E;
     c \<leftarrow> gets (\<lambda>c. c);
     if \<not> Ready (Status c) then skip
     else case AgentLastReportTime (Status c) of None \<Rightarrow> skip | Some lastReport \<Rightarrow> check_heartbeat E r lastReport }"
  let ?s1 = "final (set_failure None) s"
  have "keeps (\<lambda>s. Annotations (obj s)) ?rest"
    unfolding check_heartbeat_def
    by (intro keeps_rules keeps_pull_renewal keeps_updateConnectionStatus) (simp_all add: conn_frame_def)
  then have "m = Annotations (obj (final (updateLicenseAnnotations E r) ?s1))"
    using keepsD by (fastforce simp: m_def reconcilePullModeCluster_def run_bind_pair simp del: run_state_bind run_set_failure)
  then have "m = relay_annotations E res (Annotations (obj s))"
    using assms(1) by (simp add: updateLicenseAnnotations_def res_def)
  with relay_result [OF assms(5,4)] show ?thesis by simp
qed

section \<open>Witnesses\<close>

definition pull_cluster :: sveltos_cluster where
  "pull_cluster = cluster0\<lparr>Spec := spec0\<lparr>PullMode := True, TokenRequestRenewalOption :=
     Some (token_option0\<lparr>SANamespace := ''ns'', SAName := ''c1''\<rparr>)\<rparr>\<rparr>"

definition pull_st :: "(sveltos_cluster, call) st" where
  "pull_st = \<lparr>obj = pull_cluster, calls = []\<rparr>"

definition pull_env :: env where
  "pull_env = env0\<lparr>client_GetConfigMap := (\<lambda>_ _ _. Inr (Some [''server'' \<mapsto> ''https://mgmt.example.com'', ''ca.crt'' \<mapsto> ''CA'']))\<rparr>"

lemmas pull_sample_defs = pull_cluster_def pull_st_def pull_env_def token_option0_def

theorem pull_renewal_delivers_witness:
  "\<exists>pre token. delivered pull_env reconciler0 pull_cluster
     (getKubeconfigFromToken ''ns'' ''c1'' token [] (config0\<lparr>Host := ''https://mgmt.example.com'', CAData := ''CA''\<rparr>))
     pre (calls (final (handlePullModeTokenRequestRenewal pull_env reconciler0) pull_st))"
proof -
  have "result (handlePullModeTokenRequestRenewal pull_env reconciler0) pull_st = None"
    by (simp add: handlePullModeTokenRequestRenewal_def getPullModeManagementClusterEndpoint_def endpoint_of_data_def
        pull_keys lookup_str_def getServiceAccountTokenRequest_def adjustTokenRequestRenewalOption_def getTokenExpiration_def
        set_interval_def deliver_kubeconfig_def stamp_renewal_def now_RFC3339_def time_Now_def pull_sample_defs sample_defs Let_def)
  then show ?thesis
    using pull_renewal_delivers [of pull_st "token_option0\<lparr>SANamespace := ''ns'', SAName := ''c1''\<rparr>" pull_env reconciler0]
    by (auto simp: pull_sample_defs lookup_str_def sample_defs)
qed

theorem license_relayed_witness:
  "lookup (Annotations (obj (final (reconcilePullModeCluster (env0\<lparr>VerifyLicenseSecret := (\<lambda>_ _ _. license_result)\<rparr>)
     reconciler0) (pull_st\<lparr>obj := cluster0\<lparr>Annotations := Some [''owner'' \<mapsto> ''me'']\<rparr>\<rparr>)))) ''owner'' = Some ''me''"
  using license_relayed [of "env0\<lparr>VerifyLicenseSecret := (\<lambda>_ _ _. license_result)\<rparr>"
      "pull_st\<lparr>obj := cluster0\<lparr>Annotations := Some [''owner'' \<mapsto> ''me'']\<rparr>\<rparr>" "''key''" reconciler0 "''payload''" "''owner''"]
  by (simp add: env0_def license_result_def)

end
