(* ===== verification/Predicates.thy ===== *)
theory Predicates
  imports Api
begin

text \<open>
  \<open>controllers/sveltoscluster_predicate.go\<close>: which watch events lead to a reconciliation. The
  old object of an update event may be nil.
\<close>

definition UpdateFunc :: "sveltos_cluster option \<Rightarrow> sveltos_cluster \<Rightarrow> bool" where
  "UpdateFunc oldCluster newCluster =
     (case oldCluster of
        None \<Rightarrow> True
      | Some old \<Rightarrow>
          if IsZero (DeletionTimestamp old) \<and> \<not> IsZero (DeletionTimestamp newCluster) then True
          else if Spec old \<noteq> Spec newCluster then True
          else False)"

definition CreateFunc :: "sveltos_cluster \<Rightarrow> bool" where "CreateFunc c = True"
definition DeleteFunc :: "sveltos_cluster \<Rightarrow> bool" where "DeleteFunc c = True"
definition GenericFunc :: "sveltos_cluster \<Rightarrow> bool" where "GenericFunc c = False"

text \<open>The predicates together, as the controller passes them to its watch.\<close>

datatype watch_event =
  UpdateEvent "sveltos_cluster option" sveltos_cluster
| CreateEvent sveltos_cluster
| DeleteEvent sveltos_cluster
| GenericEvent sveltos_cluster

fun SveltosClusterPredicates :: "watch_event \<Rightarrow> bool" where
  "SveltosClusterPredicates (UpdateEvent oldCluster newCluster) = UpdateFunc oldCluster newCluster"
| "SveltosClusterPredicates (CreateEvent c) = CreateFunc c"
| "SveltosClusterPredicates (DeleteEvent c) = DeleteFunc c"
| "SveltosClusterPredicates (GenericEvent c) = GenericFunc c"

lemma UpdateFunc_Some:
  "UpdateFunc (Some old) new \<longleftrightarrow>
     Spec old \<noteq> Spec new \<or> (IsZero (DeletionTimestamp old) \<and> \<not> IsZero (DeletionTimestamp new))"
  by (auto simp: UpdateFunc_def)

end
