(* ===== verification/Cluster_Controller.thy ===== *)
theory Cluster_Controller
  imports Ctrl Cluster_Checks Pause_Window Pull_Mode Predicates
begin

text \<open>
  The SveltosCluster controller (\<open>controllers/sveltoscluster_controller.go\<close>): \<open>Reconcile\<close>,
  \<open>reconcileDelete\<close>, \<open>reconcileNormal\<close> and what they call directly.

  Deferred calls are placed where Go runs them: the pause handler at the end of
  \<open>reconcileNormal\<close>, with the time read where the \<open>defer\<close> statement stands, and the closing of the
  scope at the end of \<open>Reconcile\<close>, also when a check panics. The result of \<open>Reconcile\<close> is what its named
  results hold when it is left; when it is left by a panic (\<open>Panicked\<close>), Go drops them and the caller
  sees the panic only, so the error of a patch that failed as well is not reported.
\<close>

definition deleteRequeueAfter :: duration where "deleteRequeueAfter = Minute"
definition versionLabel :: string where "versionLabel = ''projectsveltos.io/k8s-version''"

definition isClusterAShardMatch :: "env \<Rightarrow> reconciler \<Rightarrow> sveltos_cluster \<Rightarrow> ('o, goerr + bool) act" where
  "isClusterAShardMatch E r c = do {
     cluster \<leftarrow> external (\<lambda>h. GetCluster E h (Namespace c) (Name c)) (Call_GetCluster (Namespace c) (Name c));
     case cluster of
       Inl e \<Rightarrow> if IsNotFound e then ret (Inr True) else ret (Inl e)
     | Inr cl \<Rightarrow> if \<not> IsShardAMatch E (ShardKey r) cl then ret (Inr False) else ret (Inr True)
   }"

section \<open>Deletion\<close>

definition finish_delete :: "env \<Rightarrow> (sveltos_cluster, unit) act" where
  "finish_delete E = do {
     c \<leftarrow> gets (\<lambda>c. c);
     external (\<lambda>_. ()) (Call_EvictWorkloadIdentityCache (Namespace c) (Name c));
     deleteClusterMetrics (ClusterTypeSveltos E) (Namespace c) (Name c);
     modify (Finalizers_update (\<lambda>fs. RemoveFinalizer E fs (SveltosClusterFinalizer E)))
   }"

text \<open>\<open>DeletionTimestamp.Add\<close>; the caller has checked that the timestamp is set.\<close>

definition deletion_deadline :: "sveltos_cluster \<Rightarrow> duration \<Rightarrow> gotime" where
  "deletion_deadline c grace = (case DeletionTimestamp c of None \<Rightarrow> zeroTime | Some t \<Rightarrow> t) + grace"

definition reconcileDelete :: "env \<Rightarrow> (sveltos_cluster, duration) act" where
  "reconcileDelete E = do {
     c \<leftarrow> gets (\<lambda>c. c);
     if \<not> ContainsFinalizer E (Finalizers c) (SveltosClusterFinalizer E) then ret 0
     else case CleanupGracePeriod (Spec c) of
       Some grace \<Rightarrow> do {
         now \<leftarrow> time_Now E;
         if now < deletion_deadline c grace then ret deleteRequeueAfter
         else do { finish_delete E; ret 0 }
       }
     | None \<Rightarrow> do { finish_delete E; ret 0 }
   }"

section \<open>Normal reconciliation\<close>

definition reconciler_runChecks :: "env \<Rightarrow> rest_config \<Rightarrow> (sveltos_cluster, unit outcome) act" where
  "reconciler_runChecks E config = do {
     c \<leftarrow> gets (\<lambda>c. c);
     if \<not> Ready (Status c) then runChecks E config (elems (ReadinessChecks (Spec c)))
     else runChecks E config (elems (LivenessChecks (Spec c)))
   }"

definition kubernetes_version :: "int \<times> int \<times> int \<Rightarrow> string" where
  "kubernetes_version v = (case v of (major, minor, patch) \<Rightarrow>
     ''v'' @ dec_int major @ ''.'' @ dec_int minor @ ''.'' @ dec_int patch)"

text \<open>The checks have passed.\<close>

definition mark_ready :: "env \<Rightarrow> string \<Rightarrow> (sveltos_cluster, unit) act" where
  "mark_ready E currentVersion = do {
     mod_status (Ready_update (\<lambda>_. True));
     (case semver_NewVersion E currentVersion of
        Inl _ \<Rightarrow> skip
      | Inr v \<Rightarrow> do {
          SetLabel versionLabel (kubernetes_version v);
          c \<leftarrow> gets (\<lambda>c. c);
          updateKubernetesVersionMetric (ClusterTypeSveltos E) (Namespace c) (Name c) (kubernetes_version v)
        });
     mod_status (Version_update (\<lambda>_. currentVersion))
   }"

text \<open>The cluster answered: renew the token if it is due, then run the checks.\<close>

definition push_renewal :: "env \<Rightarrow> rest_config \<Rightarrow> (sveltos_cluster, unit) act" where
  "push_renewal E config = do {
     due \<leftarrow> shouldRenewTokenRequest E;
     if due then do {
       err \<leftarrow> handleTokenRequestRenewal E config;
       case err of Some e \<Rightarrow> set_failure (Some (Error e)) | None \<Rightarrow> skip
     } else skip
   }"

definition push_checks :: "env \<Rightarrow> rest_config \<Rightarrow> string \<Rightarrow> (sveltos_cluster, unit outcome) act" where
  "push_checks E config currentVersion = do {
     checks \<leftarrow> reconciler_runChecks E config;
     case checks of
       Panic m \<Rightarrow> ret (Panic m)
     | Fail e \<Rightarrow> do { set_failure (Some (Error e)); ret (Ret ()) }
     | Ret _ \<Rightarrow> do { mark_ready E currentVersion; ret (Ret ()) }
   }"

definition probe_version :: "env \<Rightarrow> rest_config \<Rightarrow> (sveltos_cluster, unit outcome) act" where
  "probe_version E config = do {
     version \<leftarrow> external (\<lambda>h. GetKubernetesVersion E h config) (Call_GetKubernetesVersion config);
     case version of
       Inl e \<Rightarrow> do { set_failure (Some (Error e)); ret (Ret ()) }
     | Inr currentVersion \<Rightarrow> do { push_renewal E config; push_checks E config currentVersion }
   }"

definition reconcile_push :: "env \<Rightarrow> reconciler \<Rightarrow> (sveltos_cluster, unit outcome) act" where
  "reconcile_push E r = do {
     c \<leftarrow> gets (\<lambda>c. c);
     config \<leftarrow> external (\<lambda>h. GetSveltosKubernetesRestConfig E h (Namespace c) (Name c))
                 (Call_GetRestConfig (Namespace c) (Name c));
     case config of
       Inl e \<Rightarrow> do { set_failure (Some (Error e)); updateConnectionStatus E r; ret (Ret ()) }
     | Inr config \<Rightarrow> do {
         set_failure None;
         probed \<leftarrow> probe_version E config;
         case probed of
           Ret _ \<Rightarrow> do { updateConnectionStatus E r; connection_metrics E; ret (Ret ()) }
         | Fail e \<Rightarrow> ret (Fail e)
         | Panic m \<Rightarrow> ret (Panic m)
       }
   }"

definition update_finalizer :: "env \<Rightarrow> sveltos_cluster \<Rightarrow> sveltos_cluster" where
  "update_finalizer E c =
     (if CleanupGracePeriod (Spec c) \<noteq> None
      then c\<lparr>Finalizers := AddFinalizer E (Finalizers c) (SveltosClusterFinalizer E)\<rparr>
      else c\<lparr>Finalizers := RemoveFinalizer E (Finalizers c) (SveltosClusterFinalizer E)\<rparr>)"

definition reconcile_body :: "env \<Rightarrow> reconciler \<Rightarrow> (sveltos_cluster, unit outcome) act" where
  "reconcile_body E r = do {
     c \<leftarrow> gets (\<lambda>c. c);
     if PullMode (Spec c) then do { reconcilePullModeCluster E r; ret (Ret ()) }
     else reconcile_push E r
   }"

definition reconcileNormal :: "env \<Rightarrow> reconciler \<Rightarrow> (sveltos_cluster, unit outcome) act" where
  "reconcileNormal E r = do {
     modify (update_finalizer E);
     currentTime \<leftarrow> time_Now E;
     out \<leftarrow> reconcile_body E r;
     modify (handleAutomaticPauseUnPause E currentTime);
     ret out
   }"

section \<open>Reconcile\<close>

definition reconcile_cluster :: "env \<Rightarrow> reconciler \<Rightarrow> (sveltos_cluster, ctrl_result) act" where
  "reconcile_cluster E r = do {
     c \<leftarrow> gets (\<lambda>c. c);
     if \<not> IsZero (DeletionTimestamp c) then do { d \<leftarrow> reconcileDelete E; ret (requeue d) }
     else do {
       out \<leftarrow> reconcileNormal E r;
       ret (case out of Panic m \<Rightarrow> (requeue 0)\<lparr>Panicked := Some m\<rparr> | _ \<Rightarrow> requeue Minute)
     }
   }"

definition Reconcile :: "env \<Rightarrow> reconciler \<Rightarrow> string \<Rightarrow> string \<Rightarrow> (sveltos_cluster, ctrl_result) act" where
  "Reconcile E r namespace name = do {
     cluster \<leftarrow> external (\<lambda>h. client_GetSveltosCluster E h namespace name) (Call_GetSveltosCluster namespace name);
     case cluster of
       Inl e \<Rightarrow>
         if IsNotFound e then ret (requeue 0)
         else ret (reconcile_error (errors_Wrap e (''Failed to fetch sveltosCluster '' @ namespace @ ''/'' @ name)))
     | Inr c \<Rightarrow> do {
         modify (\<lambda>_. c);
         sc \<leftarrow> NewSveltosClusterScope E True (Some c) ''sveltoscluster'';
         case sc of
           Inl e \<Rightarrow> ret (reconcile_error (errors_Wrap e
             (''unable to create clusterprofile scope for '' @ namespace @ ''/'' @ name)))
         | Inr _ \<Rightarrow> do {
             shard \<leftarrow> isClusterAShardMatch E r c;
             case shard of
               Inl _ \<Rightarrow> ret (requeue normalRequeueAfter)
             | Inr matched \<Rightarrow>
                 if \<not> matched then ret (requeue 0)
                 else do {
                   res \<leftarrow> reconcile_cluster E r;
                   err \<leftarrow> Close E;
                   ret (case err of Some e \<Rightarrow> res\<lparr>ReconcileError := Some e\<rparr> | None \<Rightarrow> res)
                 }
           }
       }
   }"

section \<open>Frame rules\<close>

lemma steady_status_simps [simp]:
  "steady (c\<lparr>Status := (Status c)\<lparr>Ready := b\<rparr>\<rparr>) = steady c"
  "steady (c\<lparr>Status := (Status c)\<lparr>Version := v\<rparr>\<rparr>) = steady c"
  "steady (c\<lparr>Labels := l\<rparr>) = steady c"
  by (simp_all add: steady_def renewal_frame_def)

lemma keeps_reconciler_runChecks [keeps_rules]: "keeps (\<lambda>s. view (obj s)) (reconciler_runChecks E cfg)"
  unfolding reconciler_runChecks_def by (intro keeps_rules)

lemma keeps_mark_ready_steady: "keeps (\<lambda>s. steady (obj s)) (mark_ready E v)"
  unfolding mark_ready_def Let_def by (intro keeps_rules) simp_all

lemma keeps_push_renewal:
  assumes "\<And>c. view c = view (renewal_frame c)"
    and "\<And>c m. view (c\<lparr>Status := (Status c)\<lparr>FailureMessage := m\<rparr>\<rparr>) = view c"
  shows "keeps (\<lambda>s. view (obj s)) (push_renewal E cfg)"
  unfolding push_renewal_def
  by (intro keeps_rules keeps_frame_view [OF keeps_handleTokenRequestRenewal] assms)

lemma keeps_push_checks:
  assumes "\<And>c m. view (c\<lparr>Status := (Status c)\<lparr>FailureMessage := m\<rparr>\<rparr>) = view c"
    and "\<And>v. keeps (\<lambda>s. view (obj s)) (mark_ready E v)"
  shows "keeps (\<lambda>s. view (obj s)) (push_checks E cfg v)"
  unfolding push_checks_def by (intro keeps_rules assms)

lemma keeps_probe_version:
  assumes "\<And>c. view c = view (renewal_frame c)"
    and "\<And>c m. view (c\<lparr>Status := (Status c)\<lparr>FailureMessage := m\<rparr>\<rparr>) = view c"
    and "\<And>v. keeps (\<lambda>s. view (obj s)) (mark_ready E v)"
  shows "keeps (\<lambda>s. view (obj s)) (probe_version E cfg)"
  unfolding probe_version_def by (intro keeps_rules keeps_push_renewal keeps_push_checks assms)

lemma keeps_reconcile_push_steady: "keeps (\<lambda>s. steady (obj s)) (reconcile_push E r)"
  unfolding reconcile_push_def
  by (intro keeps_rules keeps_probe_version keeps_mark_ready_steady keeps_updateConnectionStatus
      steady_renewal_frame steady_conn_frame) simp_all

lemma keeps_reconcile_body_steady: "keeps (\<lambda>s. steady (obj s)) (reconcile_body E r)"
  unfolding reconcile_body_def
  by (intro keeps_rules keeps_reconcilePullModeCluster_steady keeps_reconcile_push_steady)

section \<open>Which calls a reconciliation makes\<close>

definition reconcile_call :: "call \<Rightarrow> bool" where
  "reconcile_call c \<longleftrightarrow> pull_call c \<or> check_call c \<or>
     (case c of Call_GetRestConfig _ _ \<Rightarrow> True | Call_GetKubernetesVersion _ \<Rightarrow> True
      | Call_EvictWorkloadIdentityCache _ _ \<Rightarrow> True | _ \<Rightarrow> False)"

lemma reconcile_call_simps [simp]:
  "reconcile_call (Call_GetRestConfig a b)" "reconcile_call (Call_GetKubernetesVersion g)"
  "reconcile_call (Call_EvictWorkloadIdentityCache a b)" "reconcile_call Call_Now"
  by (simp_all add: reconcile_call_def)

lemma reconcile_call_no_patch: "reconcile_call c \<Longrightarrow> \<not> patch_call c"
  by (cases c) (simp_all add: reconcile_call_def pull_call_def check_call_def token_call_def license_call_def
      event_call_def gauge_call_def patch_call_def)

lemma only_calls_reconcile_parts:
  "only_calls pull_call m \<Longrightarrow> only_calls reconcile_call m" "only_calls check_call m' \<Longrightarrow> only_calls reconcile_call m'"
  by (auto elim!: only_calls_mono simp: reconcile_call_def)

lemmas only_calls_reconcile_token = only_calls_reconcile_parts(1) [OF only_calls_pull_parts(1)]
lemmas only_calls_reconcile_gauge = only_calls_reconcile_parts(1) [OF only_calls_pull_parts(4)]
lemmas only_calls_reconcile_event = only_calls_reconcile_parts(1) [OF only_calls_pull_parts(3)]

lemma only_calls_mark_ready: "only_calls gauge_call (mark_ready E v)"
  unfolding mark_ready_def Let_def by (intro calls_rules only_calls_metrics)

lemma only_calls_reconciler_runChecks: "only_calls check_call (reconciler_runChecks E cfg)"
  unfolding reconciler_runChecks_def by (intro calls_rules)

lemma only_calls_reconcile_push: "only_calls reconcile_call (reconcile_push E r)"
  unfolding reconcile_push_def probe_version_def push_renewal_def push_checks_def
  by (intro calls_rules only_calls_reconcile_parts(2) [OF only_calls_reconciler_runChecks]
      only_calls_reconcile_token [OF only_calls_shouldRenew]
      only_calls_reconcile_token [OF only_calls_handleTokenRequestRenewal]
      only_calls_reconcile_event [OF only_calls_updateConnectionStatus]
      only_calls_reconcile_gauge [OF only_calls_connection_metrics]
      only_calls_reconcile_gauge [OF only_calls_mark_ready]) simp_all

lemma only_calls_reconcileNormal: "only_calls reconcile_call (reconcileNormal E r)"
  unfolding reconcileNormal_def reconcile_body_def
  by (intro calls_rules only_calls_reconcile_push only_calls_reconcile_parts(1) [OF only_calls_reconcilePullModeCluster]) simp

lemma only_calls_reconcileDelete: "only_calls reconcile_call (reconcileDelete E)"
  unfolding reconcileDelete_def finish_delete_def
  by (intro calls_rules only_calls_reconcile_gauge [OF only_calls_metrics(5)]) simp_all

lemma only_calls_reconcile_cluster: "only_calls reconcile_call (reconcile_cluster E r)"
  unfolding reconcile_cluster_def by (intro calls_rules only_calls_reconcileNormal only_calls_reconcileDelete)

section \<open>Reconcile persists exactly once\<close>

text \<open>The state in which the reconciliation proper starts: three reads later.\<close>

definition fetched :: "string \<Rightarrow> string \<Rightarrow> sveltos_cluster \<Rightarrow> (sveltos_cluster, call) st \<Rightarrow> (sveltos_cluster, call) st" where
  "fetched ns name c s = s\<lparr>obj := c, calls := calls s @
     [Call_GetSveltosCluster ns name, Call_NewHelper (Namespace c) (Name c), Call_GetCluster (Namespace c) (Name c)]\<rparr>"

definition owned :: "env \<Rightarrow> reconciler \<Rightarrow> string \<Rightarrow> string \<Rightarrow> sveltos_cluster \<Rightarrow> (sveltos_cluster, call) st \<Rightarrow> bool" where
  "owned E r ns name c s \<longleftrightarrow>
     client_GetSveltosCluster E (calls s) ns name = Inr c \<and>
     patch_NewHelper E (calls s @ [Call_GetSveltosCluster ns name]) c = None \<and>
     (case GetCluster E (calls s @ [Call_GetSveltosCluster ns name, Call_NewHelper (Namespace c) (Name c)])
         (Namespace c) (Name c) of
        Inl e \<Rightarrow> IsNotFound e | Inr cl \<Rightarrow> IsShardAMatch E (ShardKey r) cl)"

lemma Reconcile_owned:
  assumes "owned E r ns name c s"
  shows "run_state (Reconcile E r ns name) s = run_state (do {
     res \<leftarrow> reconcile_cluster E r;
     err \<leftarrow> Close E;
     ret (case err of Some e \<Rightarrow> res\<lparr>ReconcileError := Some e\<rparr> | None \<Rightarrow> res) }) (fetched ns name c s)"
  using assms
  by (auto simp: Reconcile_def owned_def fetched_def NewSveltosClusterScope_def isClusterAShardMatch_def
      split: sum.splits)

lemma ReconcileError_reconcile_cluster [simp]: "ReconcileError (result (reconcile_cluster E r) t) = None"
  by (simp add: reconcile_cluster_def run_bind_pair requeue_def del: run_state_bind split: outcome.split)

lemma run_Reconcile_owned:
  fixes E r ns name c s
  defines "u \<equiv> final (reconcile_cluster E r) (fetched ns name c s)"
  assumes "owned E r ns name c s"
  shows "run_state (Reconcile E r ns name) s =
    ((result (reconcile_cluster E r) (fetched ns name c s))\<lparr>ReconcileError := helper_Patch E (calls u) (obj u)\<rparr>,
     u\<lparr>calls := calls u @ [Call_Patch (obj u)]\<rparr>)"
  using ReconcileError_reconcile_cluster [of E r "fetched ns name c s"]
  unfolding Reconcile_owned [OF assms(2)] u_def
  by (cases "result (reconcile_cluster E r) (fetched ns name c s)")
    (simp add: run_bind_pair run_Close del: run_state_bind split: option.split)

text \<open>
  C2: a reconciliation of a cluster this shard owns writes exactly once. The last call of the
  reconciliation, whatever happened before it, a panic of a check included, patches the
  API server with the object as the reconciliation left it, no earlier call does, and the
  error it returns is that of the patch: there is one exactly when the patch fails (after a panic, the
  caller sees the panic instead).
\<close>

theorem Reconcile_patches_once:
  assumes "owned E r ns name c s"
  shows "\<exists>cs. calls (final (Reconcile E r ns name) s) =
      calls s @ cs @ [Call_Patch (obj (final (reconcile_cluster E r) (fetched ns name c s)))] \<and>
    list_all (\<lambda>c. \<not> patch_call c) cs \<and>
    obj (final (Reconcile E r ns name) s) = obj (final (reconcile_cluster E r) (fetched ns name c s)) \<and>
    ReconcileError (result (Reconcile E r ns name) s) =
      helper_Patch E (calls s @ cs) (obj (final (reconcile_cluster E r) (fetched ns name c s)))"
proof -
  let ?s = "final (reconcile_cluster E r) (fetched ns name c s)"
  obtain cs where cs: "calls ?s = calls (fetched ns name c s) @ cs" "list_all reconcile_call cs"
    using only_callsD [OF only_calls_reconcile_cluster] by blast
  define reads where "reads = [Call_GetSveltosCluster ns name, Call_NewHelper (Namespace c) (Name c),
    Call_GetCluster (Namespace c) (Name c)]"
  have all: "calls ?s = calls s @ reads @ cs" using cs(1) by (simp add: fetched_def reads_def)
  have np: "list_all (\<lambda>c. \<not> patch_call c) (reads @ cs)"
    using cs(2) reconcile_call_no_patch by (auto simp: reads_def list_all_iff) (simp_all add: patch_call_def)
  show ?thesis
    unfolding run_Reconcile_owned [OF assms] by (intro exI [of _ "reads @ cs"]) (simp add: all np [simplified])
qed

text \<open>
  C39: a cluster of another shard is not touched: three reads are made, nothing is written, no
  event is recorded, no gauge moves, and the reconciliation ends without error or requeue.
\<close>

theorem Reconcile_other_shard:
  assumes "client_GetSveltosCluster E (calls s) ns name = Inr c"
    and "patch_NewHelper E (calls s @ [Call_GetSveltosCluster ns name]) c = None"
    and "GetCluster E (calls s @ [Call_GetSveltosCluster ns name, Call_NewHelper (Namespace c) (Name c)])
      (Namespace c) (Name c) = Inr cl" "\<not> IsShardAMatch E (ShardKey r) cl"
  shows "run_state (Reconcile E r ns name) s = (requeue 0, fetched ns name c s)"
  using assms
  by (simp add: Reconcile_def fetched_def NewSveltosClusterScope_def isClusterAShardMatch_def)

section \<open>Gauge vectors are used with the labels they were declared with\<close>

lemma well_labelled_parts:
  "only_calls token_call m \<Longrightarrow> only_calls well_labelled m"
  "only_calls license_call m1 \<Longrightarrow> only_calls well_labelled m1"
  "only_calls event_call m2 \<Longrightarrow> only_calls well_labelled m2"
  "only_calls check_call m3 \<Longrightarrow> only_calls well_labelled m3"
  by (erule only_calls_mono; rule well_labelled_other;
      auto simp: token_call_def license_call_def event_call_def check_call_def gauge_call_def split: call.splits)+

lemma well_labelled_simps [simp]:
  "well_labelled Call_Now" "well_labelled (Call_GetRestConfig a b)" "well_labelled (Call_GetKubernetesVersion g)"
  "well_labelled (Call_EvictWorkloadIdentityCache a b)" "well_labelled (Call_GetSveltosCluster a b)"
  "well_labelled (Call_NewHelper a b)" "well_labelled (Call_GetCluster a b)" "well_labelled (Call_Patch c)"
  "well_labelled (Call_GetConfigMap a b)" "well_labelled (Call_Stage a b d e)" "well_labelled (Call_Commit a b ref)"
  "well_labelled (Call_GetDeploymentStatus a b)" "well_labelled (Call_TerminateDeploymentTracking a b)"
  by (simp_all add: well_labelled_def)

lemma well_labelled_connection_metrics: "only_calls well_labelled (connection_metrics E)"
  unfolding connection_metrics_def by (intro calls_rules well_labelled_metrics)

lemma well_labelled_handlePull: "only_calls well_labelled (handlePullModeTokenRequestRenewal E r)"
  unfolding handlePullModeTokenRequestRenewal_def getPullModeManagementClusterEndpoint_def
    deliver_kubeconfig_def set_interval_def Let_def
  by (intro calls_rules well_labelled_parts(1) [OF only_calls_token_request]
      well_labelled_parts(1) [OF only_calls_adjust] well_labelled_parts(1) [OF only_calls_stamp]) simp_all

lemma well_labelled_pull: "only_calls well_labelled (reconcilePullModeCluster E r)"
  unfolding reconcilePullModeCluster_def check_heartbeat_def pull_renewal_def
    terminatePullModeTokenRenewalTrackingIfProvisioned_def
  by (intro calls_rules well_labelled_handlePull well_labelled_parts(1) [OF only_calls_shouldRenew]
      well_labelled_parts(2) [OF only_calls_updateLicenseAnnotations]
      well_labelled_parts(3) [OF only_calls_updateConnectionStatus]
      well_labelled_connection_metrics well_labelled_metrics) simp_all

lemma well_labelled_push: "only_calls well_labelled (reconcile_push E r)"
  unfolding reconcile_push_def probe_version_def push_renewal_def push_checks_def mark_ready_def Let_def
  by (intro calls_rules well_labelled_parts(4) [OF only_calls_reconciler_runChecks]
      well_labelled_parts(1) [OF only_calls_shouldRenew]
      well_labelled_parts(1) [OF only_calls_handleTokenRequestRenewal]
      well_labelled_parts(3) [OF only_calls_updateConnectionStatus]
      well_labelled_connection_metrics well_labelled_metrics) simp_all

lemma well_labelled_Reconcile: "only_calls well_labelled (Reconcile E r ns n)"
  unfolding Reconcile_def NewSveltosClusterScope_def isClusterAShardMatch_def Close_def PatchObject_def
    reconcile_cluster_def reconcileDelete_def finish_delete_def reconcileNormal_def reconcile_body_def
  by (intro calls_rules well_labelled_push well_labelled_pull well_labelled_metrics) simp_all

text \<open>
  C32: the gauge vectors that are registered have different names, so the registration at start
  does not panic, every vector the code uses is among them, and every call a reconciliation makes
  on a vector gives it the label names it was declared with (a partial delete, some of them), so
  none of these calls panics or misses its row.
\<close>

theorem metrics_well_labelled:
  "distinct (map gauge_fqName registered_gauges) \<and> set registered_gauges = UNIV \<and>
   (\<exists>cs. calls (final (Reconcile E r ns n) s) = calls s @ cs \<and> list_all well_labelled cs)"
proof -
  have "g \<in> set registered_gauges" for g by (cases g) (simp_all add: registered_gauges_def)
  moreover have "distinct (map gauge_fqName registered_gauges)"
    by (simp add: registered_gauges_def gauge_fqName_def)
  ultimately show ?thesis using only_callsD [OF well_labelled_Reconcile] by blast
qed

section \<open>Deletion\<close>

lemma calls_deleteClusterMetrics:
  "run_state (deleteClusterMetrics t ns n) s = ((), s\<lparr>calls := calls s @
    [Call_GaugeDelete clusterConnectivityGauge (cluster_labels t ns n),
     Call_GaugeDeletePartialMatch kubernetesVersionGauge (cluster_labels t ns n),
     Call_GaugeDelete connectionFailuresGauge (cluster_labels t ns n),
     Call_GaugeDelete agentLastHeartbeatTimestampGauge (cluster_labels t ns n)]\<rparr>)"
  by (simp add: deleteClusterMetrics_def gauge_defs Let_def)

text \<open>Until the grace period has elapsed, object and metrics stay as they are.\<close>

lemma reconcileDelete_before_deadline:
  assumes "ContainsFinalizer E (Finalizers (obj s)) (SveltosClusterFinalizer E)"
    and "DeletionTimestamp (obj s) = Some t" "CleanupGracePeriod (Spec (obj s)) = Some grace"
    and "clock E (calls s) < t + grace"
  shows "run_state (reconcileDelete E) s = (Minute, s\<lparr>calls := calls s @ [Call_Now]\<rparr>)"
  using assms by (simp add: reconcileDelete_def time_Now_def deletion_deadline_def deleteRequeueAfter_def)

text \<open>Once the grace period has elapsed, or if there is none.\<close>

lemma reconcileDelete_released:
  fixes E and s :: "(sveltos_cluster, call) st"
  defines "s' \<equiv> final (reconcileDelete E) s" and "c \<equiv> obj s"
  assumes "registry_laws val"
    and "ContainsFinalizer E (Finalizers c) (SveltosClusterFinalizer E)"
    and "DeletionTimestamp c = Some t"
    and "\<not> (\<exists>grace. CleanupGracePeriod (Spec c) = Some grace \<and> clock E (calls s) < t + grace)"
  shows "result (reconcileDelete E) s = 0 \<and>
    obj s' = c\<lparr>Finalizers := RemoveFinalizer E (Finalizers c) (SveltosClusterFinalizer E)\<rparr> \<and>
    Call_EvictWorkloadIdentityCache (Namespace c) (Name c) \<in> set (calls s') \<and>
    (g \<noteq> kubernetesVersionGauge \<longrightarrow>
      val (calls s') g (cluster_labels (ClusterTypeSveltos E) ns n) =
       (if ns = Namespace c \<and> n = Name c then None
        else val (calls s) g (cluster_labels (ClusterTypeSveltos E) ns n))) \<and>
    val (calls s') kubernetesVersionGauge (version_labels (ClusterTypeSveltos E) ns n v) =
       (if ns = Namespace c \<and> n = Name c then None
        else val (calls s) kubernetesVersionGauge (version_labels (ClusterTypeSveltos E) ns n v))"
proof -
  define del where "del = Call_EvictWorkloadIdentityCache (Namespace c) (Name c) #
    [Call_GaugeDelete clusterConnectivityGauge (cluster_labels (ClusterTypeSveltos E) (Namespace c) (Name c)),
     Call_GaugeDeletePartialMatch kubernetesVersionGauge (cluster_labels (ClusterTypeSveltos E) (Namespace c) (Name c)),
     Call_GaugeDelete connectionFailuresGauge (cluster_labels (ClusterTypeSveltos E) (Namespace c) (Name c)),
     Call_GaugeDelete agentLastHeartbeatTimestampGauge (cluster_labels (ClusterTypeSveltos E) (Namespace c) (Name c))]"
  obtain pre where pre: "run_state (reconcileDelete E) s = (0, s\<lparr>obj := c\<lparr>Finalizers :=
      RemoveFinalizer E (Finalizers c) (SveltosClusterFinalizer E)\<rparr>, calls := calls s @ pre @ del\<rparr>)"
    and np: "list_all (\<lambda>c. \<not> gauge_call c) pre"
  proof (cases "CleanupGracePeriod (Spec c)")
    case None
    with assms show ?thesis
      by (intro that [of "[]"])
        (simp_all add: reconcileDelete_def finish_delete_def calls_deleteClusterMetrics del_def)
  next
    case (Some grace)
    with assms show ?thesis
      by (intro that [of "[Call_Now]"])
        (simp_all add: reconcileDelete_def finish_delete_def calls_deleteClusterMetrics del_def time_Now_def
          deletion_deadline_def not_less gauge_call_def)
  qed
  have calls': "calls s' = (calls s @ pre) @ del" by (simp add: s'_def pre)
  have "val (calls s') = foldl gauge_step (val (calls s)) del"
    unfolding calls' registry_fold [OF assms(3)] using registry_only_calls [OF assms(3) np]
    by (simp add: registry_fold [OF assms(3)])
  then show ?thesis
    using pre by (auto simp: s'_def del_def)
      (cases g; auto simp: cluster_labels_def version_labels_def)+
qed

text \<open>Without the finalizer nothing is done at all.\<close>

lemma reconcileDelete_unfinalized:
  assumes "\<not> ContainsFinalizer E (Finalizers (obj s)) (SveltosClusterFinalizer E)"
  shows "run_state (reconcileDelete E) s = (0, s)"
  using assms by (simp add: reconcileDelete_def)

text \<open>
  C12: what the deletion of a cluster does depends on its finalizer and its grace period. Without the
  finalizer nothing happens: no call is made and object and gauges stay. With the finalizer, and a grace
  period that has not elapsed, nothing happens but that the reconciliation asks to be called again in a
  minute. With the finalizer, and a grace period that has elapsed or none, the cluster's
  cached identity is evicted, no gauge holds a value for the cluster any more (a version row of whatever
  version included) while the values of other clusters stay, and then the finalizer is removed.
\<close>

theorem reconcileDelete_cleans_up:
  fixes E and s :: "(sveltos_cluster, call) st"
  defines "s' \<equiv> final (reconcileDelete E) s" and "c \<equiv> obj s"
  assumes "registry_laws val" and "DeletionTimestamp c = Some t"
  shows "if \<not> ContainsFinalizer E (Finalizers c) (SveltosClusterFinalizer E) then
      run_state (reconcileDelete E) s = (0, s)
    else if \<exists>grace. CleanupGracePeriod (Spec c) = Some grace \<and> clock E (calls s) < t + grace then
      run_state (reconcileDelete E) s = (Minute, s\<lparr>calls := calls s @ [Call_Now]\<rparr>)
    else
      result (reconcileDelete E) s = 0 \<and>
      obj s' = c\<lparr>Finalizers := RemoveFinalizer E (Finalizers c) (SveltosClusterFinalizer E)\<rparr> \<and>
      Call_EvictWorkloadIdentityCache (Namespace c) (Name c) \<in> set (calls s') \<and>
      (g \<noteq> kubernetesVersionGauge \<longrightarrow>
        val (calls s') g (cluster_labels (ClusterTypeSveltos E) ns n) =
         (if ns = Namespace c \<and> n = Name c then None
          else val (calls s) g (cluster_labels (ClusterTypeSveltos E) ns n))) \<and>
      val (calls s') kubernetesVersionGauge (version_labels (ClusterTypeSveltos E) ns n v) =
         (if ns = Namespace c \<and> n = Name c then None
          else val (calls s) kubernetesVersionGauge (version_labels (ClusterTypeSveltos E) ns n v))"
proof (cases "ContainsFinalizer E (Finalizers c) (SveltosClusterFinalizer E)")
  case fin: True
  show ?thesis
  proof (cases "\<exists>grace. CleanupGracePeriod (Spec c) = Some grace \<and> clock E (calls s) < t + grace")
    case True
    then show ?thesis
      using fin assms(4) reconcileDelete_before_deadline [of E s t] by (auto simp: c_def)
  next
    case False
    note released = reconcileDelete_released [OF assms(3) fin [unfolded c_def] assms(4) [unfolded c_def]
        False [unfolded c_def], of g ns n v]
    have has: "\<not> \<not> ContainsFinalizer E (Finalizers c) (SveltosClusterFinalizer E)" using fin by simp
    from released show ?thesis
      unfolding if_not_P [OF has] if_not_P [OF False] unfolding s'_def c_def .
  qed
next
  case False
  then show ?thesis using reconcileDelete_unfinalized by (simp add: c_def)
qed

section \<open>Finalizer and window\<close>

lemma run_reconcileNormal:
  fixes E r s
  defines "s1 \<equiv> s\<lparr>obj := update_finalizer E (obj s), calls := calls s @ [Call_Now]\<rparr>"
  shows "run_state (reconcileNormal E r) s = (result (reconcile_body E r) s1,
    (final (reconcile_body E r) s1)
      \<lparr>obj := handleAutomaticPauseUnPause E (clock E (calls s)) (obj (final (reconcile_body E r) s1))\<rparr>)"
  by (simp add: reconcileNormal_def run_bind_pair time_Now_def s1_def del: run_state_bind)

text \<open>The pause handler touches the pause flag, the two times and the hash only.\<close>

definition pause_frame :: "sveltos_cluster \<Rightarrow> sveltos_cluster" where
  "pause_frame c = c\<lparr>Spec := (Spec c)\<lparr>Paused := False\<rparr>,
     Status := (Status c)\<lparr>NextPause := None, NextUnpause := None, ActiveWindowHash := []\<rparr>\<rparr>"

text \<open>A recalculation as a function of what it reads.\<close>

definition new_time :: "env \<Rightarrow> gotime \<Rightarrow> string \<Rightarrow> gotime \<Rightarrow> gotime option \<Rightarrow> goerr + gotime option" where
  "new_time E t schedule created old =
     (if needs_recalculation t old then
        map_sum id Some (getNextScheduleTime E schedule (Some (case old of None \<Rightarrow> (LocalZone, created) | Some x \<Rightarrow> (UTC, x)))
          (UTC, t))
      else Inr old)"

lemma recalculateNextUnpause_new_time:
  "recalculateNextUnpause E c t = map_sum id (\<lambda>x. c\<lparr>Status := (Status c)\<lparr>NextUnpause := x\<rparr>\<rparr>)
     (new_time E t (window_From c) (CreationTimestamp c) (NextUnpause (Status c)))"
  by (simp add: recalculateNextUnpause_def new_time_def last_run_def split: sum.split)

lemma recalculateNextPause_new_time:
  "recalculateNextPause E c t = map_sum id (\<lambda>x. c\<lparr>Status := (Status c)\<lparr>NextPause := x\<rparr>\<rparr>)
     (new_time E t (window_To c) (CreationTimestamp c) (NextPause (Status c)))"
  by (simp add: recalculateNextPause_def new_time_def last_run_def split: sum.split)

lemma recalculate_window_new_time:
  "recalculate_window E t h c =
    (case new_time E t (window_From c) (CreationTimestamp c) (NextUnpause (Status c)) of
       Inl _ \<Rightarrow> c
     | Inr u \<Rightarrow>
         (case new_time E t (window_To c) (CreationTimestamp c) (NextPause (Status c)) of
            Inl _ \<Rightarrow> c\<lparr>Status := (Status c)\<lparr>NextUnpause := u\<rparr>\<rparr>
          | Inr p \<Rightarrow> c\<lparr>Status := (Status c)\<lparr>NextUnpause := u, NextPause := p,
              ActiveWindowHash := (if u \<noteq> None \<and> p \<noteq> None then h else ActiveWindowHash (Status c))\<rparr>\<rparr>))"
proof -
  have "window_To (c\<lparr>Status := x\<rparr>) = window_To c" for x by (simp add: window_To_def)
  then show ?thesis
    by (simp add: recalculate_window_def recalculateNextUnpause_new_time recalculateNextPause_new_time split: sum.split)
qed

lemma pause_frame_recalculate: "pause_frame (recalculate_window E t h c) = pause_frame c"
  unfolding recalculate_window_new_time by (simp add: pause_frame_def split: sum.split)

lemma pause_frame_simps [simp]:
  "pause_frame (set_paused b c) = pause_frame c"
  "pause_frame (c\<lparr>Status := (Status c)\<lparr>NextUnpause := None, NextPause := None\<rparr>\<rparr>) = pause_frame c"
  by (simp_all add: pause_frame_def)

lemma pause_frame_decide: "pause_frame (decide_pause E t h b c) = pause_frame c"
  unfolding decide_pause_def by (simp add: pause_frame_recalculate split: option.split)

lemma pause_frame_handle: "pause_frame (handleAutomaticPauseUnPause E t c) = pause_frame c"
  unfolding handleAutomaticPauseUnPause_def Let_def by (simp add: pause_frame_decide)

lemma handle_keeps:
  "Finalizers (handleAutomaticPauseUnPause E t c) = Finalizers c"
  "conn_abs (handleAutomaticPauseUnPause E t c) = conn_abs c"
  "Ready (Status (handleAutomaticPauseUnPause E t c)) = Ready (Status c)"
  "Version (Status (handleAutomaticPauseUnPause E t c)) = Version (Status c)"
  "FailureMessage (Status (handleAutomaticPauseUnPause E t c)) = FailureMessage (Status c)"
  "ConsecutiveFailureThreshold (Spec (handleAutomaticPauseUnPause E t c)) = ConsecutiveFailureThreshold (Spec c)"
  "PullMode (Spec (handleAutomaticPauseUnPause E t c)) = PullMode (Spec c)"
  using arg_cong [OF pause_frame_handle [of E t c], of Finalizers]
    arg_cong [OF pause_frame_handle [of E t c], of conn_abs]
    arg_cong [OF pause_frame_handle [of E t c], of "\<lambda>c. Ready (Status c)"]
    arg_cong [OF pause_frame_handle [of E t c], of "\<lambda>c. Version (Status c)"]
    arg_cong [OF pause_frame_handle [of E t c], of "\<lambda>c. FailureMessage (Status c)"]
    arg_cong [OF pause_frame_handle [of E t c], of "\<lambda>c. ConsecutiveFailureThreshold (Spec c)"]
    arg_cong [OF pause_frame_handle [of E t c], of "\<lambda>c. PullMode (Spec c)"]
  by (simp_all add: pause_frame_def conn_abs_def)

lemma finalizers_reconcileNormal:
  "Finalizers (obj (final (reconcileNormal E r) s)) =
    (case CleanupGracePeriod (Spec (obj s)) of
       Some _ \<Rightarrow> AddFinalizer E (Finalizers (obj s)) (SveltosClusterFinalizer E)
     | None \<Rightarrow> RemoveFinalizer E (Finalizers (obj s)) (SveltosClusterFinalizer E))"
proof -
  let ?s1 = "s\<lparr>obj := update_finalizer E (obj s), calls := calls s @ [Call_Now]\<rparr>"
  have "steady (obj (final (reconcile_body E r) ?s1)) = steady (obj ?s1)"
    by (rule keepsD [OF keeps_reconcile_body_steady])
  then have "Finalizers (obj (final (reconcile_body E r) ?s1)) = Finalizers (update_finalizer E (obj s))"
    by (simp add: steady_def)
  then show ?thesis
    by (simp add: run_reconcileNormal handle_keeps update_finalizer_def split: option.split)
qed

text \<open>
  C29: after every normal reconciliation, in push or pull mode and however it went, a cluster
  has the finalizer added exactly when it has a cleanup grace period, and removed when it
  has none, so that deletion then does not depend on the controller.
\<close>

theorem reconcileNormal_finalizer:
  "Finalizers (obj (final (reconcileNormal E r) s)) =
    (case CleanupGracePeriod (Spec (obj s)) of
       Some _ \<Rightarrow> AddFinalizer E (Finalizers (obj s)) (SveltosClusterFinalizer E)
     | None \<Rightarrow> RemoveFinalizer E (Finalizers (obj s)) (SveltosClusterFinalizer E))"
  by (rule finalizers_reconcileNormal)

text \<open>What the pause handler reads, and the same decision for the same input.\<close>

definition window_view :: "sveltos_cluster \<Rightarrow>
    active_window option \<times> gotime \<times> bool \<times> gotime option \<times> gotime option \<times> string" where
  "window_view c = (ActiveWindow (Spec c), CreationTimestamp c, Paused (Spec c), NextPause (Status c),
     NextUnpause (Status c), ActiveWindowHash (Status c))"

lemma window_view_eqD:
  "window_view c = window_view d \<Longrightarrow> ActiveWindow (Spec c) = ActiveWindow (Spec d)"
  "window_view c = window_view d \<Longrightarrow> CreationTimestamp c = CreationTimestamp d"
  "window_view c = window_view d \<Longrightarrow> Paused (Spec c) = Paused (Spec d)"
  "window_view c = window_view d \<Longrightarrow> NextPause (Status c) = NextPause (Status d)"
  "window_view c = window_view d \<Longrightarrow> NextUnpause (Status c) = NextUnpause (Status d)"
  "window_view c = window_view d \<Longrightarrow> ActiveWindowHash (Status c) = ActiveWindowHash (Status d)"
  by (simp_all add: window_view_def)

lemma window_view_recalculate:
  assumes "window_view c = window_view d"
  shows "window_view (recalculate_window E t h c) = window_view (recalculate_window E t h d)"
proof -
  note w = window_view_eqD [OF assms]
  have "window_From c = window_From d" "window_To c = window_To d"
    using w by (simp_all add: window_From_def window_To_def)
  then show ?thesis
    unfolding recalculate_window_new_time using w by (simp add: window_view_def split: sum.split)
qed

lemma window_view_decide:
  assumes "window_view c = window_view d"
  shows "window_view (decide_pause E t h b c) = window_view (decide_pause E t h b d)"
proof -
  note w = window_view_eqD [OF assms]
  have p: "window_view (set_paused x c) = window_view (set_paused x d)" for x
    using w by (simp add: window_view_def)
  show ?thesis
    unfolding decide_pause_def
    by (simp add: w(4,5) p assms window_view_recalculate [OF p] window_view_recalculate [OF assms] split: option.split)
qed

lemma window_view_handle:
  assumes "window_view c = window_view d"
  shows "window_view (handleAutomaticPauseUnPause E t c) = window_view (handleAutomaticPauseUnPause E t d)"
proof -
  note w = window_view_eqD [OF assms]
  have v: "window_view (reset_times c) = window_view (reset_times d)" using w by (simp add: window_view_def)
  have "window_view (decide_pause E t h b (if b then reset_times c else c)) =
      window_view (decide_pause E t h b (if b then reset_times d else d))" for h b
    by (cases b) (simp_all only: if_True if_False window_view_decide [OF v] window_view_decide [OF assms])
  then show ?thesis
    unfolding handleAutomaticPauseUnPause_def Let_def w(1,6)
    by (cases "ActiveWindow (Spec d) = None") (simp_all only: if_True if_False v refl)
qed

lemma steady_Spec:
  assumes "steady c = steady d"
  shows "ActiveWindow (Spec c) = ActiveWindow (Spec d)" "Paused (Spec c) = Paused (Spec d)"
    "PullMode (Spec c) = PullMode (Spec d)"
    "ConsecutiveFailureThreshold (Spec c) = ConsecutiveFailureThreshold (Spec d)"
proof -
  have "Spec (renewal_frame c) = Spec (renewal_frame d)" using assms unfolding steady_def by blast
  note eq = arg_cong [OF this]
  show "ActiveWindow (Spec c) = ActiveWindow (Spec d)" "Paused (Spec c) = Paused (Spec d)"
    "PullMode (Spec c) = PullMode (Spec d)"
    "ConsecutiveFailureThreshold (Spec c) = ConsecutiveFailureThreshold (Spec d)"
    using eq [of ActiveWindow] eq [of Paused] eq [of PullMode] eq [of ConsecutiveFailureThreshold]
    by (simp_all add: renewal_frame_def)
qed

lemma steady_window_view: "steady c = steady d \<Longrightarrow> window_view c = window_view d"
proof -
  assume a: "steady c = steady d"
  have "CreationTimestamp c = CreationTimestamp d" "NextPause (Status c) = NextPause (Status d)"
    "NextUnpause (Status c) = NextUnpause (Status d)" "ActiveWindowHash (Status c) = ActiveWindowHash (Status d)"
    using a unfolding steady_def by blast+
  with steady_Spec [OF a] show ?thesis by (simp add: window_view_def)
qed

lemma reconcileNormal_view:
  "window_view (obj (final (reconcileNormal E r) s)) =
    window_view (handleAutomaticPauseUnPause E (clock E (calls s)) (obj s))"
proof -
  let ?s1 = "s\<lparr>obj := update_finalizer E (obj s), calls := calls s @ [Call_Now]\<rparr>"
  have "steady (obj (final (reconcile_body E r) ?s1)) = steady (obj ?s1)"
    by (rule keepsD [OF keeps_reconcile_body_steady])
  then have "window_view (obj (final (reconcile_body E r) ?s1)) = window_view (obj ?s1)"
    by (rule steady_window_view)
  also have "\<dots> = window_view (update_finalizer E (obj s))" by simp
  also have "\<dots> = window_view (obj s)" by (simp add: update_finalizer_def window_view_def)
  finally have "window_view (obj (final (reconcile_body E r) ?s1)) = window_view (obj s)" .
  note window_view_handle [OF this, of E "clock E (calls s)"]
  then show ?thesis by (simp add: run_reconcileNormal)
qed

text \<open>
  C16: a normal reconciliation decides about the active window exactly as the pause handler
  does on the cluster it started with, at the time read at its start: nothing else it does, and no
  failure on the way, changes the pause flag, the stored times or the hash.
\<close>

theorem reconcileNormal_window:
  "window_view (obj (final (reconcileNormal E r) s)) =
    window_view (handleAutomaticPauseUnPause E (clock E (calls s)) (obj s))"
  by (rule reconcileNormal_view)

section \<open>The patch of a reconciliation does not start another one\<close>

text \<open>The spec of a cluster that renews no token; all others look alike.\<close>

definition spec_without_renewal :: "sveltos_cluster \<Rightarrow> cluster_spec option" where
  "spec_without_renewal c = (if TokenRequestRenewalOption (Spec c) = None then Some (Spec c) else None)"

lemma spec_without_renewal_simps [simp]:
  "spec_without_renewal (c\<lparr>Status := st\<rparr>) = spec_without_renewal c"
  "spec_without_renewal (c\<lparr>Labels := l\<rparr>) = spec_without_renewal c"
  "spec_without_renewal (c\<lparr>Finalizers := fs\<rparr>) = spec_without_renewal c"
  "spec_without_renewal (Annotations_update f c) = spec_without_renewal c"
  by (simp_all add: spec_without_renewal_def)

lemma spec_without_renewal_conn_frame: "spec_without_renewal c = spec_without_renewal (conn_frame c)"
  by (simp add: conn_frame_def)

lemma no_option:
  "keeps (\<lambda>s. TokenRequestRenewalOption (Spec (obj s)) = None) (push_renewal E cfg)"
  "keeps (\<lambda>s. TokenRequestRenewalOption (Spec (obj s)) = None) (pull_renewal E r)"
  by (rule keeps_push_renewal keeps_pull_renewal; simp add: renewal_frame_def)+

lemma no_renewal_option:
  "TokenRequestRenewalOption (Spec (obj s)) = None \<Longrightarrow> run_state (push_renewal E cfg) s = ((), s)"
  "TokenRequestRenewalOption (Spec (obj s)) = None \<Longrightarrow> run_state (pull_renewal E r) s = ((), s)"
  by (simp_all add: push_renewal_def pull_renewal_def shouldRenewTokenRequest_def)

lemma keeps_spec_if_idle:
  assumes "keeps (\<lambda>s. TokenRequestRenewalOption (Spec (obj s)) = None) m"
    and "\<And>s. TokenRequestRenewalOption (Spec (obj s)) = None \<Longrightarrow> run_state m s = ((), s)"
  shows "keeps (\<lambda>s. spec_without_renewal (obj s)) m"
  by (rule keepsI) (use assms(2) keepsD [OF assms(1)] in \<open>auto simp: spec_without_renewal_def\<close>)

lemma keeps_spec_mark_ready: "keeps (\<lambda>s. spec_without_renewal (obj s)) (mark_ready E v)"
  unfolding mark_ready_def Let_def by (intro keeps_rules) simp_all

lemma keeps_spec_reconcile_body: "keeps (\<lambda>s. spec_without_renewal (obj s)) (reconcile_body E r)"
  unfolding reconcile_body_def reconcile_push_def probe_version_def reconcilePullModeCluster_def check_heartbeat_def
  by (intro keeps_rules keeps_push_checks keeps_spec_mark_ready keeps_updateConnectionStatus
      keeps_spec_if_idle no_option no_renewal_option spec_without_renewal_conn_frame) simp_all

text \<open>
  C17: the patch at the end of a normal reconciliation does not start the next one. For a cluster
  that renews no token and whose pause flag stays as it is, the update event it causes is
  filtered out, whatever the reconciliation changed: the status, the version label, the license
  annotations, the finalizer.
\<close>

theorem own_patch_filtered:
  assumes "TokenRequestRenewalOption (Spec (obj s)) = None"
    and "Paused (Spec (handleAutomaticPauseUnPause E (clock E (calls s)) (obj s))) = Paused (Spec (obj s))"
  shows "\<not> UpdateFunc (Some (obj s)) (obj (final (reconcileNormal E r) s))"
proof -
  let ?s1 = "s\<lparr>obj := update_finalizer E (obj s), calls := calls s @ [Call_Now]\<rparr>"
  let ?c = "obj (final (reconcile_body E r) ?s1)"
  let ?c' = "handleAutomaticPauseUnPause E (clock E (calls s)) ?c"
  have u: "Spec (update_finalizer E (obj s)) = Spec (obj s)"
    "DeletionTimestamp (update_finalizer E (obj s)) = DeletionTimestamp (obj s)"
    by (simp_all add: update_finalizer_def)
  have "spec_without_renewal ?c = spec_without_renewal (obj ?s1)" by (rule keepsD [OF keeps_spec_reconcile_body])
  then have spec: "Spec ?c = Spec (obj s)" using assms(1) u(1) by (auto simp: spec_without_renewal_def split: if_splits)
  have "steady ?c = steady (obj ?s1)" by (rule keepsD [OF keeps_reconcile_body_steady])
  then have del: "DeletionTimestamp ?c = DeletionTimestamp (obj s)" using u(2) by (simp add: steady_def)
  have frame: "pause_frame ?c' = pause_frame ?c" by (rule pause_frame_handle)
  have "DeletionTimestamp ?c' = DeletionTimestamp (obj s)"
    using arg_cong [OF frame, of DeletionTimestamp] del by (simp add: pause_frame_def)
  moreover have "Spec ?c' = Spec (obj s)"
  proof -
    have "Paused (Spec ?c') = Paused (Spec (obj s))"
      using run_reconcileNormal [of E r s] reconcileNormal_view [of E r s] assms(2) by (simp add: window_view_def)
    moreover have "(Spec ?c')\<lparr>Paused := False\<rparr> = (Spec (obj s))\<lparr>Paused := False\<rparr>"
      using arg_cong [OF frame, of Spec] spec by (simp add: pause_frame_def)
    ultimately show ?thesis by (cases "Spec ?c'"; cases "Spec (obj s)") simp
  qed
  ultimately show ?thesis by (simp add: run_reconcileNormal UpdateFunc_Some)
qed

section \<open>The connection over push-mode reconciliations\<close>

definition no_panic :: "env \<Rightarrow> bool" where
  "no_panic E \<longleftrightarrow> (\<forall>h cfg. NewDiscoveryClient E h cfg = None \<and> NewDynamicClient E h cfg = None)"

definition panics :: "'a outcome \<Rightarrow> bool" where
  "panics x = (case x of Panic _ \<Rightarrow> True | _ \<Rightarrow> False)"

lemma panics_simps [simp]: "\<not> panics (Ret a)" "\<not> panics (Fail e)" "panics (Panic m)"
  by (simp_all add: panics_def)

lemma no_panic_getResourcesMatching:
  "no_panic E \<Longrightarrow> \<not> panics (result (getResourcesMatchinResourceSelector E cfg sel) s)"
  by (auto simp: getResourcesMatchinResourceSelector_def no_panic_def Let_def case_prod_beta split: sum.split)

lemma no_panic_getResources: "no_panic E \<Longrightarrow> \<not> panics (result (getResources E cfg sels) s)"
proof (induction sels arbitrary: s)
  case (Cons sel sels)
  show ?case
    using no_panic_getResourcesMatching [OF Cons.prems, of cfg sel s]
      Cons.IH [OF Cons.prems, of "final (getResourcesMatchinResourceSelector E cfg sel) s"]
    by (auto simp: run_bind_pair simp del: run_state_bind split: outcome.split)
qed simp

lemma no_panic_runChecks: "no_panic E \<Longrightarrow> \<not> panics (result (runChecks E cfg chks) s)"
proof (induction chks arbitrary: s)
  case (Cons c chks)
  have "\<not> panics (result (runCheck E cfg c) s)"
    using no_panic_getResources [OF Cons.prems, of cfg "elems (ResourceSelectors c)" s]
    by (auto simp: runCheck_def run_bind_pair simp del: run_state_bind split: outcome.split sum.split)
  with Cons.IH [OF Cons.prems, of "final (runCheck E cfg c) s"] show ?case
    by (auto simp: run_bind_pair simp del: run_state_bind split: outcome.split)
qed simp

text \<open>Apart from a panic the push branch always comes to its end.\<close>

definition is_Ret :: "'a outcome \<Rightarrow> bool" where
  "is_Ret x = (case x of Ret _ \<Rightarrow> True | _ \<Rightarrow> False)"

lemma is_Ret_simps [simp]: "is_Ret (Ret a)" "\<not> is_Ret (Fail e)" "\<not> is_Ret (Panic m)"
  by (simp_all add: is_Ret_def)

lemma is_Ret_iff: "is_Ret x \<longleftrightarrow> (\<exists>a. x = Ret a)"
  by (cases x) simp_all

lemma push_checks_Ret:
  "is_Ret (result (push_checks E cfg v) s) \<longleftrightarrow> \<not> panics (result (reconciler_runChecks E cfg) s)"
  by (simp add: push_checks_def run_bind_pair del: run_state_bind split: outcome.split)

lemma no_panic_reconciler_runChecks: "no_panic E \<Longrightarrow> \<not> panics (result (reconciler_runChecks E cfg) s)"
  by (simp add: reconciler_runChecks_def no_panic_runChecks)

lemma probe_version_Ret: "no_panic E \<Longrightarrow> is_Ret (result (probe_version E cfg) s)"
  by (simp add: probe_version_def run_bind_pair push_checks_Ret no_panic_reconciler_runChecks
      del: run_state_bind split: sum.split)

lemma keeps_mark_ready_conn:
  "keeps (\<lambda>s. (conn_abs (obj s), FailureMessage (Status (obj s)))) (mark_ready E v)"
  unfolding mark_ready_def Let_def by (intro keeps_rules) (simp_all add: conn_abs_def)

lemma keeps_mark_ready_conn_only: "keeps (\<lambda>s. conn_abs (obj s)) (mark_ready E v)"
  by (rule keeps_coarser [OF keeps_mark_ready_conn, where g = fst]) simp

lemma keeps_probe_version_conn: "keeps (\<lambda>s. conn_abs (obj s)) (probe_version E cfg)"
  by (intro keeps_probe_version keeps_mark_ready_conn_only) (simp_all add: conn_abs_def)

lemma only_calls_probe_version: "only_calls (\<lambda>c. \<not> event_call c) (probe_version E cfg)"
  unfolding probe_version_def push_renewal_def push_checks_def
  by (intro calls_rules only_calls_mono [OF only_calls_shouldRenew]
      only_calls_mono [OF only_calls_handleTokenRequestRenewal]
      only_calls_mono [OF only_calls_reconciler_runChecks] only_calls_mono [OF only_calls_mark_ready])
    (auto simp: event_call_def token_call_def check_call_def gauge_call_def split: call.splits)

text \<open>One push-mode reconciliation follows the automaton of the connection.\<close>

lemma obj_connection_metrics: "obj (final (connection_metrics E) s) = obj s"
  by simp

lemma status_of_conn_abs [simp]: "status_of (conn_abs c) = ConnectionStatus (Status c)"
  by (simp add: conn_abs_def)

abbreviation failing :: "(sveltos_cluster, call) st \<Rightarrow> bool" where
  "failing s \<equiv> FailureMessage (Status (obj s)) \<noteq> None"

abbreviation threshold_of :: "(sveltos_cluster, call) st \<Rightarrow> int" where
  "threshold_of s \<equiv> ConsecutiveFailureThreshold (Spec (obj s))"

abbreviation event_count :: "(sveltos_cluster, call) st \<Rightarrow> nat" where
  "event_count s \<equiv> length (filter event_call (calls s))"

lemma reconcile_push_parts:
  assumes "is_Ret (result (reconcile_push E r) s)"
  obtains t where "conn_abs (obj t) = conn_abs (obj s)"
    "filter event_call (calls t) = filter event_call (calls s)" "threshold_of t = threshold_of s"
    "obj (final (reconcile_push E r) s) = obj (final (updateConnectionStatus E r) t)"
    "filter event_call (calls (final (reconcile_push E r) s)) =
       filter event_call (calls (final (updateConnectionStatus E r) t))"
proof -
  let ?get = "Call_GetRestConfig (Namespace (obj s)) (Name (obj s))"
  let ?s1 = "s\<lparr>calls := calls s @ [?get]\<rparr>"
  show ?thesis
  proof (cases "GetSveltosKubernetesRestConfig E (calls s) (Namespace (obj s)) (Name (obj s))")
    case (Inl e)
    show ?thesis
      by (rule that [of "final (set_failure (Some (Error e))) ?s1"])
        (simp_all add: reconcile_push_def Inl run_bind_pair conn_abs_def event_call_def del: run_state_bind)
  next
    case (Inr cfg)
    let ?s2 = "final (set_failure None) ?s1"
    let ?t = "final (probe_version E cfg) ?s2"
    have conn: "conn_abs (obj ?t) = conn_abs (obj s)"
      using keepsD [OF keeps_probe_version_conn, of E cfg ?s2] by (simp add: conn_abs_def)
    have ev: "filter event_call (calls ?t) = filter event_call (calls s)"
      using only_calls_filter [OF only_calls_probe_version, of event_call E cfg ?s2] by (simp add: event_call_def)
    have "keeps (\<lambda>s. steady (obj s)) (probe_version E cfg)"
      by (intro keeps_probe_version keeps_mark_ready_steady steady_renewal_frame) simp_all
    then have "steady (obj ?t) = steady (obj s)" using keepsD by fastforce
    then have thr: "threshold_of ?t = threshold_of s" by (rule steady_Spec(4))
    from assms obtain a where a: "result (probe_version E cfg) ?s2 = Ret a"
      by (auto simp: reconcile_push_def Inr run_bind_pair simp del: run_state_bind split: outcome.splits)
    have "final (reconcile_push E r) s = final (connection_metrics E) (final (updateConnectionStatus E r) ?t)"
      using a by (simp add: reconcile_push_def Inr run_bind_pair del: run_state_bind run_set_failure)
    then show ?thesis
      by (intro that [OF conn ev thr]) (simp_all add: events_connection_metrics)
  qed
qed

lemma reconcile_push_conn:
  assumes "is_Ret (result (reconcile_push E r) s)"
  shows "conn_abs (obj (final (reconcile_push E r) s)) =
      conn_step (threshold_of s) (failing (final (reconcile_push E r) s)) (conn_abs (obj s))"
    and "event_count (final (reconcile_push E r) s) = event_count s +
      transition_events r (ConnectionStatus (Status (obj s)))
        (ConnectionStatus (Status (obj (final (reconcile_push E r) s))))"
proof -
  obtain t where t: "conn_abs (obj t) = conn_abs (obj s)"
    "filter event_call (calls t) = filter event_call (calls s)" "threshold_of t = threshold_of s"
    "obj (final (reconcile_push E r) s) = obj (final (updateConnectionStatus E r) t)"
    "filter event_call (calls (final (reconcile_push E r) s)) =
       filter event_call (calls (final (updateConnectionStatus E r) t))"
    using reconcile_push_parts [OF assms] .
  have st: "ConnectionStatus (Status (obj t)) = ConnectionStatus (Status (obj s))"
    using arg_cong [OF t(1), of status_of] by simp
  show "conn_abs (obj (final (reconcile_push E r) s)) =
      conn_step (threshold_of s) (failing (final (reconcile_push E r) s)) (conn_abs (obj s))"
    by (simp add: t conn_abs_updateConnectionStatus)
  show "event_count (final (reconcile_push E r) s) = event_count s +
      transition_events r (ConnectionStatus (Status (obj s)))
        (ConnectionStatus (Status (obj (final (reconcile_push E r) s))))"
    by (simp add: t updateConnectionStatus_events st)
qed

lemma reconcile_push_Ret: "no_panic E \<Longrightarrow> is_Ret (result (reconcile_push E r) s)"
proof -
  assume np: "no_panic E"
  let ?get = "Call_GetRestConfig (Namespace (obj s)) (Name (obj s))"
  show ?thesis
  proof (cases "GetSveltosKubernetesRestConfig E (calls s) (Namespace (obj s)) (Name (obj s))")
    case (Inr cfg)
    let ?s2 = "final (set_failure None) (s\<lparr>calls := calls s @ [?get]\<rparr>)"
    obtain a where "result (probe_version E cfg) ?s2 = Ret a"
      using probe_version_Ret [OF np, of cfg ?s2] by (auto simp: is_Ret_iff)
    then show ?thesis
      by (simp add: reconcile_push_def Inr run_bind_pair del: run_state_bind)
  qed (simp add: reconcile_push_def run_bind_pair del: run_state_bind)
qed

definition push_step :: "reconciler \<Rightarrow> env \<Rightarrow> (sveltos_cluster, call) st \<Rightarrow> (sveltos_cluster, call) st" where
  "push_step r E s = final (reconcileNormal E r) s"

lemma push_step_parts:
  assumes "no_panic E" "\<not> PullMode (Spec (obj s))"
  shows "\<not> PullMode (Spec (obj (push_step r E s)))"
    and "threshold_of (push_step r E s) = threshold_of s"
    and "conn_abs (obj (push_step r E s)) = conn_step (threshold_of s) (failing (push_step r E s)) (conn_abs (obj s))"
    and "event_count (push_step r E s) = event_count s +
      transition_events r (ConnectionStatus (Status (obj s))) (ConnectionStatus (Status (obj (push_step r E s))))"
proof -
  let ?s1 = "s\<lparr>obj := update_finalizer E (obj s), calls := calls s @ [Call_Now]\<rparr>"
  let ?s2 = "final (reconcile_push E r) ?s1"
  have u: "PullMode (Spec (update_finalizer E (obj s))) = PullMode (Spec (obj s))"
    "conn_abs (update_finalizer E (obj s)) = conn_abs (obj s)"
    "ConsecutiveFailureThreshold (Spec (update_finalizer E (obj s))) = threshold_of s"
    "Status (update_finalizer E (obj s)) = Status (obj s)"
    by (simp_all add: update_finalizer_def conn_abs_def)
  have step: "push_step r E s = ?s2\<lparr>obj := handleAutomaticPauseUnPause E (clock E (calls s)) (obj ?s2)\<rparr>"
    using assms(2) u(1) by (simp add: push_step_def run_reconcileNormal reconcile_body_def run_bind_pair del: run_state_bind)
  have st: "steady (obj ?s2) = steady (obj ?s1)" by (rule keepsD [OF keeps_reconcile_push_steady])
  note fields = steady_Spec(3,4) [OF st]
  note c = reconcile_push_conn [OF reconcile_push_Ret [OF assms(1), of r ?s1]]
  have status: "ConnectionStatus (Status (handleAutomaticPauseUnPause E t x)) = ConnectionStatus (Status x)" for t x
    using arg_cong [OF handle_keeps(2) [of E t x], of status_of] by simp
  show "\<not> PullMode (Spec (obj (push_step r E s)))"
    using fields(1) u(1) assms(2) by (simp add: step handle_keeps)
  show "threshold_of (push_step r E s) = threshold_of s"
    using fields(2) u(3) by (simp add: step handle_keeps)
  show "conn_abs (obj (push_step r E s)) = conn_step (threshold_of s) (failing (push_step r E s)) (conn_abs (obj s))"
    using c(1) by (simp add: step handle_keeps u)
  show "event_count (push_step r E s) = event_count s +
      transition_events r (ConnectionStatus (Status (obj s))) (ConnectionStatus (Status (obj (push_step r E s))))"
    using c(2) by (simp add: step status u event_call_def)
qed

interpretation push: connection_tracker
  "push_step r" no_panic "\<lambda>s. \<not> PullMode (Spec (obj s))" failing threshold_of "\<lambda>s. conn_abs (obj s)" for r
proof unfold_locales
  fix i :: env and s :: "(sveltos_cluster, call) st"
  assume "no_panic i" "\<not> PullMode (Spec (obj s))"
  note parts = push_step_parts [OF this, of r]
  show "\<not> PullMode (Spec (obj (push_step r i s)))" by (rule parts(1))
  show "threshold_of (push_step r i s) = threshold_of s" by (rule parts(2))
  show "conn_abs (obj (push_step r i s)) = conn_step (threshold_of s) (failing (push_step r i s)) (conn_abs (obj s))"
    by (rule parts(3))
qed

interpretation push_events: connection_events
  "push_step r" no_panic "\<lambda>s. \<not> PullMode (Spec (obj s)) \<and> HasEventRecorder r"
  failing threshold_of "\<lambda>s. conn_abs (obj s)" event_count for r
proof unfold_locales
  fix i :: env and s :: "(sveltos_cluster, call) st"
  assume "no_panic i" "\<not> PullMode (Spec (obj s)) \<and> HasEventRecorder r"
  then have "no_panic i" "\<not> PullMode (Spec (obj s))" and r: "HasEventRecorder r" by auto
  note parts = push_step_parts [OF this(1,2), of r]
  show "\<not> PullMode (Spec (obj (push_step r i s))) \<and> HasEventRecorder r" using parts(1) r by simp
  show "threshold_of (push_step r i s) = threshold_of s" by (rule parts(2))
  show "conn_abs (obj (push_step r i s)) = conn_step (threshold_of s) (failing (push_step r i s)) (conn_abs (obj s))"
    by (rule parts(3))
  show "event_count (push_step r i s) = event_count s +
      (if (status_of (conn_abs (obj s)) = ConnectionDown) = (status_of (conn_abs (obj (push_step r i s))) = ConnectionDown)
       then 0 else 1)"
    unfolding parts(4) status_of_conn_abs using r by (simp add: transition_events_def)
qed

text \<open>
  C1: over any run of fewer than \<open>2^63\<close> push-mode reconciliations of a cluster that starts without
  failures and not down, each in an environment of its own in which no library constructor panics,
  the failure count is the number of failed reconciliations since the last successful one, and
  the cluster is down exactly when that number has reached the threshold (and is at least one). A
  reconciliation counts as failed when it leaves a failure message.
\<close>

theorem push_down_after_threshold:
  fixes r :: reconciler and Es :: "env list" and s :: "(sveltos_cluster, call) st"
  assumes "list_all no_panic Es" "\<not> PullMode (Spec (obj s))"
    and "ConnectionFailures (Status (obj s)) = 0" "ConnectionStatus (Status (obj s)) \<noteq> ConnectionDown"
    and "int (length Es) < 2 ^ 63"
  defines "s' \<equiv> run_steps (push_step r) Es s"
    and "k \<equiv> trailing (map failing (trace (push_step r) Es s))"
  shows "ConnectionFailures (Status (obj s')) = int k \<and>
    (ConnectionStatus (Status (obj s')) = ConnectionDown \<longleftrightarrow>
       1 \<le> k \<and> ConsecutiveFailureThreshold (Spec (obj s)) \<le> int k)"
  using push.run_down_iff [OF assms(1,2), of r] assms(3-5)
  by (simp add: s'_def k_def conn_abs_def)

text \<open>
  C14: along any run of push-mode reconciliations, with an event recorder and in environments in which no
  library constructor panics, exactly one event is recorded each time the cluster goes down or
  recovers, and none otherwise.
\<close>

theorem push_one_event_per_transition:
  assumes "list_all no_panic Es" "\<not> PullMode (Spec (obj s))" "HasEventRecorder r"
  shows "event_count (run_steps (push_step r) Es s) = event_count s +
    changes (\<lambda>t. ConnectionStatus (Status (obj t)) = ConnectionDown) (s # trace (push_step r) Es s)"
  using push_events.run_events [OF assms(1), of s r] assms(2,3) by simp

section \<open>The connection over pull-mode reconciliations\<close>

text \<open>
  A step of a run in pull mode: the agent's last report, which another component writes, and a
  reconciliation in an environment of its own.
\<close>

definition with_report :: "gotime \<Rightarrow> sveltos_cluster \<Rightarrow> sveltos_cluster" where
  "with_report t c = c\<lparr>Status := (Status c)\<lparr>AgentLastReportTime := Some t\<rparr>\<rparr>"

definition pull_step :: "reconciler \<Rightarrow> env \<times> gotime \<Rightarrow> (sveltos_cluster, call) st \<Rightarrow> (sveltos_cluster, call) st" where
  "pull_step r i s = final (reconcileNormal (fst i) r) (s\<lparr>obj := with_report (snd i) (obj s)\<rparr>)"

abbreviation pull_ready :: "(sveltos_cluster, call) st \<Rightarrow> bool" where
  "pull_ready s \<equiv> PullMode (Spec (obj s)) \<and> Ready (Status (obj s))"

lemma pull_step_parts:
  assumes "pull_ready s"
  shows "pull_ready (pull_step r (E, t) s)"
    and "threshold_of (pull_step r (E, t) s) = threshold_of s"
    and "conn_abs (obj (pull_step r (E, t) s)) =
      conn_step (threshold_of s) (failing (pull_step r (E, t) s)) (conn_abs (obj s))"
    and "event_count (pull_step r (E, t) s) = event_count s +
      transition_events r (ConnectionStatus (Status (obj s))) (ConnectionStatus (Status (obj (pull_step r (E, t) s))))"
    and "(\<And>h. 10 * Minute < clock E h - t) \<Longrightarrow> failing (pull_step r (E, t) s)"
proof -
  define s1 where "s1 = s\<lparr>obj := update_finalizer E (with_report t (obj s)), calls := calls s @ [Call_Now]\<rparr>"
  let ?s2 = "final (reconcilePullModeCluster E r) s1"
  have u: "Spec (obj s1) = Spec (obj s)" "Ready (Status (obj s1))" "AgentLastReportTime (Status (obj s1)) = Some t"
    "conn_abs (obj s1) = conn_abs (obj s)" "ConnectionStatus (Status (obj s1)) = ConnectionStatus (Status (obj s))"
    "filter event_call (calls s1) = filter event_call (calls s)"
    using assms by (simp_all add: s1_def with_report_def update_finalizer_def conn_abs_def event_call_def)
  have step: "pull_step r (E, t) s = ?s2\<lparr>obj := handleAutomaticPauseUnPause E (clock E (calls s)) (obj ?s2)\<rparr>"
    using assms u(1) unfolding pull_step_def run_reconcileNormal
    by (simp add: reconcile_body_def run_bind_pair s1_def del: run_state_bind)
  have "steady (obj ?s2) = steady (obj s1)" by (rule keepsD [OF keeps_reconcilePullModeCluster_steady])
  note fields = steady_Spec(3,4) [OF this]
  note hb = pull_with_heartbeat [where E = E and r = r, OF u(2,3)]
  have status: "ConnectionStatus (Status (handleAutomaticPauseUnPause E t x)) = ConnectionStatus (Status x)" for t x
    using arg_cong [OF handle_keeps(2) [of E t x], of status_of] by simp
  show "pull_ready (pull_step r (E, t) s)"
    using fields(1) u(1,2) assms keepsD [OF keeps_reconcilePullModeCluster_Ready, of E r s1]
    by (simp add: step handle_keeps)
  show "threshold_of (pull_step r (E, t) s) = threshold_of s"
    using fields(2) u(1) by (simp add: step handle_keeps)
  show "conn_abs (obj (pull_step r (E, t) s)) =
      conn_step (threshold_of s) (failing (pull_step r (E, t) s)) (conn_abs (obj s))"
    using hb(1) by (simp add: step handle_keeps u)
  show "event_count (pull_step r (E, t) s) = event_count s +
      transition_events r (ConnectionStatus (Status (obj s))) (ConnectionStatus (Status (obj (pull_step r (E, t) s))))"
    using hb(2) by (simp add: step status u)
  show "failing (pull_step r (E, t) s)" if "\<And>h. 10 * Minute < clock E h - t"
    using hb(3) that by (simp add: step handle_keeps)
qed

interpretation pull: connection_events
  "pull_step r" "\<lambda>_. True" "\<lambda>s. pull_ready s \<and> HasEventRecorder r"
  failing threshold_of "\<lambda>s. conn_abs (obj s)" event_count for r
proof unfold_locales
  fix i :: "env \<times> gotime" and s :: "(sveltos_cluster, call) st"
  assume "pull_ready s \<and> HasEventRecorder r"
  then have s: "pull_ready s" and r: "HasEventRecorder r" by auto
  obtain E t where i: "i = (E, t)" by (cases i)
  note parts = pull_step_parts [where r = r and E = E and t = t, OF s]
  show "pull_ready (pull_step r i s) \<and> HasEventRecorder r" using parts(1) r by (simp add: i)
  show "threshold_of (pull_step r i s) = threshold_of s" unfolding i by (rule parts(2))
  show "conn_abs (obj (pull_step r i s)) = conn_step (threshold_of s) (failing (pull_step r i s)) (conn_abs (obj s))"
    unfolding i by (rule parts(3))
  show "event_count (pull_step r i s) = event_count s +
      (if (status_of (conn_abs (obj s)) = ConnectionDown) = (status_of (conn_abs (obj (pull_step r i s))) = ConnectionDown)
       then 0 else 1)"
    unfolding i parts(4) status_of_conn_abs using r by (simp add: transition_events_def)
qed

text \<open>
  C7: over any run of fewer than \<open>2^63\<close> reconciliations, with an event recorder, of a pull-mode cluster
  that is ready, without failures and not down, whatever its agent reports in between (there is a
  report before each of them), the failure count is the number of failed reconciliations since the last
  successful one, the cluster is down exactly when that number has reached the threshold (and is at
  least one), and exactly one event is recorded each time it goes down or recovers. A reconciliation
  that finds the last report more than ten minutes old always counts as failed.
\<close>

theorem pull_down_after_threshold:
  fixes r :: reconciler and steps :: "(env \<times> gotime) list" and s :: "(sveltos_cluster, call) st"
  assumes "PullMode (Spec (obj s))" "Ready (Status (obj s))" "HasEventRecorder r"
    and "ConnectionFailures (Status (obj s)) = 0" "ConnectionStatus (Status (obj s)) \<noteq> ConnectionDown"
    and "int (length steps) < 2 ^ 63"
  defines "s' \<equiv> run_steps (pull_step r) steps s"
    and "k \<equiv> trailing (map failing (trace (pull_step r) steps s))"
  shows "ConnectionFailures (Status (obj s')) = int k \<and>
    (ConnectionStatus (Status (obj s')) = ConnectionDown \<longleftrightarrow>
       1 \<le> k \<and> ConsecutiveFailureThreshold (Spec (obj s)) \<le> int k) \<and>
    event_count s' = event_count s +
      changes (\<lambda>t. ConnectionStatus (Status (obj t)) = ConnectionDown) (s # trace (pull_step r) steps s) \<and>
    ((\<forall>h. 10 * Minute < clock E h - report) \<longrightarrow> failing (pull_step r (E, report) s'))"
proof -
  have inv: "pull_ready s \<and> HasEventRecorder r" using assms(1-3) by simp
  have ok: "list_all (\<lambda>_. True) steps" by (simp add: list_all_iff)
  have "pull_ready s'" using pull.run_inv [OF ok inv] by (simp add: s'_def)
  then have "(\<forall>h. 10 * Minute < clock E h - report) \<longrightarrow> failing (pull_step r (E, report) s')"
    using pull_step_parts(5) by blast
  then show ?thesis
    using pull.run_down_iff [OF ok inv] pull.run_events [OF ok inv] assms(4-6)
    by (simp add: s'_def k_def conn_abs_def)
qed

section \<open>Ready\<close>

lemma mark_ready_status:
  "Ready (Status (obj (final (mark_ready E v) s)))" "Version (Status (obj (final (mark_ready E v) s))) = v"
  "FailureMessage (Status (obj (final (mark_ready E v) s))) = FailureMessage (Status (obj s))"
proof -
  let ?m = "do {
     (case semver_NewVersion E v of
        Inl _ \<Rightarrow> skip
      | Inr w \<Rightarrow> do {
          SetLabel versionLabel (kubernetes_version w);
          c \<leftarrow> gets (\<lambda>c. c);
          updateKubernetesVersionMetric (ClusterTypeSveltos E) (Namespace c) (Name c) (kubernetes_version w)
        });
     mod_status (Version_update (\<lambda>_. v)) }"
  let ?s = "final (mod_status (Ready_update (\<lambda>_. True))) s"
  have "keeps (\<lambda>s. (Ready (Status (obj s)), FailureMessage (Status (obj s)))) ?m"
    by (intro keeps_rules) simp_all
  then have k: "(Ready (Status (obj (final ?m ?s))), FailureMessage (Status (obj (final ?m ?s)))) =
      (Ready (Status (obj ?s)), FailureMessage (Status (obj ?s)))" by (rule keepsD)
  have f: "final (mark_ready E v) s = final ?m ?s"
    by (simp add: mark_ready_def run_bind_pair del: run_state_bind)
  show "Ready (Status (obj (final (mark_ready E v) s)))"
    "FailureMessage (Status (obj (final (mark_ready E v) s))) = FailureMessage (Status (obj s))"
    unfolding f using k by simp_all
  show "Version (Status (obj (final (mark_ready E v) s))) = v"
    by (simp add: mark_ready_def run_bind_pair del: run_state_bind)
qed

lemma obj_reconciler_runChecks [simp]: "obj (final (reconciler_runChecks E cfg) s) = obj s"
  using keepsD [OF keeps_reconciler_runChecks [where view = "\<lambda>x. x"]] .

text \<open>What the checks leave, by their outcome.\<close>

lemma push_checks_status:
  fixes E cfg v and s :: "(sveltos_cluster, call) st"
  defines "c' \<equiv> obj (final (push_checks E cfg v) s)"
  shows "result (reconciler_runChecks E cfg) s = Ret () \<Longrightarrow>
      Ready (Status c') \<and> Version (Status c') = v \<and> FailureMessage (Status c') = FailureMessage (Status (obj s))"
    and "result (reconciler_runChecks E cfg) s = Fail e \<Longrightarrow>
      c' = (obj s)\<lparr>Status := (Status (obj s))\<lparr>FailureMessage := Some (Error e)\<rparr>\<rparr>"
    and "result (reconciler_runChecks E cfg) s = Panic m \<Longrightarrow> c' = obj s"
  by (simp_all add: c'_def push_checks_def run_bind_pair mark_ready_status del: run_state_bind)

lemma keeps_push_renewal_Ready: "keeps (\<lambda>s. Ready (Status (obj s))) (push_renewal E cfg)"
  by (rule keeps_push_renewal) simp_all

text \<open>
  Between two histories of calls the readiness checks of a cluster were evaluated, all of them,
  with the outcome that they pass, while the cluster was not ready.
\<close>

definition checks_passed :: "env \<Rightarrow> rest_config \<Rightarrow> sveltos_cluster \<Rightarrow> call list \<Rightarrow> call list \<Rightarrow> bool" where
  "checks_passed E cfg c h0 h1 \<longleftrightarrow>
     (\<exists>(t :: (sveltos_cluster, call) st) cs post. calls t = h0 @ cs \<and> \<not> Ready (Status (obj t)) \<and>
        result (runChecks E cfg (elems (ReadinessChecks (Spec c)))) t = Ret () \<and>
        h1 = calls (final (runChecks E cfg (elems (ReadinessChecks (Spec c)))) t) @ post)"

lemma checks_passed_append: "checks_passed E cfg c h0 h1 \<Longrightarrow> checks_passed E cfg c h0 (h1 @ cs)"
  unfolding checks_passed_def by (metis append.assoc)

lemma only_calls_push_renewal: "only_calls token_call (push_renewal E cfg)"
  unfolding push_renewal_def
  by (intro calls_rules only_calls_shouldRenew only_calls_handleTokenRequestRenewal)

lemma probe_version_Ready:
  assumes "Ready (Status (obj (final (probe_version E cfg) s)))" "\<not> Ready (Status (obj s))"
  shows "\<exists>v. GetKubernetesVersion E (calls s) cfg = Inr v \<and>
    checks_passed E cfg (obj s) (calls s @ [Call_GetKubernetesVersion cfg]) (calls (final (probe_version E cfg) s)) \<and>
    Version (Status (obj (final (probe_version E cfg) s))) = v"
proof -
  let ?s1 = "s\<lparr>calls := calls s @ [Call_GetKubernetesVersion cfg]\<rparr>"
  let ?rc = "elems (ReadinessChecks (Spec (obj s)))"
  obtain v where v: "GetKubernetesVersion E (calls s) cfg = Inr v"
    using assms by (auto simp: probe_version_def run_bind_pair simp del: run_state_bind split: sum.splits)
  let ?t = "final (push_renewal E cfg) ?s1"
  have fin: "final (probe_version E cfg) s = final (push_checks E cfg v) ?t"
    by (simp add: probe_version_def run_bind_pair v del: run_state_bind)
  have t: "\<not> Ready (Status (obj ?t))"
    using keepsD [OF keeps_push_renewal_Ready, of E cfg ?s1] assms(2) by simp
  have "keeps (\<lambda>s. ReadinessChecks (Spec (obj s))) (push_renewal E cfg)"
    by (rule keeps_push_renewal) (simp_all add: renewal_frame_def)
  then have rc: "ReadinessChecks (Spec (obj ?t)) = ReadinessChecks (Spec (obj s))" using keepsD by fastforce
  have chk: "run_state (reconciler_runChecks E cfg) ?t = run_state (runChecks E cfg ?rc) ?t"
    using t rc by (simp add: reconciler_runChecks_def)
  have ret: "result (reconciler_runChecks E cfg) ?t = Ret ()"
    using assms(1) t unfolding fin
    by (cases "result (reconciler_runChecks E cfg) ?t") (simp_all add: push_checks_status)
  let ?u = "final (runChecks E cfg ?rc) ?t"
  have "final (push_checks E cfg v) ?t = final (mark_ready E v) ?u"
    using ret by (simp add: push_checks_def run_bind_pair chk del: run_state_bind)
  moreover obtain post where "calls (final (mark_ready E v) ?u) = calls ?u @ post"
    using only_callsD [OF only_calls_mark_ready] by blast
  moreover obtain cs where "calls ?t = (calls s @ [Call_GetKubernetesVersion cfg]) @ cs"
    using only_callsD [OF only_calls_push_renewal, of E cfg ?s1] by auto
  ultimately have "checks_passed E cfg (obj s) (calls s @ [Call_GetKubernetesVersion cfg]) (calls (final (probe_version E cfg) s))"
    unfolding checks_passed_def fin using t ret chk by (intro exI [of _ ?t] exI [of _ cs] exI [of _ post]) simp
  with v ret push_checks_status(1) [OF ret] show ?thesis unfolding fin by blast
qed

lemma probe_version_keeps_Ready:
  "Ready (Status (obj s)) \<Longrightarrow> Ready (Status (obj (final (probe_version E cfg) s)))"
proof (cases "GetKubernetesVersion E (calls s) cfg")
  case (Inr v)
  let ?t = "final (push_renewal E cfg) (s\<lparr>calls := calls s @ [Call_GetKubernetesVersion cfg]\<rparr>)"
  assume "Ready (Status (obj s))"
  then have "Ready (Status (obj ?t))"
    using keepsD [OF keeps_push_renewal_Ready, of E cfg "s\<lparr>calls := calls s @ [Call_GetKubernetesVersion cfg]\<rparr>"] by simp
  then show ?thesis
    using push_checks_status(1) [where E = E and cfg = cfg and s = ?t and v = v]
      push_checks_status(2) [where E = E and cfg = cfg and s = ?t and v = v]
      push_checks_status(3) [where E = E and cfg = cfg and s = ?t and v = v]
    by (cases "result (reconciler_runChecks E cfg) ?t")
      (simp_all add: probe_version_def run_bind_pair Inr del: run_state_bind)
qed (simp add: probe_version_def run_bind_pair del: run_state_bind)

lemma keeps_updateConnectionStatus_Ready:
  "keeps (\<lambda>s. (Ready (Status (obj s)), Version (Status (obj s)))) (updateConnectionStatus E r)"
  by (rule keeps_updateConnectionStatus) (simp add: conn_frame_def)

lemma Ready_updateConnectionStatus [simp]:
  "Ready (Status (obj (final (updateConnectionStatus E r) s))) = Ready (Status (obj s))"
  "Version (Status (obj (final (updateConnectionStatus E r) s))) = Version (Status (obj s))"
  using keepsD [OF keeps_updateConnectionStatus_Ready, of E r s] by simp_all

text \<open>The push branch, by the answer for the configuration and the outcome of the probe.\<close>

lemma run_reconcile_push:
  fixes E r s
  defines "ns \<equiv> Namespace (obj s)" and "n \<equiv> Name (obj s)"
  defines "s1 \<equiv> s\<lparr>calls := calls s @ [Call_GetRestConfig ns n]\<rparr>"
  defines "s2 \<equiv> final (set_failure None) s1"
  shows "GetSveltosKubernetesRestConfig E (calls s) ns n = Inl e \<Longrightarrow>
      run_state (reconcile_push E r) s = (Ret (), final (updateConnectionStatus E r) (final (set_failure (Some (Error e))) s1))"
    and "GetSveltosKubernetesRestConfig E (calls s) ns n = Inr cfg \<Longrightarrow> result (probe_version E cfg) s2 = Ret a \<Longrightarrow>
      run_state (reconcile_push E r) s =
        (Ret (), final (connection_metrics E) (final (updateConnectionStatus E r) (final (probe_version E cfg) s2)))"
    and "GetSveltosKubernetesRestConfig E (calls s) ns n = Inr cfg \<Longrightarrow> result (probe_version E cfg) s2 = Panic m \<Longrightarrow>
      run_state (reconcile_push E r) s = (Panic m, final (probe_version E cfg) s2)"
    and "GetSveltosKubernetesRestConfig E (calls s) ns n = Inr cfg \<Longrightarrow> result (probe_version E cfg) s2 = Fail f \<Longrightarrow>
      run_state (reconcile_push E r) s = (Fail f, final (probe_version E cfg) s2)"
  by (simp_all add: reconcile_push_def run_bind_pair ns_def n_def s1_def s2_def del: run_state_bind)

lemma reconcile_push_Ready:
  "Ready (Status (obj s)) \<Longrightarrow> Ready (Status (obj (final (reconcile_push E r) s)))"
  "Ready (Status (obj (final (reconcile_push E r) s))) \<Longrightarrow> \<not> Ready (Status (obj s)) \<Longrightarrow>
    \<exists>cfg v. GetSveltosKubernetesRestConfig E (calls s) (Namespace (obj s)) (Name (obj s)) = Inr cfg \<and>
      GetKubernetesVersion E (calls s @ [Call_GetRestConfig (Namespace (obj s)) (Name (obj s))]) cfg = Inr v \<and>
      checks_passed E cfg (obj s) (calls s @ [Call_GetRestConfig (Namespace (obj s)) (Name (obj s)), Call_GetKubernetesVersion cfg])
        (calls (final (reconcile_push E r) s)) \<and>
      Version (Status (obj (final (reconcile_push E r) s))) = v"
proof -
  let ?s1 = "s\<lparr>calls := calls s @ [Call_GetRestConfig (Namespace (obj s)) (Name (obj s))]\<rparr>"
  let ?s2 = "final (set_failure None) ?s1"
  let ?get = "GetSveltosKubernetesRestConfig E (calls s) (Namespace (obj s)) (Name (obj s))"
  have err: "Ready (Status (obj (final (reconcile_push E r) s))) = Ready (Status (obj s))" if "?get = Inl e" for e
    using run_reconcile_push(1) [OF that] by simp
  have fin: "Ready (Status (obj (final (reconcile_push E r) s))) = Ready (Status (obj (final (probe_version E cfg) ?s2))) \<and>
      Version (Status (obj (final (reconcile_push E r) s))) = Version (Status (obj (final (probe_version E cfg) ?s2)))"
    if "?get = Inr cfg" for cfg
    using run_reconcile_push(2-4) [where E = E and s = s and r = r, OF that]
    by (cases "result (probe_version E cfg) ?s2") simp_all
  show "Ready (Status (obj (final (reconcile_push E r) s)))" if "Ready (Status (obj s))"
  proof (cases ?get)
    case (Inr cfg)
    have "Ready (Status (obj (final (probe_version E cfg) ?s2)))"
      by (rule probe_version_keeps_Ready) (simp add: that)
    with fin [OF Inr] show ?thesis by simp
  qed (use err that in simp)
  assume a: "Ready (Status (obj (final (reconcile_push E r) s)))" "\<not> Ready (Status (obj s))"
  then obtain cfg where cfg: "?get = Inr cfg" using err by (cases ?get) auto
  have "Ready (Status (obj (final (probe_version E cfg) ?s2)))" "\<not> Ready (Status (obj ?s2))"
    using a fin [OF cfg] by simp_all
  from probe_version_Ready [OF this] obtain v where v: "GetKubernetesVersion E (calls ?s2) cfg = Inr v"
    "checks_passed E cfg (obj ?s2) (calls ?s2 @ [Call_GetKubernetesVersion cfg]) (calls (final (probe_version E cfg) ?s2))"
    "Version (Status (obj (final (probe_version E cfg) ?s2))) = v" by blast
  obtain post where "calls (final (reconcile_push E r) s) = calls (final (probe_version E cfg) ?s2) @ post"
  proof (cases "result (probe_version E cfg) ?s2")
    case (Ret u)
    let ?p = "final (probe_version E cfg) ?s2"
    obtain es gs where "calls (final (updateConnectionStatus E r) ?p) = calls ?p @ es"
      "calls (final (connection_metrics E) (final (updateConnectionStatus E r) ?p)) =
        calls (final (updateConnectionStatus E r) ?p) @ gs"
      using only_callsD [OF only_calls_updateConnectionStatus] only_callsD [OF only_calls_connection_metrics] by metis
    then show ?thesis using run_reconcile_push(2) [OF cfg Ret, of r] by (intro that [of "es @ gs"]) simp
  qed (use run_reconcile_push(3,4) [OF cfg] in \<open>intro that [of "[]"]; simp\<close>)+
  moreover have "checks_passed E cfg (obj s) h0 h1 = checks_passed E cfg (obj ?s2) h0 h1" for h0 h1
    by (simp add: checks_passed_def)
  ultimately show "\<exists>cfg v. ?get = Inr cfg \<and>
      GetKubernetesVersion E (calls s @ [Call_GetRestConfig (Namespace (obj s)) (Name (obj s))]) cfg = Inr v \<and>
      checks_passed E cfg (obj s) (calls s @ [Call_GetRestConfig (Namespace (obj s)) (Name (obj s)), Call_GetKubernetesVersion cfg])
        (calls (final (reconcile_push E r) s)) \<and>
      Version (Status (obj (final (reconcile_push E r) s))) = v"
    using v fin [OF cfg] checks_passed_append [OF v(2)] cfg by simp
qed

text \<open>
  C9: a cluster becomes ready only in a push-mode reconciliation in which its configuration was
  found, its API server then reported a version, and after that all of its readiness checks were
  evaluated, while it was not ready, and passed; that version is then in its status. A pull-mode
  reconciliation never makes a cluster ready.
\<close>

theorem ready_only_after_checks:
  fixes E :: env and r :: reconciler and s :: "(sveltos_cluster, call) st"
  defines "c \<equiv> obj s" and "s' \<equiv> final (reconcileNormal E r) s"
  assumes "Ready (Status (obj s'))" "\<not> Ready (Status c)"
  shows "\<not> PullMode (Spec c) \<and>
    (\<exists>cfg v. GetSveltosKubernetesRestConfig E (calls s @ [Call_Now]) (Namespace c) (Name c) = Inr cfg \<and>
      GetKubernetesVersion E (calls s @ [Call_Now, Call_GetRestConfig (Namespace c) (Name c)]) cfg = Inr v \<and>
      checks_passed E cfg c
        (calls s @ [Call_Now, Call_GetRestConfig (Namespace c) (Name c), Call_GetKubernetesVersion cfg]) (calls s') \<and>
      Version (Status (obj s')) = v)"
proof -
  let ?s1 = "s\<lparr>obj := update_finalizer E c, calls := calls s @ [Call_Now]\<rparr>"
  have u: "PullMode (Spec (update_finalizer E c)) = PullMode (Spec c)"
    "Status (update_finalizer E c) = Status c" "Namespace (update_finalizer E c) = Namespace c"
    "Name (update_finalizer E c) = Name c"
    "ReadinessChecks (Spec (update_finalizer E c)) = ReadinessChecks (Spec c)"
    by (simp_all add: update_finalizer_def)
  have body: "Ready (Status (obj (final (reconcile_body E r) ?s1)))" "\<not> Ready (Status (obj ?s1))"
    using assms(3,4) u by (simp_all add: s'_def c_def run_reconcileNormal handle_keeps)
  have push: "\<not> PullMode (Spec c)"
    using body keepsD [OF keeps_reconcilePullModeCluster_Ready, of E r ?s1]
    by (auto simp: reconcile_body_def run_bind_pair u simp del: run_state_bind)
  then have fin: "final (reconcile_body E r) ?s1 = final (reconcile_push E r) ?s1"
    by (simp add: reconcile_body_def run_bind_pair u del: run_state_bind)
  have s': "calls s' = calls (final (reconcile_push E r) ?s1)"
    "Version (Status (obj s')) = Version (Status (obj (final (reconcile_push E r) ?s1)))"
    using fin by (simp_all add: s'_def c_def run_reconcileNormal handle_keeps)
  have "checks_passed E cfg (update_finalizer E c) h0 h1 = checks_passed E cfg c h0 h1" for cfg h0 h1
    by (simp add: checks_passed_def u)
  with push reconcile_push_Ready(2) [OF body(1) [unfolded fin] body(2)] show ?thesis by (simp add: s' u)
qed

text \<open>No reconciliation takes a cluster that is ready back to not ready.\<close>

lemma ready_is_stable:
  assumes "Ready (Status (obj s))"
  shows "Ready (Status (obj (final (reconcileNormal E r) s)))"
proof -
  let ?s1 = "s\<lparr>obj := update_finalizer E (obj s), calls := calls s @ [Call_Now]\<rparr>"
  have "Ready (Status (obj ?s1))" using assms by (simp add: update_finalizer_def)
  then have "Ready (Status (obj (final (reconcile_body E r) ?s1)))"
    using keepsD [OF keeps_reconcilePullModeCluster_Ready, of E r ?s1] reconcile_push_Ready(1) [of ?s1 E r]
    by (simp add: reconcile_body_def run_bind_pair del: run_state_bind)
  then show ?thesis by (simp add: run_reconcileNormal handle_keeps)
qed

section \<open>The gauges and the status\<close>

lemma registry_gauge_free:
  assumes "registry_laws val" "only_calls (\<lambda>c. \<not> gauge_call c) m"
  shows "val (calls (final m s)) = val (calls s)"
  using only_callsD [OF assms(2), of s] registry_only_calls [OF assms(1)] by fastforce

lemma connection_metrics_values:
  assumes "registry_laws val"
  shows "val (calls (final (connection_metrics E) s)) clusterConnectivityGauge
      (cluster_labels (ClusterTypeSveltos E) (Namespace (obj s)) (Name (obj s))) =
        Some (if ConnectionStatus (Status (obj s)) = ConnectionHealthy then 0 else 1) \<and>
    val (calls (final (connection_metrics E) s)) connectionFailuresGauge
      (cluster_labels (ClusterTypeSveltos E) (Namespace (obj s)) (Name (obj s))) =
        Some (fl64 (of_int (ConnectionFailures (Status (obj s)))))"
  by (simp add: connection_metrics_def updateClusterConnectionStatusMetric_def updateConnectionFailuresMetric_def
      gauge_defs Let_def registry_fold [OF assms] StatusHealthy_def StatusDisconnected_def)

text \<open>
  C30: when the configuration of a push-mode cluster is found and no library constructor panics, the
  reconciliation leaves the connectivity gauge and the failure gauge of the cluster at the values of
  its new status.
\<close>

theorem gauges_follow_status:
  fixes r :: reconciler and s :: "(sveltos_cluster, call) st"
  assumes "registry_laws val" "no_panic E"
    and "GetSveltosKubernetesRestConfig E (calls s) (Namespace (obj s)) (Name (obj s)) = Inr cfg"
  defines "s' \<equiv> final (reconcile_push E r) s"
    and "l \<equiv> cluster_labels (ClusterTypeSveltos E) (Namespace (obj s)) (Name (obj s))"
  shows "val (calls s') clusterConnectivityGauge l =
      Some (if ConnectionStatus (Status (obj s')) = ConnectionHealthy then 0 else 1) \<and>
    val (calls s') connectionFailuresGauge l = Some (fl64 (of_int (ConnectionFailures (Status (obj s')))))"
proof -
  let ?s1 = "s\<lparr>calls := calls s @ [Call_GetRestConfig (Namespace (obj s)) (Name (obj s))]\<rparr>"
  let ?s2 = "final (set_failure None) ?s1"
  obtain a where a: "result (probe_version E cfg) ?s2 = Ret a"
    using probe_version_Ret [OF assms(2), of cfg ?s2] by (auto simp: is_Ret_iff)
  let ?t = "final (updateConnectionStatus E r) (final (probe_version E cfg) ?s2)"
  have run: "s' = final (connection_metrics E) ?t"
    using run_reconcile_push(2) [OF assms(3) a] by (simp add: s'_def)
  have st: "steady (obj s') = steady (obj s)"
    using keepsD [OF keeps_reconcile_push_steady] by (simp add: s'_def)
  have "Namespace (obj s') = Namespace (obj s)" "Name (obj s') = Name (obj s)"
    using st unfolding steady_def by blast+
  then have id: "Namespace (obj ?t) = Namespace (obj s)" "Name (obj ?t) = Name (obj s)" by (simp_all add: run)
  show ?thesis using connection_metrics_values [OF assms(1), of E ?t] unfolding run l_def id by simp
qed

text \<open>
  C31: when the configuration is not found, the reconciliation counts the failure and may take
  the cluster down, but no gauge of any cluster changes: the connectivity gauge keeps telling
  the status from before.
\<close>

theorem gauges_stale_without_config:
  assumes "registry_laws val"
    and "GetSveltosKubernetesRestConfig E (calls s) (Namespace (obj s)) (Name (obj s)) = Inl e"
  shows "val (calls (final (reconcile_push E r) s)) = val (calls s) \<and>
    conn_abs (obj (final (reconcile_push E r) s)) = conn_step (threshold_of s) True (conn_abs (obj s)) \<and>
    FailureMessage (Status (obj (final (reconcile_push E r) s))) = Some (Error e)"
proof -
  let ?s1 = "s\<lparr>calls := calls s @ [Call_GetRestConfig (Namespace (obj s)) (Name (obj s))]\<rparr>"
  let ?s2 = "final (set_failure (Some (Error e))) ?s1"
  have run: "final (reconcile_push E r) s = final (updateConnectionStatus E r) ?s2"
    using run_reconcile_push(1) [OF assms(2), of r] by simp
  have "only_calls (\<lambda>c. \<not> gauge_call c) (updateConnectionStatus E r)"
    by (rule only_calls_mono [OF only_calls_updateConnectionStatus]) (auto simp: event_call_def gauge_call_def split: call.splits)
  then have "val (calls (final (updateConnectionStatus E r) ?s2)) = val (calls ?s2)"
    by (rule registry_gauge_free [OF assms(1)])
  also have "val (calls ?s2) = val (calls s)"
    using registry_lawsD(4) [OF assms(1)] by (simp add: gauge_call_def)
  finally show ?thesis unfolding run by (simp add: conn_abs_updateConnectionStatus) (simp add: conn_abs_def)
qed

section \<open>A successful reconciliation\<close>

text \<open>
  C15: a push-mode reconciliation in which everything answers (the configuration and the
  version are found, the token renewal leaves no failure and the checks pass) makes the cluster
  healthy whatever its history: ready, no failure message, a failure count of zero, and the
  version it reported.
\<close>

theorem push_success_recovers:
  fixes E :: env and cfg :: rest_config and r :: reconciler and s :: "(sveltos_cluster, call) st"
  defines "s2 \<equiv> final (set_failure None) (s\<lparr>calls := calls s @ [Call_GetRestConfig (Namespace (obj s)) (Name (obj s))]\<rparr>)"
  defines "s3 \<equiv> final (push_renewal E cfg) (s2\<lparr>calls := calls s2 @ [Call_GetKubernetesVersion cfg]\<rparr>)"
  assumes "GetSveltosKubernetesRestConfig E (calls s) (Namespace (obj s)) (Name (obj s)) = Inr cfg"
    and "GetKubernetesVersion E (calls s2) cfg = Inr v"
    and "FailureMessage (Status (obj s3)) = None" "result (reconciler_runChecks E cfg) s3 = Ret ()"
  defines "st \<equiv> Status (obj (final (reconcile_push E r) s))"
  shows "Ready st \<and> FailureMessage st = None \<and> ConnectionStatus st = ConnectionHealthy \<and>
    ConnectionFailures st = 0 \<and> Version st = v"
proof -
  have probe: "run_state (probe_version E cfg) s2 = run_state (push_checks E cfg v) s3"
    using assms(4) by (simp add: probe_version_def run_bind_pair s3_def del: run_state_bind)
  obtain a where a: "result (probe_version E cfg) s2 = Ret a"
    using assms(6) by (simp add: probe push_checks_def run_bind_pair del: run_state_bind)
  let ?t = "final (push_checks E cfg v) s3"
  have t: "Ready (Status (obj ?t))" "Version (Status (obj ?t)) = v" "FailureMessage (Status (obj ?t)) = None"
    using push_checks_status(1) [OF assms(6)] assms(5) by auto
  have fin: "st = Status (obj (final (updateConnectionStatus E r) ?t))"
    using run_reconcile_push(2) [OF assms(3) a [unfolded s2_def], of r] probe
    by (simp add: st_def s2_def)
  have "conn_abs (obj (final (updateConnectionStatus E r) ?t)) = \<lparr>status_of = ConnectionHealthy, failures_of = 0\<rparr>"
    by (simp add: conn_abs_updateConnectionStatus t conn_step_def)
  then show ?thesis using t by (simp add: fin conn_abs_def)
qed

section \<open>Witnesses\<close>

lemma owned0: "owned env0 reconciler0 ''ns'' ''c1'' cluster0 st0"
  by (simp add: owned_def sample_defs)

theorem Reconcile_patches_once_witness:
  "length (filter patch_call (calls (final (Reconcile env0 reconciler0 ''ns'' ''c1'') st0))) = 1"
proof -
  obtain cs c' where "calls (final (Reconcile env0 reconciler0 ''ns'' ''c1'') st0) = calls st0 @ cs @ [Call_Patch c']"
    "list_all (\<lambda>c. \<not> patch_call c) cs"
    using Reconcile_patches_once [OF owned0] by blast
  then show ?thesis by (simp add: st0_def patch_call_def list_all_iff)
qed

theorem Reconcile_other_shard_witness:
  "result (Reconcile (env0\<lparr>IsShardAMatch := (\<lambda>_ _. False)\<rparr>) reconciler0 ''ns'' ''c1'') st0 = requeue 0"
  using Reconcile_other_shard [of "env0\<lparr>IsShardAMatch := (\<lambda>_ _. False)\<rparr>" st0 "''ns''" "''c1''" cluster0 cluster0 reconciler0]
  by (simp add: sample_defs)

definition deleting_cluster :: sveltos_cluster where
  "deleting_cluster = cluster0\<lparr>Finalizers := [''sveltoscluster-finalizer''], DeletionTimestamp := Some 0,
     Spec := spec0\<lparr>CleanupGracePeriod := Some (5 * Minute)\<rparr>\<rparr>"

definition deleting_st :: "(sveltos_cluster, call) st" where
  "deleting_st = \<lparr>obj = deleting_cluster, calls = []\<rparr>"

theorem reconcileDelete_cleans_up_witness:
  "Finalizers (obj (final (reconcileDelete (env0\<lparr>clock := (\<lambda>_. 6 * Minute)\<rparr>)) deleting_st)) = []"
  using reconcileDelete_cleans_up [of replay deleting_st 0 "env0\<lparr>clock := (\<lambda>_. 6 * Minute)\<rparr>"
      clusterConnectivityGauge "''a''" "''b''" "''v1''", OF registry_laws_replay]
  by (simp add: deleting_st_def deleting_cluster_def sample_defs)

lemma no_panic0: "no_panic env0" "no_panic (env0\<lparr>GetSveltosKubernetesRestConfig := x\<rparr>)"
  by (simp_all add: no_panic_def env0_def)

definition down_env :: env where
  "down_env = env0\<lparr>GetSveltosKubernetesRestConfig := (\<lambda>_ _ _. Inl (errorf ''no route to host''))\<rparr>"

lemma failing_down_env: "\<not> PullMode (Spec (obj s)) \<Longrightarrow> failing (push_step r down_env s)"
proof -
  assume push: "\<not> PullMode (Spec (obj s))"
  let ?s1 = "s\<lparr>obj := update_finalizer down_env (obj s), calls := calls s @ [Call_Now]\<rparr>"
  have u: "PullMode (Spec (update_finalizer down_env (obj s))) = PullMode (Spec (obj s))"
    by (simp add: update_finalizer_def)
  have "FailureMessage (Status (obj (final (reconcile_push down_env r) ?s1))) = Some ''no route to host''"
    using run_reconcile_push(1) [of down_env ?s1 "errorf ''no route to host''" r] by (simp add: down_env_def)
  then show ?thesis
    using push u by (simp add: push_step_def run_reconcileNormal reconcile_body_def run_bind_pair handle_keeps del: run_state_bind)
qed

theorem push_down_after_threshold_witness:
  "ConnectionStatus (Status (obj (run_steps (push_step reconciler0) [down_env, down_env, down_env] st0))) = ConnectionDown"
proof -
  have np: "no_panic down_env" by (simp add: down_env_def no_panic0)
  have push: "\<not> PullMode (Spec (obj st0))" by (simp add: sample_defs)
  have push': "\<not> PullMode (Spec (obj (push_step reconciler0 down_env s)))" if "\<not> PullMode (Spec (obj s))" for s
    using push_step_parts(1) [OF np that] .
  have "map failing (trace (push_step reconciler0) [down_env, down_env, down_env] st0) = [True, True, True]"
    using failing_down_env push push' by simp
  then show ?thesis
    using push_down_after_threshold [of "[down_env, down_env, down_env]" st0 reconciler0] np push
    by (simp add: trailing_def) (simp add: sample_defs)
qed

theorem push_one_event_per_transition_witness:
  "event_count (run_steps (push_step reconciler0) [env0, down_env] st0) =
    changes (\<lambda>t. ConnectionStatus (Status (obj t)) = ConnectionDown) (st0 # trace (push_step reconciler0) [env0, down_env] st0)"
proof -
  have "list_all no_panic [env0, down_env]" by (simp add: down_env_def no_panic0)
  from push_one_event_per_transition [OF this, of st0 reconciler0] show ?thesis
    by (simp add: sample_defs del: trace.simps)
qed

lemma env0_probe:
  "GetSveltosKubernetesRestConfig env0 h ns n = Inr config0" "GetKubernetesVersion env0 h cfg = Inr ''v1.31.2+k3s1''"
  by (simp_all add: env0_def)

lemma no_checks:
  "ReadinessChecks (Spec (obj s)) = None \<Longrightarrow> LivenessChecks (Spec (obj s)) = None \<Longrightarrow>
   run_state (reconciler_runChecks E cfg) s = (Ret (), s)"
  by (simp add: reconciler_runChecks_def)

theorem push_success_recovers_witness:
  "Ready (Status (obj (final (reconcile_push env0 reconciler0) (st0\<lparr>obj :=
     cluster0\<lparr>Status := status0\<lparr>ConnectionStatus := ConnectionDown, ConnectionFailures := 7\<rparr>\<rparr>\<rparr>))))"
  using push_success_recovers [of env0 "st0\<lparr>obj := cluster0\<lparr>Status := status0\<lparr>ConnectionStatus := ConnectionDown,
      ConnectionFailures := 7\<rparr>\<rparr>\<rparr>" config0 "''v1.31.2+k3s1''" reconciler0, OF env0_probe]
  by (simp add: no_renewal_option no_checks cluster0_def spec0_def)

theorem ready_only_after_checks_witness:
  "\<exists>v. GetKubernetesVersion env0 [Call_Now, Call_GetRestConfig ''ns'' ''c1''] config0 = Inr v \<and>
    Version (Status (obj (final (reconcileNormal env0 reconciler0) st0))) = v"
proof -
  let ?s1 = "st0\<lparr>obj := update_finalizer env0 (obj st0), calls := calls st0 @ [Call_Now]\<rparr>"
  let ?v = "''v1.31.2+k3s1''"
  have "Ready (Status (obj (final (reconcile_push env0 reconciler0) ?s1)))"
    using run_reconcile_push(2) [where E = env0 and s = ?s1 and cfg = config0 and r = reconciler0 and a = "()", OF env0_probe(1)]
    by (simp add: probe_version_def run_bind_pair env0_probe no_renewal_option no_checks push_checks_def mark_ready_status
        update_finalizer_def st0_def cluster0_def spec0_def del: run_state_bind)
  then have "Ready (Status (obj (final (reconcileNormal env0 reconciler0) st0)))"
    by (simp add: run_reconcileNormal reconcile_body_def run_bind_pair handle_keeps update_finalizer_def st0_def
        cluster0_def spec0_def del: run_state_bind)
  moreover have "\<not> Ready (Status (obj st0))" by (simp add: sample_defs)
  ultimately show ?thesis
    using ready_only_after_checks [of env0 reconciler0 st0] by (auto simp: env0_probe)
qed

theorem gauges_follow_status_witness:
  "replay (calls (final (reconcile_push env0 reconciler0) st0)) connectionFailuresGauge
     (cluster_labels ''Sveltos'' ''ns'' ''c1'') =
   Some (fl64 (of_int (ConnectionFailures (Status (obj (final (reconcile_push env0 reconciler0) st0))))))"
  using gauges_follow_status [where s = st0 and r = reconciler0, OF registry_laws_replay no_panic0(1) env0_probe(1)]
  by (simp add: st0_def cluster0_def env0_def)

theorem gauges_stale_without_config_witness:
  "replay (calls (final (reconcile_push down_env reconciler0) st0)) = replay (calls st0) \<and>
   ConnectionFailures (Status (obj (final (reconcile_push down_env reconciler0) st0))) = 1"
proof -
  have "GetSveltosKubernetesRestConfig down_env h ns n = Inl (errorf ''no route to host'')" for h ns n
    by (simp add: down_env_def)
  from gauges_stale_without_config [where s = st0 and r = reconciler0, OF registry_laws_replay this]
  have "replay (calls (final (reconcile_push down_env reconciler0) st0)) = replay (calls st0)"
    "conn_abs (obj (final (reconcile_push down_env reconciler0) st0)) = conn_step 3 True \<lparr>status_of = ConnectionHealthy, failures_of = 0\<rparr>"
    by (simp_all add: sample_defs conn_abs_def)
  then show ?thesis
    using wrap64_id [of 1] by (simp add: conn_abs_def conn_step_def is_int64_def)
qed

theorem own_patch_filtered_witness:
  "\<not> UpdateFunc (Some (obj st0)) (obj (final (reconcileNormal env0 reconciler0) st0))"
  by (rule own_patch_filtered)
    (simp_all add: sample_defs handleAutomaticPauseUnPause_def)

definition silent_step :: "env \<times> gotime" where
  "silent_step = (env0\<lparr>clock := (\<lambda>_. 11 * Minute)\<rparr>, 0)"

definition pull_ready_st :: "(sveltos_cluster, call) st" where
  "pull_ready_st = st0\<lparr>obj := cluster0\<lparr>Spec := spec0\<lparr>PullMode := True\<rparr>, Status := status0\<lparr>Ready := True\<rparr>\<rparr>\<rparr>"

theorem pull_down_after_threshold_witness:
  "ConnectionStatus (Status (obj (run_steps (pull_step reconciler0) [silent_step, silent_step, silent_step] pull_ready_st))) =
    ConnectionDown"
proof -
  have ready: "pull_ready pull_ready_st" by (simp add: pull_ready_st_def)
  have late: "failing (pull_step reconciler0 silent_step s)" if "pull_ready s" for s
    unfolding silent_step_def by (rule pull_step_parts(5) [OF that]) simp
  have stay: "pull_ready (pull_step reconciler0 silent_step s)" if "pull_ready s" for s
    unfolding silent_step_def by (rule pull_step_parts(1) [OF that])
  have "map failing (trace (pull_step reconciler0) [silent_step, silent_step, silent_step] pull_ready_st) = [True, True, True]"
    using late ready stay by simp
  then show ?thesis
    using pull_down_after_threshold [of pull_ready_st reconciler0 "[silent_step, silent_step, silent_step]" env0 0]
    by (simp add: trailing_def) (simp add: pull_ready_st_def sample_defs)
qed

end
