(* ===== verification/Lifecycle.thy ===== *)
theory Lifecycle
  imports Cluster_Controller
begin

text \<open>
  A SveltosCluster from one reconciliation to the next. \<open>Reconcile\<close> keeps no state of its own: it
  reads the object the API server stores, and its one patch stores the result. \<open>reconcile_stored\<close> is
  the stored object after such a reconciliation, and the relation \<open>lifecycle\<close> interleaves
  reconciliations with what others do to the object: edits of the spec and of the metadata, the
  reports of the agent, a request to delete it. What holds of every object reached this way is
  proved by induction over the relation.
\<close>

section \<open>One reconciliation of the stored object\<close>

definition api_env :: "env \<Rightarrow> sveltos_cluster \<Rightarrow> env" where
  "api_env E c = E\<lparr>client_GetSveltosCluster := (\<lambda>_ _ _. Inr c)\<rparr>"

definition reconcile_on :: "reconciler \<Rightarrow> env \<Rightarrow> sveltos_cluster \<Rightarrow> ctrl_result \<times> (sveltos_cluster, call) st" where
  "reconcile_on r E c = run_state (Reconcile (api_env E c) r (Namespace c) (Name c)) \<lparr>obj = c, calls = []\<rparr>"

text \<open>A patch that succeeds stores the object as it was closed, one that fails stores nothing.\<close>

definition reconcile_stored :: "reconciler \<Rightarrow> env \<Rightarrow> sveltos_cluster \<Rightarrow> sveltos_cluster" where
  "reconcile_stored r E c =
     (if ReconcileError (fst (reconcile_on r E c)) = None then obj (snd (reconcile_on r E c)) else c)"

abbreviation owned_on :: "reconciler \<Rightarrow> env \<Rightarrow> sveltos_cluster \<Rightarrow> bool" where
  "owned_on r E c \<equiv> owned (api_env E c) r (Namespace c) (Name c) c \<lparr>obj = c, calls = []\<rparr>"

abbreviation start_on :: "sveltos_cluster \<Rightarrow> (sveltos_cluster, call) st" where
  "start_on c \<equiv> fetched (Namespace c) (Name c) c \<lparr>obj = c, calls = []\<rparr>"

lemma obj_fetched [simp]: "obj (fetched ns n c s) = c"
  by (simp add: fetched_def)

lemma reconcile_on_owned:
  assumes "owned_on r E c"
  defines "u \<equiv> final (reconcile_cluster (api_env E c) r) (start_on c)"
  shows "obj (snd (reconcile_on r E c)) = obj u"
    and "ReconcileError (fst (reconcile_on r E c)) = helper_Patch E (calls u) (obj u)"
  unfolding reconcile_on_def run_Reconcile_owned [OF assms(1)] by (simp_all add: u_def api_env_def)

lemma reconcile_on_not_owned:
  assumes "\<not> owned_on r E c"
  shows "obj (snd (reconcile_on r E c)) = c"
  using assms
  by (auto simp: reconcile_on_def owned_def Reconcile_def api_env_def NewSveltosClusterScope_def
      isClusterAShardMatch_def split: option.splits sum.splits)

lemma reconcile_on_obj:
  obtains "obj (snd (reconcile_on r E c)) = c"
  | "obj (snd (reconcile_on r E c)) = obj (final (reconcile_cluster (api_env E c) r) (start_on c))"
proof (cases "owned_on r E c")
  case True
  from reconcile_on_owned(1) [OF this] show thesis by (rule that(2))
next
  case False
  from reconcile_on_not_owned [OF this] show thesis by (rule that(1))
qed

section \<open>What a reconciliation does to the connection\<close>

text \<open>The connection takes one step of the automaton, or none: a panic or a missing heartbeat.\<close>

definition conn_follows :: "sveltos_cluster \<Rightarrow> sveltos_cluster \<Rightarrow> bool" where
  "conn_follows c c' \<longleftrightarrow> conn_abs c' = conn_abs c \<or>
     (\<exists>failed. conn_abs c' = conn_step (ConsecutiveFailureThreshold (Spec c)) failed (conn_abs c))"

lemma conn_follows_same: "conn_abs c' = conn_abs c \<Longrightarrow> conn_follows c c'"
  by (simp add: conn_follows_def)

lemma conn_follows_step:
  "conn_abs c' = conn_step (ConsecutiveFailureThreshold (Spec c)) failed (conn_abs c) \<Longrightarrow> conn_follows c c'"
  by (auto simp: conn_follows_def)

lemma reconcile_push_panicked:
  assumes "\<not> is_Ret (result (reconcile_push E r) s)"
  shows "conn_abs (obj (final (reconcile_push E r) s)) = conn_abs (obj s)"
proof -
  let ?s2 = "final (set_failure None)
    (s\<lparr>calls := calls s @ [Call_GetRestConfig (Namespace (obj s)) (Name (obj s))]\<rparr>)"
  obtain cfg where cfg: "GetSveltosKubernetesRestConfig E (calls s) (Namespace (obj s)) (Name (obj s)) = Inr cfg"
    using assms run_reconcile_push(1) [where E = E and s = s and r = r]
    by (cases "GetSveltosKubernetesRestConfig E (calls s) (Namespace (obj s)) (Name (obj s))") auto
  then have "final (reconcile_push E r) s = final (probe_version E cfg) ?s2"
    using assms run_reconcile_push(2-4) [where E = E and s = s and r = r, OF cfg]
    by (cases "result (probe_version E cfg) ?s2") auto
  then show ?thesis
    using keepsD [OF keeps_probe_version_conn, of E cfg ?s2] by (simp add: conn_abs_def)
qed

lemma conn_follows_body: "conn_follows (obj s) (obj (final (reconcile_body E r) s))"
proof (cases "PullMode (Spec (obj s))")
  case True
  then have fin: "final (reconcile_body E r) s = final (reconcilePullModeCluster E r) s"
    by (simp add: reconcile_body_def run_bind_pair del: run_state_bind)
  show ?thesis
  proof (cases "Ready (Status (obj s)) \<and> AgentLastReportTime (Status (obj s)) \<noteq> None")
    case True
    then obtain t where "Ready (Status (obj s))" "AgentLastReportTime (Status (obj s)) = Some t" by auto
    from pull_with_heartbeat(1) [OF this] show ?thesis unfolding fin by (rule conn_follows_step)
  next
    case False
    then show ?thesis
      unfolding fin using pull_without_heartbeat [of s E r] by (intro conn_follows_same) auto
  qed
next
  case False
  then have fin: "final (reconcile_body E r) s = final (reconcile_push E r) s"
    by (simp add: reconcile_body_def run_bind_pair del: run_state_bind)
  show ?thesis
  proof (cases "is_Ret (result (reconcile_push E r) s)")
    case True
    from reconcile_push_conn(1) [OF this] show ?thesis unfolding fin by (rule conn_follows_step)
  next
    case False
    then show ?thesis unfolding fin by (intro conn_follows_same reconcile_push_panicked)
  qed
qed

section \<open>What a reconciliation does to the stored object\<close>

text \<open>The part of the effect that matters from one reconciliation to the next.\<close>

definition same_cluster :: "sveltos_cluster \<Rightarrow> sveltos_cluster \<Rightarrow> bool" where
  "same_cluster c c' \<longleftrightarrow> Namespace c' = Namespace c \<and> Name c' = Name c \<and> UID c' = UID c \<and>
     CreationTimestamp c' = CreationTimestamp c \<and>
     ConsecutiveFailureThreshold (Spec c') = ConsecutiveFailureThreshold (Spec c)"

definition reconcile_effect :: "sveltos_cluster \<Rightarrow> sveltos_cluster \<Rightarrow> bool" where
  "reconcile_effect c c' \<longleftrightarrow> same_cluster c c' \<and> conn_follows c c' \<and> (Ready (Status c) \<longrightarrow> Ready (Status c'))"

lemma same_cluster_refl [simp]: "same_cluster c c"
  by (simp add: same_cluster_def)

lemma same_cluster_trans: "same_cluster a b \<Longrightarrow> same_cluster b c \<Longrightarrow> same_cluster a c"
  by (simp add: same_cluster_def)

lemma same_cluster_steady: "steady c = steady c' \<Longrightarrow> same_cluster c c'"
  using steady_Spec(4) [of c c'] by (simp add: same_cluster_def steady_def)

lemma same_cluster_handle: "same_cluster c (handleAutomaticPauseUnPause E t c)"
  using arg_cong [OF pause_frame_handle [of E t c], of "\<lambda>c. (Namespace c, Name c, UID c, CreationTimestamp c)"]
  by (simp add: same_cluster_def handle_keeps pause_frame_def)

lemma conn_follows_frames:
  assumes "conn_follows c' d" "conn_abs c' = conn_abs c" "same_cluster c c'" "conn_abs d' = conn_abs d"
  shows "conn_follows c d'"
  using assms by (simp add: conn_follows_def same_cluster_def)

lemma reconcile_effect_normal: "reconcile_effect (obj s) (obj (final (reconcileNormal E r) s))"
proof -
  let ?s1 = "s\<lparr>obj := update_finalizer E (obj s), calls := calls s @ [Call_Now]\<rparr>"
  let ?s2 = "final (reconcile_body E r) ?s1"
  have u: "same_cluster (obj s) (obj ?s1)" "conn_abs (obj ?s1) = conn_abs (obj s)"
    by (simp_all add: update_finalizer_def same_cluster_def conn_abs_def)
  have fin: "obj (final (reconcileNormal E r) s) = handleAutomaticPauseUnPause E (clock E (calls s)) (obj ?s2)"
    by (simp add: run_reconcileNormal)
  have "same_cluster (obj ?s1) (obj ?s2)"
    by (rule same_cluster_steady [OF keepsD [OF keeps_reconcile_body_steady, symmetric]])
  then have "same_cluster (obj s) (obj (final (reconcileNormal E r) s))"
    unfolding fin by (rule same_cluster_trans [OF same_cluster_trans [OF u(1)] same_cluster_handle])
  moreover have "conn_follows (obj s) (obj (final (reconcileNormal E r) s))"
    unfolding fin by (rule conn_follows_frames [OF conn_follows_body u(2,1) handle_keeps(2)])
  ultimately show ?thesis using ready_is_stable [of s E r] by (simp add: reconcile_effect_def)
qed

lemma obj_reconcileDelete:
  "obj (final (reconcileDelete E) s) = obj s \<or>
   obj (final (reconcileDelete E) s) =
     (obj s)\<lparr>Finalizers := RemoveFinalizer E (Finalizers (obj s)) (SveltosClusterFinalizer E)\<rparr>"
  by (simp add: reconcileDelete_def finish_delete_def calls_deleteClusterMetrics time_Now_def split: option.split)

lemma reconcile_effect_delete: "reconcile_effect (obj s) (obj (final (reconcileDelete E) s))"
  using obj_reconcileDelete [of E s]
  by (auto simp: reconcile_effect_def same_cluster_def conn_follows_def conn_abs_def)

lemma reconcile_effect_refl: "reconcile_effect c c"
  by (simp add: reconcile_effect_def conn_follows_def)

lemma reconcile_effect_on: "reconcile_effect c (obj (snd (reconcile_on r E c)))"
proof (cases rule: reconcile_on_obj [of r E c])
  case 1
  then show ?thesis by (simp add: reconcile_effect_refl)
next
  case 2
  have "reconcile_effect (obj (start_on c)) (obj (final (reconcile_cluster (api_env E c) r) (start_on c)))"
    by (simp only: reconcile_cluster_def run_bind_pair run_gets fst_conv snd_conv run_state_return
        reconcile_effect_normal reconcile_effect_delete split: if_split) simp
  then show ?thesis unfolding 2 by simp
qed

section \<open>The life of a cluster\<close>

text \<open>
  \<open>lifecycle r c0 k T c\<close>: starting from the stored object \<open>c0\<close>, \<open>k\<close> reconciliations, each in
  an environment of its own, and any number of edits by others lead to the stored object \<open>c\<close>, and
  \<open>T\<close> holds the failure thresholds the spec has had on the way. The patch helper writes the
  metadata and spec and the status in two requests: a failing patch may have lost either half of
  the update, or all of it. Others may edit the spec and the metadata in any way, an agent may report
  the cluster ready and its time, and a deletion may be requested.
\<close>

abbreviation threshold_in :: "sveltos_cluster \<Rightarrow> int" where
  "threshold_in c \<equiv> ConsecutiveFailureThreshold (Spec c)"

inductive lifecycle :: "reconciler \<Rightarrow> sveltos_cluster \<Rightarrow> nat \<Rightarrow> int set \<Rightarrow> sveltos_cluster \<Rightarrow> bool"
  for r :: reconciler and c0 :: sveltos_cluster where
  created: "lifecycle r c0 0 {threshold_in c0} c0"
| reconciled: "lifecycle r c0 k T c \<Longrightarrow> lifecycle r c0 (Suc k) T (reconcile_stored r E c)"
| status_lost: "lifecycle r c0 k T c \<Longrightarrow> ReconcileError (fst (reconcile_on r E c)) \<noteq> None \<Longrightarrow>
    lifecycle r c0 (Suc k) T ((obj (snd (reconcile_on r E c)))\<lparr>Status := Status c\<rparr>)"
| only_status: "lifecycle r c0 k T c \<Longrightarrow> ReconcileError (fst (reconcile_on r E c)) \<noteq> None \<Longrightarrow>
    lifecycle r c0 (Suc k) T (c\<lparr>Status := Status (obj (snd (reconcile_on r E c)))\<rparr>)"
| spec_edited: "lifecycle r c0 k T c \<Longrightarrow>
    lifecycle r c0 k (insert (ConsecutiveFailureThreshold sp) T) (c\<lparr>Spec := sp\<rparr>)"
| metadata_edited: "lifecycle r c0 k T c \<Longrightarrow>
    lifecycle r c0 k T (c\<lparr>Labels := ls, Annotations := as, Finalizers := fs\<rparr>)"
| agent_reported: "lifecycle r c0 k T c \<Longrightarrow>
    lifecycle r c0 k T (c\<lparr>Status := (Status c)\<lparr>Ready := True, Version := v, AgentLastReportTime := Some t\<rparr>\<rparr>)"
| deletion_requested: "lifecycle r c0 k T c \<Longrightarrow> DeletionTimestamp c = None \<Longrightarrow>
    lifecycle r c0 k T (c\<lparr>DeletionTimestamp := Some t\<rparr>)"

definition conn_inv :: "int set \<Rightarrow> nat \<Rightarrow> conn \<Rightarrow> bool" where
  "conn_inv T k a \<longleftrightarrow> 0 \<le> failures_of a \<and> failures_of a \<le> int k \<and>
     (if status_of a = ConnectionDown then 1 \<le> failures_of a \<and> (\<exists>th\<in>T. th \<le> failures_of a)
      else failures_of a = 0 \<or> (\<exists>th\<in>T. failures_of a < th))"

lemma conn_inv_Suc: "conn_inv T k a \<Longrightarrow> conn_inv T (Suc k) a"
  by (simp add: conn_inv_def)

lemma conn_inv_insert: "conn_inv T k a \<Longrightarrow> conn_inv (insert th T) k a"
  by (auto simp: conn_inv_def split: if_splits)

lemma conn_inv_step:
  assumes "conn_inv T k a" "int (Suc k) < 2 ^ 63" "th \<in> T"
  shows "conn_inv T (Suc k) (conn_step th failed a)"
proof (cases failed)
  case True
  have w: "wrap64 (failures_of a + 1) = failures_of a + 1"
    using assms(1,2) by (intro wrap64_id) (simp add: conn_inv_def is_int64_def)
  have reached: "\<exists>th\<in>T. th \<le> failures_of a + 1" if down: "status_of a = ConnectionDown"
  proof -
    obtain th where "th \<in> T" "th \<le> failures_of a" using assms(1) down by (auto simp: conn_inv_def)
    then show ?thesis by (intro bexI [of _ th]) simp_all
  qed
  show ?thesis
    using True assms(1,3) w reached
    by (cases "th \<le> failures_of a + 1"; cases "status_of a = ConnectionDown")
      (auto simp: conn_inv_def conn_step_def Let_def not_le)
next
  case False
  then show ?thesis by (simp add: conn_inv_def conn_step_def)
qed

definition same_identity :: "sveltos_cluster \<Rightarrow> sveltos_cluster \<Rightarrow> bool" where
  "same_identity c c' \<longleftrightarrow> Namespace c' = Namespace c \<and> Name c' = Name c \<and> UID c' = UID c \<and>
     CreationTimestamp c' = CreationTimestamp c"

text \<open>The invariant of the relation, and what a reconciliation must do to preserve it.\<close>

definition life_inv :: "sveltos_cluster \<Rightarrow> nat \<Rightarrow> int set \<Rightarrow> sveltos_cluster \<Rightarrow> bool" where
  "life_inv c0 k T c \<longleftrightarrow> same_identity c0 c \<and> threshold_in c \<in> T \<and>
     (Ready (Status c0) \<longrightarrow> Ready (Status c)) \<and> conn_inv T k (conn_abs c)"

lemma life_inv_Suc: "life_inv c0 k T c \<Longrightarrow> life_inv c0 (Suc k) T c"
  by (simp add: life_inv_def conn_inv_Suc)

lemma life_inv_reconcile:
  assumes "life_inv c0 k T c" "int (Suc k) < 2 ^ 63"
  shows "life_inv c0 (Suc k) T (obj (snd (reconcile_on r E c)))"
proof -
  let ?c = "obj (snd (reconcile_on r E c))"
  have eff: "reconcile_effect c ?c" by (rule reconcile_effect_on)
  have "conn_inv T (Suc k) (conn_abs ?c)"
    using eff assms conn_inv_step [of T k "conn_abs c" "threshold_in c"]
    by (auto simp: life_inv_def reconcile_effect_def conn_follows_def conn_inv_Suc)
  then show ?thesis
    using eff assms(1) by (simp add: life_inv_def reconcile_effect_def same_cluster_def same_identity_def)
qed

lemma life_inv_halves:
  assumes "life_inv c0 k T c" "life_inv c0 k T c'"
  shows "life_inv c0 k T (c'\<lparr>Status := Status c\<rparr>)"
  using assms by (simp add: life_inv_def same_identity_def conn_abs_def)

lemma lifecycle_life_inv:
  assumes "lifecycle r c0 k T c" "conn_inv {threshold_in c0} 0 (conn_abs c0)" "int k < 2 ^ 63"
  shows "life_inv c0 k T c"
  using assms
proof (induction rule: lifecycle.induct)
  case (reconciled k T c E)
  then have "life_inv c0 k T c" by simp
  with life_inv_reconcile [OF this reconciled.prems(2)] show ?case
    by (simp add: reconcile_stored_def life_inv_Suc)
next
  case (status_lost k T c E)
  then have "life_inv c0 k T c" by simp
  with life_inv_reconcile [OF this status_lost.prems(2)] show ?case
    by (intro life_inv_halves) (simp_all add: life_inv_Suc)
next
  case (only_status k T c E)
  then have "life_inv c0 k T c" by simp
  with life_inv_reconcile [OF this only_status.prems(2)] show ?case
    by (intro life_inv_halves) (simp_all add: life_inv_Suc)
next
  case (spec_edited k T c sp)
  then have "life_inv c0 k T c" by simp
  moreover have "conn_abs (c\<lparr>Spec := sp\<rparr>) = conn_abs c" by (simp add: conn_abs_def)
  ultimately show ?case by (simp add: life_inv_def same_identity_def conn_inv_insert)
qed (simp_all add: life_inv_def same_identity_def conn_abs_def)

text \<open>
  C3: the whole life of a cluster that starts without failures and not down, over fewer than \<open>2^63\<close>
  reconciliations, in whatever order reconciliations in changing environments, patches that fail wholly or
  half, panics, edits of its metadata and of its spec (its failure threshold and its mode included),
  reports of an agent that it is ready, and a request to delete it come. While it is down, its failure
  count is at least one and has reached one of the thresholds its spec has had; while it is not, the
  count is zero or below one of them. So, as long as the threshold is not edited, it is down exactly
  when the count has reached the threshold (and is at least one). The count is never negative and at
  most the number of reconciliations, a cluster that was ready stays ready, and nothing changes its
  name, namespace, UID or creation time.
\<close>

theorem lifecycle_invariant:
  assumes "lifecycle r c0 k T c" "int k < 2 ^ 63"
    and "ConnectionFailures (Status c0) = 0" "ConnectionStatus (Status c0) \<noteq> ConnectionDown"
  shows "(ConnectionStatus (Status c) = ConnectionDown \<longrightarrow> 1 \<le> ConnectionFailures (Status c) \<and>
      (\<exists>th\<in>T. th \<le> ConnectionFailures (Status c))) \<and>
    (ConnectionStatus (Status c) \<noteq> ConnectionDown \<longrightarrow> ConnectionFailures (Status c) = 0 \<or>
      (\<exists>th\<in>T. ConnectionFailures (Status c) < th)) \<and>
    (T = {ConsecutiveFailureThreshold (Spec c0)} \<longrightarrow>
      (ConnectionStatus (Status c) = ConnectionDown \<longleftrightarrow> 1 \<le> ConnectionFailures (Status c) \<and>
        ConsecutiveFailureThreshold (Spec c) \<le> ConnectionFailures (Status c))) \<and>
    0 \<le> ConnectionFailures (Status c) \<and> ConnectionFailures (Status c) \<le> int k \<and>
    (Ready (Status c0) \<longrightarrow> Ready (Status c)) \<and>
    Namespace c = Namespace c0 \<and> Name c = Name c0 \<and> UID c = UID c0 \<and>
    CreationTimestamp c = CreationTimestamp c0"
proof -
  have "conn_inv {threshold_in c0} 0 (conn_abs c0)" using assms(3,4) by (simp add: conn_inv_def conn_abs_def)
  from lifecycle_life_inv [OF assms(1) this assms(2)] show ?thesis
    by (auto simp: life_inv_def conn_inv_def conn_abs_def same_identity_def split: if_splits)
qed

section \<open>A cluster that is being deleted\<close>

text \<open>What controller-runtime documents of its finalizer helpers, for the finalizer \<open>f\<close>.\<close>

definition finalizer_laws :: "env \<Rightarrow> string \<Rightarrow> bool" where
  "finalizer_laws E f \<longleftrightarrow> SveltosClusterFinalizer E = f \<and>
     (\<forall>fs. ContainsFinalizer E fs f = (f \<in> set fs) \<and> RemoveFinalizer E fs f = filter (\<lambda>g. g \<noteq> f) fs)"

definition without_finalizer :: "string \<Rightarrow> sveltos_cluster \<Rightarrow> sveltos_cluster" where
  "without_finalizer f c = c\<lparr>Finalizers := filter (\<lambda>g. g \<noteq> f) (Finalizers c)\<rparr>"

text \<open>
  A reconciliation releases a cluster that is being deleted when this shard owns it, the grace
  period is over at the time it reads, and its patch succeeds.
\<close>

definition grace_over :: "env \<Rightarrow> sveltos_cluster \<Rightarrow> call list \<Rightarrow> bool" where
  "grace_over E c h = (case CleanupGracePeriod (Spec c) of
     None \<Rightarrow> True | Some grace \<Rightarrow> deletion_deadline c grace \<le> clock E h)"

definition releases :: "reconciler \<Rightarrow> sveltos_cluster \<Rightarrow> env \<Rightarrow> bool" where
  "releases r c E \<longleftrightarrow> owned_on r E c \<and> grace_over E c (calls (start_on c)) \<and>
     ReconcileError (fst (reconcile_on r E c)) = None"

lemma reconcile_deleting:
  assumes "\<not> IsZero (DeletionTimestamp (obj s))"
  shows "final (reconcile_cluster E r) s = final (reconcileDelete E) s"
  using assms by (simp add: reconcile_cluster_def run_bind_pair del: run_state_bind)

lemma reconcile_stored_deleting:
  assumes "\<not> IsZero (DeletionTimestamp c)" "finalizer_laws E f"
  shows "reconcile_stored r E c = (if f \<in> set (Finalizers c) \<and> releases r c E then without_finalizer f c else c)"
proof (cases "owned_on r E c")
  case True
  have env: "ContainsFinalizer (api_env E c) = ContainsFinalizer E" "RemoveFinalizer (api_env E c) = RemoveFinalizer E"
    "SveltosClusterFinalizer (api_env E c) = f" "clock (api_env E c) = clock E"
    using assms(2) by (simp_all add: api_env_def finalizer_laws_def)
  have "obj (final (reconcile_cluster (api_env E c) r) (start_on c)) =
      (if f \<in> set (Finalizers c) \<and> grace_over E c (calls (start_on c)) then without_finalizer f c else c)"
    using assms(2) reconcile_deleting [of "start_on c"] assms(1)
    by (auto simp: reconcileDelete_def finish_delete_def calls_deleteClusterMetrics time_Now_def env grace_over_def
        finalizer_laws_def without_finalizer_def not_less split: option.split)
  then show ?thesis
    using True by (simp add: reconcile_stored_def reconcile_on_owned(1) releases_def)
next
  case False
  then show ?thesis
    by (simp add: reconcile_stored_def reconcile_on_not_owned releases_def)
qed

text \<open>
  C13: a cluster that is being deleted is released by the first reconciliation that finds its grace
  period over and whose patch succeeds, and by none before: along any run of reconciliations
  the stored object changes only there, by losing the finalizer (and keeping those of
  others), and the reconciliations after it change nothing any more.
\<close>

theorem deletion_run:
  assumes "\<not> IsZero (DeletionTimestamp c)" "f \<in> set (Finalizers c)"
    and "list_all (\<lambda>E. finalizer_laws E f) Es"
  shows "foldl (\<lambda>c E. reconcile_stored r E c) c Es =
    (if list_ex (releases r c) Es then without_finalizer f c else c)"
  using assms(3)
proof (induction Es rule: rev_induct)
  case (snoc E Es)
  then have "finalizer_laws E f" by simp
  moreover have "\<not> IsZero (DeletionTimestamp (without_finalizer f c))" "f \<notin> set (Finalizers (without_finalizer f c))"
    using assms(1) by (simp_all add: without_finalizer_def)
  ultimately show ?case
    using snoc assms(1,2) by (simp add: reconcile_stored_deleting)
qed simp

section \<open>Without a grace period nothing is cleaned up\<close>

text \<open>
  The metrics of a cluster that has no cleanup grace period outlive it. Its last normal
  reconciliation has removed the finalizer, so when its deletion is requested, reconciling it does nothing,
  whatever the environment answers then; and when it is gone by then, the reconciliation
  makes one read and ends. In both cases every gauge keeps the value it had, for this cluster and all
  others.
\<close>

lemma no_grace_period_no_cleanup:
  fixes E E' :: env and r :: reconciler and s :: "(sveltos_cluster, call) st" and t :: gotime
  defines "s1 \<equiv> final (reconcileNormal E r) s"
  assumes "finalizer_laws E f" "finalizer_laws E' f" "registry_laws val"
    and "CleanupGracePeriod (Spec (obj s)) = None"
    and "client_GetSveltosCluster E' (calls s1) ns n = Inl e" "IsNotFound e"
  defines "deleting \<equiv> s1\<lparr>obj := (obj s1)\<lparr>DeletionTimestamp := Some t\<rparr>\<rparr>"
  shows "run_state (reconcileDelete E') deleting = (0, deleting) \<and>
    run_state (Reconcile E' r ns n) s1 = (requeue 0, s1\<lparr>calls := calls s1 @ [Call_GetSveltosCluster ns n]\<rparr>) \<and>
    val (calls (final (reconcileDelete E') deleting)) = val (calls s1) \<and>
    val (calls (final (Reconcile E' r ns n) s1)) = val (calls s1)"
proof -
  have "Finalizers (obj s1) = filter (\<lambda>g. g \<noteq> f) (Finalizers (obj s))"
    using assms(2,5) by (simp add: s1_def finalizers_reconcileNormal finalizer_laws_def)
  then have "run_state (reconcileDelete E') deleting = (0, deleting)"
    using assms(3) by (intro reconcileDelete_unfinalized) (simp add: deleting_def finalizer_laws_def)
  moreover have "run_state (Reconcile E' r ns n) s1 = (requeue 0, s1\<lparr>calls := calls s1 @ [Call_GetSveltosCluster ns n]\<rparr>)"
    using assms(6,7) by (simp add: Reconcile_def)
  moreover have "val (calls s1 @ [Call_GetSveltosCluster ns n]) = val (calls s1)"
    using registry_lawsD(4) [OF assms(4)] by (simp add: gauge_call_def)
  ultimately show ?thesis by (simp add: deleting_def)
qed

section \<open>Witnesses\<close>

theorem lifecycle_invariant_witness:
  "ConnectionFailures (Status (reconcile_stored reconciler0 down_env
     (cluster0\<lparr>Spec := spec0\<lparr>ConsecutiveFailureThreshold := 2\<rparr>\<rparr>))) \<le> 1"
proof -
  have "lifecycle reconciler0 cluster0 (Suc 0) {2, 3}
      (reconcile_stored reconciler0 down_env (cluster0\<lparr>Spec := spec0\<lparr>ConsecutiveFailureThreshold := 2\<rparr>\<rparr>))"
    using reconciled [OF spec_edited [OF created [of reconciler0 cluster0], of "spec0\<lparr>ConsecutiveFailureThreshold := 2\<rparr>"]]
    by (simp add: sample_defs)
  from lifecycle_invariant [OF this] show ?thesis by (simp add: sample_defs)
qed

definition early_env :: env where "early_env = env0\<lparr>clock := (\<lambda>_. Minute)\<rparr>"
definition late_env :: env where "late_env = env0\<lparr>clock := (\<lambda>_. 6 * Minute)\<rparr>"

lemma releases_late: "releases reconciler0 deleting_cluster late_env"
proof -
  have owned: "owned_on reconciler0 late_env deleting_cluster"
    by (simp add: owned_def api_env_def late_env_def deleting_cluster_def sample_defs)
  have "helper_Patch (api_env late_env deleting_cluster) h c = None" for h c
    by (simp add: api_env_def late_env_def env0_def)
  then show ?thesis
    using owned reconcile_on_owned(2) [OF owned]
    by (simp add: releases_def grace_over_def late_env_def deleting_cluster_def deletion_deadline_def sample_defs)
qed

theorem deletion_run_witness:
  "Finalizers (foldl (\<lambda>c E. reconcile_stored reconciler0 E c) deleting_cluster [early_env, late_env, early_env]) = []"
proof -
  have "\<not> IsZero (DeletionTimestamp deleting_cluster)"
    "''sveltoscluster-finalizer'' \<in> set (Finalizers deleting_cluster)"
    "list_all (\<lambda>E. finalizer_laws E ''sveltoscluster-finalizer'') [early_env, late_env, early_env]"
    by (simp_all add: deleting_cluster_def IsZero_def zeroTime_def finalizer_laws_def early_env_def late_env_def env0_def)
  from deletion_run [OF this, of reconciler0] show ?thesis
    by (simp add: releases_late without_finalizer_def) (simp add: deleting_cluster_def)
qed

end
