(* ===== verification/License_Controller.thy ===== *)
theory License_Controller
  imports Ctrl Sample
begin

text \<open>
  \<open>controllers/sveltoslicense_controller.go\<close>: the status of the SveltosLicense named
  \<open>default\<close> follows the verification of the license Secret, and it is looked at again when
  the license expires.
\<close>

section \<open>Validation\<close>

abbreviation upd_license_status ::
    "(license_status \<Rightarrow> license_status) \<Rightarrow> sveltos_license \<Rightarrow> sveltos_license" where
  "upd_license_status f l \<equiv> l\<lparr>LicenseStatus := f (LicenseStatus l)\<rparr>"

text \<open>The status for a verification that found a payload, in the order of the code's returns.\<close>

definition apply_verification :: "verification_result \<Rightarrow> license_payload \<Rightarrow> sveltos_license \<Rightarrow> sveltos_license" where
  "apply_verification res payload l =
     (let l = upd_license_status (\<lambda>st. st\<lparr>MaxClusters := Some (PayloadMaxClusters payload),
                 ExpirationDate := Some (PayloadExpirationDate payload)\<rparr>) l
      in if IsValid res then
           upd_license_status (\<lambda>st. st\<lparr>LicenseState := LicenseStatusValid, LicenseMessage := []\<rparr>) l
         else if \<not> IsEnforced res then
           upd_license_status (\<lambda>st. st\<lparr>LicenseState := LicenseStatusValid, LicenseMessage := ResultMessage res\<rparr>) l
         else if IsExpired res then
           upd_license_status (\<lambda>st. st\<lparr>LicenseState := LicenseStatusExpired,
             ExpirationDate := Some (PayloadExpirationDate payload), LicenseMessage := ResultMessage res\<rparr>) l
         else upd_license_status (\<lambda>st. st\<lparr>LicenseState := LicenseStatusInvalid, LicenseMessage := ResultMessage res\<rparr>) l)"

definition mark_invalid :: "sveltos_license \<Rightarrow> sveltos_license" where
  "mark_invalid = upd_license_status (\<lambda>st. st\<lparr>LicenseState := LicenseStatusInvalid\<rparr>)"

definition validateSveltosLicense :: "env \<Rightarrow> reconciler \<Rightarrow> (sveltos_license, license_payload option) act" where
  "validateSveltosLicense E r = do {
     publicKey \<leftarrow> external (GetPublicKey E) Call_GetPublicKey;
     case publicKey of
       Inl _ \<Rightarrow> do { modify mark_invalid; ret None }
     | Inr key \<Rightarrow> do {
         res \<leftarrow> external (\<lambda>h. VerifyLicenseSecret E h (SveltosNamespace r) key)
                 (Call_VerifyLicenseSecret (SveltosNamespace r) key);
         case Payload res of
           None \<Rightarrow> do { modify mark_invalid; ret None }
         | Some payload \<Rightarrow> do { modify (apply_verification res payload); ret (Some payload) }
       }
   }"

section \<open>Reconcile\<close>

definition next_validation :: "env \<Rightarrow> license_payload option \<Rightarrow> (sveltos_license, ctrl_result) act" where
  "next_validation E payload =
     (case payload of
        None \<Rightarrow> ret (requeue Minute)
      | Some p \<Rightarrow> do {
          timeUntilExpiration \<leftarrow> time_Until E (PayloadExpirationDate p);
          if timeUntilExpiration > 0 then ret (requeue timeUntilExpiration) else ret (requeue Minute)
        })"

definition license_Reconcile :: "env \<Rightarrow> reconciler \<Rightarrow> string \<Rightarrow> string \<Rightarrow> (sveltos_license, ctrl_result) act" where
  "license_Reconcile E r namespace name =
     (if name \<noteq> ''default'' then ret (requeue 0)
      else do {
        lic \<leftarrow> external (\<lambda>h. client_GetSveltosLicense E h namespace name) (Call_GetSveltosLicense namespace name);
        case lic of
          Inl e \<Rightarrow>
            if IsNotFound e then ret (requeue 0)
            else ret (reconcile_error (errors_Wrap e (''Failed to fetch sveltosLicense '' @ namespace @ ''/'' @ name)))
        | Inr l \<Rightarrow> do {
            modify (\<lambda>_. l);
            if \<not> IsZero (LicenseDeletionTimestamp l) then ret (requeue 0)
            else do {
              payload \<leftarrow> validateSveltosLicense E r;
              l \<leftarrow> gets (\<lambda>l. l);
              err \<leftarrow> external (\<lambda>h. client_StatusUpdate E h l) (Call_StatusUpdate l);
              case err of
                Some _ \<Rightarrow> ret (requeue normalRequeueAfter)
              | None \<Rightarrow> next_validation E payload
            }
          }
      })"

section \<open>What the status says\<close>

text \<open>The verdict on a license, as a function of the verification.\<close>

definition license_verdict :: "verification_result \<Rightarrow> license_state" where
  "license_verdict res =
     (case Payload res of
        None \<Rightarrow> LicenseStatusInvalid
      | Some _ \<Rightarrow>
          if IsValid res \<or> \<not> IsEnforced res then LicenseStatusValid
          else if IsExpired res then LicenseStatusExpired else LicenseStatusInvalid)"

text \<open>
  C37: when the public key is found, the state of the license is the verdict on the Secret: valid when a
  payload was extracted and the license is valid or in its grace period, expired when it is
  enforced and expired, invalid otherwise; with a payload the limits of the license are published, and
  without one the earlier ones stay.
\<close>

theorem validateSveltosLicense_verdict:
  fixes E :: env and r :: reconciler and s :: "(sveltos_license, call) st"
  assumes "GetPublicKey E (calls s) = Inr key"
  defines "res \<equiv> VerifyLicenseSecret E (calls s @ [Call_GetPublicKey]) (SveltosNamespace r) key"
    and "st \<equiv> LicenseStatus (obj (final (validateSveltosLicense E r) s))"
  shows "LicenseState st = license_verdict res \<and>
    result (validateSveltosLicense E r) s = Payload res \<and>
    MaxClusters st = (case Payload res of None \<Rightarrow> MaxClusters (LicenseStatus (obj s)) | Some p \<Rightarrow> Some (PayloadMaxClusters p)) \<and>
    ExpirationDate st = (case Payload res of None \<Rightarrow> ExpirationDate (LicenseStatus (obj s)) | Some p \<Rightarrow> Some (PayloadExpirationDate p)) \<and>
    (IsValid res \<and> Payload res \<noteq> None \<longrightarrow> LicenseMessage st = [])"
  using assms(1)
  by (cases "Payload res")
    (simp_all add: st_def res_def validateSveltosLicense_def license_verdict_def mark_invalid_def apply_verification_def Let_def)

text \<open>The state in which the validated license is written.\<close>

definition validated :: "env \<Rightarrow> reconciler \<Rightarrow> string \<Rightarrow> sveltos_license \<Rightarrow> (sveltos_license, call) st \<Rightarrow> (sveltos_license, call) st" where
  "validated E r ns l s = final (validateSveltosLicense E r)
     (s\<lparr>calls := calls s @ [Call_GetSveltosLicense ns ''default''], obj := l\<rparr>)"

definition extracted :: "env \<Rightarrow> reconciler \<Rightarrow> string \<Rightarrow> sveltos_license \<Rightarrow> (sveltos_license, call) st \<Rightarrow> license_payload option" where
  "extracted E r ns l s = result (validateSveltosLicense E r)
     (s\<lparr>calls := calls s @ [Call_GetSveltosLicense ns ''default''], obj := l\<rparr>)"

text \<open>A reconciliation of the managed license, after it was found.\<close>

lemma run_license_found:
  fixes E r ns l s
  defines "v \<equiv> validated E r ns l s"
  assumes "client_GetSveltosLicense E (calls s) ns ''default'' = Inr l" "IsZero (LicenseDeletionTimestamp l)"
  shows "run_state (license_Reconcile E r ns ''default'') s =
    (let s1 = v\<lparr>calls := calls v @ [Call_StatusUpdate (obj v)]\<rparr> in
     if client_StatusUpdate E (calls v) (obj v) \<noteq> None then (requeue normalRequeueAfter, s1)
     else run_state (next_validation E (extracted E r ns l s)) s1)"
  using assms(2,3)
  by (simp add: license_Reconcile_def run_bind_pair v_def validated_def extracted_def Let_def
      del: run_state_bind split: option.split)

lemma time_Sub_pos: "0 < time_Sub a b \<longleftrightarrow> b < a"
  by (simp add: time_Sub_def Let_def)

text \<open>
  Only the license named \<open>default\<close> is managed, and one being deleted is read but not written.
\<close>

lemma license_left_alone:
  assumes "name \<noteq> ''default'' \<or>
    client_GetSveltosLicense E (calls s) ns name = Inr l \<and> \<not> IsZero (LicenseDeletionTimestamp l)"
  shows "run_state (license_Reconcile E r ns name) s = (requeue 0,
    if name = ''default'' then s\<lparr>calls := calls s @ [Call_GetSveltosLicense ns name], obj := l\<rparr> else s)"
  using assms by (auto simp: license_Reconcile_def)

text \<open>
  C38: a reconciliation asks to be called again exactly when it is for the license named \<open>default\<close>, finds
  it and finds it not being deleted; and it ends with an error exactly when the license of that name
  could not be read for another reason than that there is none. The time to the next
  validation is ten seconds if the status could not be written, the time left until the payload expires
  (as far as a duration reaches) if that is in the future, and a minute otherwise.
\<close>

theorem license_requeued:
  fixes E :: env and r :: reconciler and s :: "(sveltos_license, call) st" and ns name :: string
  defines "res \<equiv> result (license_Reconcile E r ns name) s"
    and "found \<equiv> client_GetSveltosLicense E (calls s) ns name"
    and "v \<equiv> \<lambda>l. validated E r ns l s"
  shows "(0 < RequeueAfter res \<longleftrightarrow> name = ''default'' \<and> (\<exists>l. found = Inr l \<and> IsZero (LicenseDeletionTimestamp l))) \<and>
    (ReconcileError res \<noteq> None \<longleftrightarrow> name = ''default'' \<and> (\<exists>e. found = Inl e \<and> \<not> IsNotFound e)) \<and>
    (name = ''default'' \<and> found = Inr l \<and> IsZero (LicenseDeletionTimestamp l) \<longrightarrow>
      RequeueAfter res =
       (if client_StatusUpdate E (calls (v l)) (obj (v l)) \<noteq> None then 10 * Second
        else case extracted E r ns l s of
          None \<Rightarrow> Minute
        | Some p \<Rightarrow>
            (let now = clock E (calls (v l) @ [Call_StatusUpdate (obj (v l))])
             in if now < PayloadExpirationDate p then time_Sub (PayloadExpirationDate p) now else Minute)))"
proof (cases "name = ''default'' \<and> (\<exists>l. found = Inr l \<and> IsZero (LicenseDeletionTimestamp l))")
  case True
  then obtain l' where l': "name = ''default''" "found = Inr l'" "IsZero (LicenseDeletionTimestamp l')" by blast
  have res: "res = requeue (if client_StatusUpdate E (calls (v l')) (obj (v l')) \<noteq> None then 10 * Second
      else case extracted E r ns l' s of
        None \<Rightarrow> Minute
      | Some p \<Rightarrow>
          (let now = clock E (calls (v l') @ [Call_StatusUpdate (obj (v l'))])
           in if now < PayloadExpirationDate p then time_Sub (PayloadExpirationDate p) now else Minute))"
    using run_license_found [of E s ns l' r] l'
    by (cases "extracted E r ns l' s")
      (simp_all add: res_def found_def v_def next_validation_def time_Until_def time_Now_def normalRequeueAfter_def
        time_Sub_pos Let_def)
  show ?thesis
    using l' unfolding res by (cases "extracted E r ns l' s") (auto simp: time_Sub_pos Let_def)
next
  case False
  have "res = requeue 0 \<or> name = ''default'' \<and> (\<exists>e. found = Inl e \<and> \<not> IsNotFound e \<and> RequeueAfter res = 0 \<and> ReconcileError res \<noteq> None)"
    "res = requeue 0 \<longrightarrow> \<not> (name = ''default'' \<and> (\<exists>e. found = Inl e \<and> \<not> IsNotFound e))"
    using False by (auto simp: res_def found_def license_Reconcile_def requeue_def reconcile_error_def split: sum.splits)
  with False show ?thesis by auto
qed

section \<open>Witnesses\<close>

definition payload0 :: license_payload where
  "payload0 = \<lparr>PayloadMaxClusters = 50, PayloadExpirationDate = 3600 * Second\<rparr>"

definition expired_env :: env where
  "expired_env = env0\<lparr>VerifyLicenseSecret := (\<lambda>_ _ _. verification0\<lparr>Payload := Some payload0,
     IsEnforced := True, IsExpired := True, ResultMessage := ''license expired''\<rparr>)\<rparr>"

definition license_st :: "(sveltos_license, call) st" where
  "license_st = \<lparr>obj = license0, calls = []\<rparr>"

theorem validateSveltosLicense_verdict_witness:
  "LicenseState (LicenseStatus (obj (final (validateSveltosLicense expired_env reconciler0) license_st))) = LicenseStatusExpired"
  using validateSveltosLicense_verdict [of expired_env license_st "''key''" reconciler0]
  by (simp add: expired_env_def env0_def license_verdict_def verification0_def payload0_def)

theorem license_requeued_witness:
  "RequeueAfter (result (license_Reconcile expired_env reconciler0 [] ''default'') license_st) = 3596 * Second"
  using license_requeued [of expired_env reconciler0 "[]" "''default''" license_st license0]
  by (simp add: expired_env_def license_st_def sample_defs payload0_def IsZero_def validated_def extracted_def
      validateSveltosLicense_def is_int64_def)

end
