(* ===== verification/Manager.thy ===== *)
theory Manager
  imports World Predicates
begin

text \<open>
  \<open>cmd/main.go\<close> and \<open>controllers/utils.go\<close>: the flags with their defaults, the options of the
  diagnostics endpoint, what the two \<open>SetupWithManager\<close> functions of the controllers register,
  and the start of the process. \<open>main\<close> performs its steps in order and
  exits with status 1 at the first that fails, also when that happens inside \<open>GetConfigOrDie\<close>;
  parsing the flags, the signal handler and the log settings are library code with no branch in
  this repository.
\<close>

record manager_flags =
  diagnosticsAddress :: string
  insecureDiagnostics :: bool
  shardKey :: string
  concurrentReconciles :: int
  restConfigQPS :: rat
  restConfigBurst :: int
  webhookPort :: int
  syncPeriod :: duration
  healthAddr :: string

definition defaultReconcilers :: int where "defaultReconcilers = 10"

definition initFlags :: manager_flags where
  "initFlags = \<lparr>diagnosticsAddress = '':8443'', insecureDiagnostics = False, shardKey = [],
     concurrentReconciles = defaultReconcilers, restConfigQPS = 20, restConfigBurst = 30,
     webhookPort = 9443, syncPeriod = 10 * Minute, healthAddr = '':9440''\<rparr>"

record metrics_options =
  BindAddress :: string
  SecureServing :: bool
  WithAuthentication :: bool

definition getDiagnosticsOptions :: "manager_flags \<Rightarrow> metrics_options" where
  "getDiagnosticsOptions f =
     (if insecureDiagnostics f then
        \<lparr>BindAddress = diagnosticsAddress f, SecureServing = False, WithAuthentication = False\<rparr>
      else \<lparr>BindAddress = diagnosticsAddress f, SecureServing = True, WithAuthentication = True\<rparr>)"

record ctrl_options =
  OptMetrics :: metrics_options
  OptHealthProbeBindAddress :: string
  OptWebhookPort :: int
  OptSyncPeriod :: duration

text \<open>
  What the two \<open>SetupWithManager\<close> functions ask controller-runtime to build: the type whose events
  lead to a reconciliation, the filter on these events, the name of the controller and how many
  objects it may reconcile at the same time (each \<open>None\<close> leaves it to the library).
\<close>

datatype watched_type = WatchSveltosCluster | WatchSveltosLicense

datatype event_filter = Filter "watch_event \<Rightarrow> bool" | GenerationChangedPredicate

record controller_setup =
  ForType :: watched_type
  EventFilter :: event_filter
  ControllerNamed :: "string option"
  MaxConcurrentReconciles :: "int option"

definition cluster_SetupWithManager :: "int \<Rightarrow> controller_setup" where
  "cluster_SetupWithManager concurrent =
     \<lparr>ForType = WatchSveltosCluster, EventFilter = Filter SveltosClusterPredicates,
      ControllerNamed = None, MaxConcurrentReconciles = Some concurrent\<rparr>"

definition license_SetupWithManager :: controller_setup where
  "license_SetupWithManager =
     \<lparr>ForType = WatchSveltosLicense, EventFilter = GenerationChangedPredicate,
      ControllerNamed = Some ''sveltoslicense'', MaxConcurrentReconciles = None\<rparr>"

text \<open>
  What \<open>main\<close> asks of its libraries. The answer of a library may depend on the steps taken before,
  so the second \<open>GetConfigOrDie\<close> may fail although the first did not. Each operation returns the
  steps taken so far, the failing one included.
\<close>

datatype startup =
  Step_AddClientGoToScheme
| Step_AddSveltosToScheme
| Step_GetConfigOrDie
| Step_NewManager rat int ctrl_options
| Step_SetupClusterController controller_setup string string
| Step_SetupLicenseController controller_setup string
| Step_AddHealthzCheck
| Step_AddReadyzCheck
| Step_Start

type_synonym runner = "startup list \<Rightarrow> startup \<Rightarrow> goerr option"

text \<open>\<open>InitScheme\<close>: the second registration only after the first.\<close>

definition InitScheme :: "runner \<Rightarrow> startup list \<times> goerr option" where
  "InitScheme run =
     (case run [] Step_AddClientGoToScheme of
        Some e \<Rightarrow> ([Step_AddClientGoToScheme], Some e)
      | None \<Rightarrow> ([Step_AddClientGoToScheme, Step_AddSveltosToScheme],
                 run [Step_AddClientGoToScheme] Step_AddSveltosToScheme))"

text \<open>The steps taken one after the other; \<open>os.Exit(1)\<close> at the first error.\<close>

fun start_steps :: "runner \<Rightarrow> startup list \<Rightarrow> startup list \<Rightarrow> startup list \<times> int option" where
  "start_steps run h [] = (h, None)"
| "start_steps run h (x # xs) =
     (case run h x of Some _ \<Rightarrow> (h @ [x], Some 1) | None \<Rightarrow> start_steps run (h @ [x]) xs)"

definition manager_steps :: "manager_flags \<Rightarrow> string \<Rightarrow> startup list" where
  "manager_steps f sveltosNamespace =
     [Step_GetConfigOrDie,
      Step_NewManager (restConfigQPS f) (restConfigBurst f)
        \<lparr>OptMetrics = getDiagnosticsOptions f, OptHealthProbeBindAddress = healthAddr f,
         OptWebhookPort = webhookPort f, OptSyncPeriod = syncPeriod f\<rparr>,
      Step_SetupClusterController (cluster_SetupWithManager (concurrentReconciles f)) (shardKey f) sveltosNamespace,
      Step_SetupLicenseController license_SetupWithManager sveltosNamespace,
      Step_AddHealthzCheck, Step_AddReadyzCheck, Step_Start]"

text \<open>The configuration is loaded twice: for the log settings, and again for the manager.\<close>

definition main :: "runner \<Rightarrow> manager_flags \<Rightarrow> string \<Rightarrow> startup list \<times> int option" where
  "main run f sveltosNamespace =
     (case InitScheme run of
        (h, Some _) \<Rightarrow> (h, Some 1)
      | (h, None) \<Rightarrow>
          (case run h Step_GetConfigOrDie of
             Some _ \<Rightarrow> (h @ [Step_GetConfigOrDie], Some 1)
           | None \<Rightarrow>
               if sveltosNamespace = [] then (h @ [Step_GetConfigOrDie], Some 1)
               else start_steps run (h @ [Step_GetConfigOrDie]) (manager_steps f sveltosNamespace)))"

section \<open>What a start has done\<close>

definition all_succeeded :: "runner \<Rightarrow> startup list \<Rightarrow> bool" where
  "all_succeeded run h \<longleftrightarrow> (\<forall>i<length h. run (take i h) (h ! i) = None)"

lemma all_succeeded_Nil [simp]: "all_succeeded run []"
  by (simp add: all_succeeded_def)

lemma all_succeeded_snoc [simp]: "all_succeeded run (h @ [x]) \<longleftrightarrow> all_succeeded run h \<and> run h x = None"
  by (auto simp: all_succeeded_def less_Suc_eq nth_append)

lemma start_steps_outcome:
  assumes "start_steps run h xs = (h', code)" "all_succeeded run h"
  obtains (complete) "code = None" "h' = h @ xs" "all_succeeded run h'"
  | (failed) pre x rest where "code = Some 1" "xs = pre @ x # rest" "h' = h @ pre @ [x]"
      "all_succeeded run (h @ pre)" "run (h @ pre) x \<noteq> None"
proof -
  have "code = None \<and> h' = h @ xs \<and> all_succeeded run h' \<or>
    (\<exists>pre x rest. code = Some 1 \<and> xs = pre @ x # rest \<and> h' = h @ pre @ [x] \<and>
      all_succeeded run (h @ pre) \<and> run (h @ pre) x \<noteq> None)"
    using assms
  proof (induction xs arbitrary: h)
    case (Cons x xs)
    show ?case
    proof (cases "run h x")
      case None
      with Cons.prems have "start_steps run (h @ [x]) xs = (h', code)" "all_succeeded run (h @ [x])" by auto
      from Cons.IH [OF this] show ?thesis by (elim disjE exE conjE) (auto intro: exI [of _ "x # _"])
    next
      case (Some e)
      with Cons.prems show ?thesis by auto
    qed
  qed auto
  then show thesis using that by blast
qed

text \<open>The steps of a start that reaches the controllers, from the scheme on.\<close>

abbreviation prologue :: "startup list" where
  "prologue \<equiv> [Step_AddClientGoToScheme, Step_AddSveltosToScheme, Step_GetConfigOrDie]"

definition start_order :: "manager_flags \<Rightarrow> string \<Rightarrow> startup list" where
  "start_order f ns = prologue @ manager_steps f ns"

lemma diagnostics_secure:
  "SecureServing (getDiagnosticsOptions f) = (\<not> insecureDiagnostics f)"
  "WithAuthentication (getDiagnosticsOptions f) = (\<not> insecureDiagnostics f)"
  by (simp_all add: getDiagnosticsOptions_def)

lemma start_order_facts:
  "start_order f ns \<noteq> []" "last (start_order f ns) = Step_Start"
  "Step_Start \<notin> set (butlast (start_order f ns))" "10 = length (start_order f ns)"
  "Step_NewManager q b opts \<in> set (start_order f ns) \<Longrightarrow>
    SecureServing (OptMetrics opts) = (\<not> insecureDiagnostics f) \<and>
    WithAuthentication (OptMetrics opts) = (\<not> insecureDiagnostics f)"
  by (auto simp: start_order_def manager_steps_def diagnostics_secure)

lemma start_order_steps:
  "set (butlast (start_order f ns)) =
    {Step_AddClientGoToScheme, Step_AddSveltosToScheme, Step_GetConfigOrDie,
     Step_NewManager (restConfigQPS f) (restConfigBurst f)
      \<lparr>OptMetrics = getDiagnosticsOptions f, OptHealthProbeBindAddress = healthAddr f,
       OptWebhookPort = webhookPort f, OptSyncPeriod = syncPeriod f\<rparr>,
     Step_SetupClusterController (cluster_SetupWithManager (concurrentReconciles f)) (shardKey f) ns,
     Step_SetupLicenseController license_SetupWithManager ns, Step_AddHealthzCheck, Step_AddReadyzCheck}"
  by (auto simp: start_order_def manager_steps_def)

lemma main_outcome:
  obtains (complete) "snd (main run f ns) = None" "fst (main run f ns) = start_order f ns"
      "all_succeeded run (fst (main run f ns))" "ns \<noteq> []"
  | (no_namespace) "snd (main run f ns) = Some 1" "fst (main run f ns) = prologue" "ns = []"
      "all_succeeded run prologue"
  | (failed) pre x rest where "snd (main run f ns) = Some 1" "start_order f ns = pre @ x # rest"
      "fst (main run f ns) = pre @ [x]" "all_succeeded run pre" "run pre x \<noteq> None"
      "length pre < 3 \<or> ns \<noteq> []"
proof -
  let ?A = Step_AddClientGoToScheme and ?B = Step_AddSveltosToScheme and ?C = Step_GetConfigOrDie
  consider (a) "run [] ?A \<noteq> None" | (b) "run [] ?A = None" "run [?A] ?B \<noteq> None"
    | (c) "run [] ?A = None" "run [?A] ?B = None" "run [?A, ?B] ?C \<noteq> None"
    | (d) "run [] ?A = None" "run [?A] ?B = None" "run [?A, ?B] ?C = None" by blast
  then show thesis
  proof cases
    case a
    then show thesis by (intro failed [of "[]" ?A]) (auto simp: main_def InitScheme_def start_order_def)
  next
    case b
    then show thesis
      using all_succeeded_snoc [of run "[]"] by (intro failed [of "[?A]" ?B]) (auto simp: main_def InitScheme_def start_order_def)
  next
    case c
    then show thesis
      using all_succeeded_snoc [of run "[]"] all_succeeded_snoc [of run "[?A]"]
      by (intro failed [of "[?A, ?B]" ?C]) (auto simp: main_def InitScheme_def start_order_def)
  next
    case d
    then have ok: "all_succeeded run prologue"
      using all_succeeded_snoc [of run "[]"] all_succeeded_snoc [of run "[?A]"] all_succeeded_snoc [of run "[?A, ?B]"]
      by simp
    show thesis
    proof (cases "ns = []")
      case True
      with d ok show thesis by (intro no_namespace) (simp_all add: main_def InitScheme_def)
    next
      case False
      with d have m: "main run f ns = start_steps run prologue (manager_steps f ns)"
        by (simp add: main_def InitScheme_def)
      obtain h code where hc: "start_steps run prologue (manager_steps f ns) = (h, code)" by fastforce
      then have out: "fst (main run f ns) = h" "snd (main run f ns) = code" by (simp_all add: m)
      from hc ok show thesis
      proof (cases rule: start_steps_outcome)
        case complete
        with False show thesis by (intro that(1)) (simp_all add: out start_order_def)
      next
        case (failed pre x rest)
        with False show thesis by (intro that(3) [of "prologue @ pre" x rest]) (simp_all add: out start_order_def)
      qed
    qed
  qed
qed

lemma Start_is_last:
  assumes "start_order f ns = pre @ x # rest" "Step_Start \<in> set (pre @ [x])"
  shows "x = Step_Start" "pre = butlast (start_order f ns)"
proof -
  have "rest = []"
  proof (rule ccontr)
    assume "rest \<noteq> []"
    then have "butlast (start_order f ns) = (pre @ [x]) @ butlast rest"
      unfolding assms(1) by (simp add: butlast_append)
    with assms(2) start_order_facts(3) [of f ns] show False by auto
  qed
  then have eq: "start_order f ns = pre @ [x]" using assms(1) by simp
  show "x = Step_Start" using start_order_facts(2) [of f ns] unfolding eq by simp
  show "pre = butlast (start_order f ns)" unfolding eq by simp
qed

text \<open>
  C40: every failure ends the process with status 1 at the failing step: all steps before it have
  succeeded, it is the last one taken, and only a missing namespace ends the process without one,
  before any manager is made. The manager is started last, only with a namespace, and after exactly
  these steps, each without error: both types are in the scheme, the configuration is loaded, the
  manager is made with the rates, the ports, the address of the probes and the sync period of the flags,
  the SveltosCluster controller is registered with its filter of events, the concurrency and the shard key
  of the flags and the namespace, the SveltosLicense controller with the namespace and on changes of
  the generation only, and both probes are there. A manager serves its diagnostics over TLS, with
  requests authenticated and authorised, unless insecure diagnostics were asked for.
\<close>

theorem main_starts_complete:
  fixes run :: runner and f :: manager_flags and ns :: string
  defines "steps \<equiv> fst (main run f ns)" and "code \<equiv> snd (main run f ns)"
  shows "steps \<noteq> [] \<and> all_succeeded run (butlast steps) \<and>
    (code = None \<longleftrightarrow> last steps = Step_Start \<and> run (butlast steps) Step_Start = None) \<and>
    (code \<noteq> None \<longrightarrow> code = Some 1 \<and>
      (run (butlast steps) (last steps) \<noteq> None \<or> ns = [] \<and> last steps = Step_GetConfigOrDie \<and> length steps = 3)) \<and>
    (Step_Start \<in> set steps \<longrightarrow> ns \<noteq> [] \<and> last steps = Step_Start \<and> set (butlast steps) =
      {Step_AddClientGoToScheme, Step_AddSveltosToScheme, Step_GetConfigOrDie,
       Step_NewManager (restConfigQPS f) (restConfigBurst f)
        \<lparr>OptMetrics = getDiagnosticsOptions f, OptHealthProbeBindAddress = healthAddr f,
         OptWebhookPort = webhookPort f, OptSyncPeriod = syncPeriod f\<rparr>,
       Step_SetupClusterController
        \<lparr>ForType = WatchSveltosCluster, EventFilter = Filter SveltosClusterPredicates, ControllerNamed = None,
         MaxConcurrentReconciles = Some (concurrentReconciles f)\<rparr> (shardKey f) ns,
       Step_SetupLicenseController
        \<lparr>ForType = WatchSveltosLicense, EventFilter = GenerationChangedPredicate,
         ControllerNamed = Some ''sveltoslicense'', MaxConcurrentReconciles = None\<rparr> ns,
       Step_AddHealthzCheck, Step_AddReadyzCheck}) \<and>
    (\<forall>q b opts. Step_NewManager q b opts \<in> set steps \<longrightarrow>
      SecureServing (OptMetrics opts) = (\<not> insecureDiagnostics f) \<and>
      WithAuthentication (OptMetrics opts) = (\<not> insecureDiagnostics f))"
proof (cases rule: main_outcome [of run f ns])
  case complete
  have all: "steps = butlast (start_order f ns) @ [Step_Start]"
    using complete(2) start_order_facts(1,2) [of f ns] append_butlast_last_id [of "start_order f ns"]
    by (simp add: steps_def)
  have ok: "all_succeeded run (butlast (start_order f ns))" "run (butlast (start_order f ns)) Step_Start = None"
    using complete(3) unfolding steps_def [symmetric] all by simp_all
  have secure: "SecureServing (OptMetrics opts) = (\<not> insecureDiagnostics f) \<and>
      WithAuthentication (OptMetrics opts) = (\<not> insecureDiagnostics f)"
    if "Step_NewManager q b opts \<in> set steps" for q b opts
    using start_order_facts(5) that complete(2) by (simp add: steps_def)
  show ?thesis
    using ok secure complete(1,4) start_order_steps [of f ns] unfolding all code_def
    by (simp add: cluster_SetupWithManager_def license_SetupWithManager_def)
next
  case no_namespace
  then show ?thesis
    using all_succeeded_snoc [of run "[Step_AddClientGoToScheme, Step_AddSveltosToScheme]" Step_GetConfigOrDie]
    by (simp add: steps_def code_def)
next
  case (failed pre x rest)
  have steps: "steps = pre @ [x]" using failed(3) by (simp add: steps_def)
  have secure: "SecureServing (OptMetrics opts) = (\<not> insecureDiagnostics f) \<and>
      WithAuthentication (OptMetrics opts) = (\<not> insecureDiagnostics f)"
    if "Step_NewManager q b opts \<in> set steps" for q b opts
  proof -
    have "Step_NewManager q b opts \<in> set (start_order f ns)" using that unfolding failed(2) steps by auto
    then show ?thesis by (rule start_order_facts(5))
  qed
  show ?thesis
  proof (cases "Step_Start \<in> set steps")
    case True
    note last = Start_is_last [OF failed(2) True [unfolded steps]]
    have "length pre = 9" using start_order_facts(4) [of f ns] last(2) by simp
    then have "ns \<noteq> []" using failed(6) by simp
    then show ?thesis
      using secure failed(1,4,5) last start_order_steps [of f ns] unfolding steps code_def
      by (simp add: cluster_SetupWithManager_def license_SetupWithManager_def)
  next
    case False
    then show ?thesis using secure failed(1,4,5) unfolding steps code_def by auto
  qed
qed

text \<open>A start in which every step succeeds, with the flags at their defaults.\<close>

theorem main_starts_complete_witness:
  "last (fst (main (\<lambda>_ _. None) initFlags ''projectsveltos'')) = Step_Start"
proof -
  have "snd (main (\<lambda>_ _. None) initFlags ''projectsveltos'') = None"
    by (simp add: main_def InitScheme_def manager_steps_def)
  moreover have "snd (main (\<lambda>_ _. None) initFlags ''projectsveltos'') = None \<longleftrightarrow>
      last (fst (main (\<lambda>_ _. None) initFlags ''projectsveltos'')) = Step_Start \<and>
      None = (None :: goerr option)"
    using main_starts_complete [of "\<lambda>_ _. None" initFlags "''projectsveltos''"] by (elim conjE) (simp only:)
  ultimately show ?thesis by simp
qed

end
