(* ===== verification/Spec2Isabelle.thy ===== *)
theory Spec2Isabelle
  imports Lifecycle License_Controller Manager
begin

text \<open>
  A verification development for sveltoscluster-manager, the Kubernetes controller of Sveltos
  that keeps the state of every registered cluster (a SveltosCluster object) up to date.

  \<^bold>\<open>The program.\<close> The process (\<open>cmd/main.go\<close>) starts two controllers. The SveltosCluster controller
  (\<open>controllers/sveltoscluster_controller.go\<close>) is called for one object at a time: it fetches the
  object, opens a scope over it (\<open>pkg/scope\<close>), mutates it in memory and patches it when the scope
  is closed. A reconciliation maintains the finalizer, then either connects to the cluster (push
  mode: server version, token renewal, readiness or liveness checks of
  \<open>controllers/cluster_checks.go\<close>) or evaluates what its agent reported (pull mode: license relay,
  token renewal by delivery, heartbeat), updates the connection status, the events
  (\<open>controllers/events.go\<close>) and the gauges (\<open>controllers/metrics.go\<close>), and finally pauses or
  unpauses the cluster by its active window. Which watch events lead to a reconciliation is decided
  in \<open>controllers/sveltoscluster_predicate.go\<close>. The license controller
  (\<open>controllers/sveltoslicense_controller.go\<close>) keeps the status of the one SveltosLicense.

  \<^bold>\<open>How it is modelled.\<close> A function that mutates its object and calls the outside world is an
  action of the state monad whose state is the object and the sequence of outside calls made so far
  (\<open>Prelude\<close>). Code outside the repository is a parameter, the record \<open>env\<close> (\<open>World\<close>): each
  answer is a function of the calls made before, so the same question may be answered differently at
  different moments and no theorem assumes a quiet world. Errors are values of a sum type, panics a
  constructor of \<open>outcome\<close>, nil pointers, slices and maps are options, Go integers are
  \<open>int\<close> with the wrap-around written out where it can occur (\<open>wrap64\<close>), floats are rationals
  rounded as IEEE 754 double precision does (\<open>fl64\<close>), strings are byte strings. Logging is left out.

  \<^bold>\<open>Theories.\<close>
  \<^item> \<open>Prelude\<close>: the monad, the frame rules (\<open>keeps\<close>) and the call rules (\<open>only_calls\<close>) in named
    collections; every component proves what it leaves alone and what it calls with them.
  \<^item> \<open>Go_Numeric\<close>, \<open>Go_Time\<close>, \<open>Go_Strings\<close>, \<open>Go_RFC3339\<close>, \<open>Go_Sha256\<close>, \<open>Go_Json\<close>: what the program
    uses of the Go language and its standard library, with the locale \<open>rounding\<close> for the float
    operations and the locale \<open>base64_alphabet\<close> for the two base64 encodings.
  \<^item> \<open>Api\<close>, \<open>World\<close>, \<open>Sample\<close>: the objects, the calls and the environment, and a concrete environment
    at which the theorems with hypotheses are applied.
  \<^item> \<open>Scope\<close>, \<open>Ctrl\<close>, \<open>Metrics\<close>, \<open>Events\<close>, \<open>Predicates\<close>: the small components. What Prometheus does
    with a call is the hypothesis \<open>registry_laws\<close>, and \<open>replay\<close> is a registry that satisfies it.
  \<^item> \<open>Pause_Window\<close>: the active window. What the cron library promises is the hypothesis \<open>fires\<close>.
    The theorems follow a whole sequence of runs of the handler. Of windows whose openings and closings
    alternate, one configured while closed is followed exactly and one configured while open is never
    entered, if no run jumps over a period; a window whose opening has fired more than 100 times since
    the cluster was created is never entered; an edit that only moves the border between the two
    schedules is not seen until the old window has closed.
  \<^item> \<open>Token_Renewal\<close>: when a token is due, to the second; its lifetime; reading the expiration
    out of a JWT; the kubeconfig, read back; the loop over the contexts, whose first named user
    decides for all; and when a renewal is recorded.
  \<^item> \<open>Cluster_Checks\<close>: selection of resources, label selectors, the outcome of the checks.
  \<^item> \<open>Connection\<close>: \<open>updateConnectionStatus\<close> refines the abstract automaton \<open>conn_step\<close>. The locale
    \<open>connection_tracker\<close> is the contract of any step that follows the automaton, and
    \<open>connection_events\<close> extends it by the events; what holds along whole runs is proved in them
    once, and they are interpreted on whole push-mode and pull-mode reconciliations in
    \<open>Cluster_Controller\<close>.
  \<^item> \<open>License_Relay\<close>, \<open>Pull_Mode\<close>: pull-mode clusters.
  \<^item> \<open>Cluster_Controller\<close>: \<open>Reconcile\<close>, \<open>reconcileDelete\<close>, \<open>reconcileNormal\<close>, the push branch, and
    the properties that span components: one patch per reconciliation and nothing for another shard,
    failure counting and events over runs, when a cluster becomes and stays ready, the finalizer and
    the window whatever else happens, the gauges against the status, clean-up at deletion, and that
    the patch of a reconciliation does not start another one.
  \<^item> \<open>Lifecycle\<close>: the object the API server stores, from one reconciliation to the next. The relation
    \<open>lifecycle\<close> interleaves reconciliations, patches that fail wholly or half, and the edits of
    others, and keeps the failure thresholds the spec has had; its invariant ties the connection
    status to the failure count over a cluster's whole life. A run of a cluster that is being deleted
    is described exactly, and a cluster without a grace period is seen to leave its metrics behind.
  \<^item> \<open>License_Controller\<close>, \<open>Manager\<close>: the license controller, and the start of the process
    with what it registers at controller-runtime.

  \<^bold>\<open>Bounds.\<close> Every definition is total. The loop over missed start times ends by its own bound of
  100, which is its termination measure. The JSON parser recurses on input that every step makes
  shorter and, as Go's decoder, refuses more than 10000 levels of nesting. Counters are Go \<open>int\<close>s of
  64 bits; the theorems about runs that count failures ask for fewer than \<open>2^63\<close> reconciliations,
  which is when the counter would wrap. Times are nanoseconds since the Unix epoch as unbounded
  integers, durations are kept in 64 bits and saturate where \<open>time.Time.Sub\<close> does.

  \<^bold>\<open>Not modelled.\<close> Logging, RBAC markers, the code that starts a test API server and the tests,
  and the libraries: libsveltos, client-go, controller-runtime, the Lua and CEL interpreters, the
  cron, semver and YAML parsers and Prometheus, which enter as fields of \<open>env\<close>. Concurrency is that
  of controller-runtime, which never reconciles one object twice at the same time; interference by
  other writers between two calls is covered, since every answer of \<open>env\<close> may depend on the calls
  made so far.
\<close>

end
